(* ===== verification/Prelude.thy ===== *)
theory Prelude
  imports Complex_Main "HOL-Library.Multiset" "HOL-Library.Sublist"
begin

text \<open>
  Shared vocabulary of the development: two collections of facts (\<open>walk_simps\<close>,
  the executor's entry and each compiled graph's wiring; \<open>agent_simps\<close>, the
  definitions a concrete run of an example unfolds), the JavaScript list helpers the
  examples call (\<open>Array.prototype.at(-1)\<close>, a sequential \<open>for ... of\<close> loop that
  stops at the first thrown error), and generic lemmas about lists, sums and
  association lists that the component proofs share.
\<close>

named_theorems agent_simps "equations used to evaluate the example agents on concrete inputs"
named_theorems walk_simps "equations used to unfold the graph executor"

type_synonym node_name = string
type_synonym label = string

subsection \<open>\<open>xs.at(-1)\<close>\<close>

text \<open>\<open>Array.prototype.at(-1)\<close>: the last element, \<open>undefined\<close> (here \<open>None\<close>) on an empty array.\<close>

definition last_opt :: "'a list \<Rightarrow> 'a option" where
  "last_opt xs = (if xs = [] then None else Some (last xs))"

subsection \<open>A loop that stops at the first thrown error\<close>

text \<open>
  \<open>for (const x of xs) { out.push(await f(x)) }\<close>, where \<open>f\<close> may throw: the results
  in order, or the first error. \<open>Inl\<close> is the thrown error.
\<close>

fun map_seq :: "('a \<Rightarrow> 'e + 'b) \<Rightarrow> 'a list \<Rightarrow> 'e + 'b list" where
  "map_seq f [] = Inr []"
| "map_seq f (x # xs) =
     (case f x of
        Inl e \<Rightarrow> Inl e
      | Inr y \<Rightarrow> (case map_seq f xs of Inl e \<Rightarrow> Inl e | Inr ys \<Rightarrow> Inr (y # ys)))"

subsection \<open>Throwing code as a sum\<close>

text \<open>Sequencing two statements of which the first may throw.\<close>

definition bind_sum :: "'e + 'a \<Rightarrow> ('a \<Rightarrow> 'e + 'b) \<Rightarrow> 'e + 'b" where
  "bind_sum x f = (case x of Inl e \<Rightarrow> Inl e | Inr a \<Rightarrow> f a)"

text \<open>
  A channel declared \<open>Annotation<T>\<close> without reducer: an update that writes it
  replaces its value, one that does not write it leaves it alone.
\<close>

definition replace_chan :: "'a option \<Rightarrow> 'a option \<Rightarrow> 'a option" where
  "replace_chan old upd = (case upd of None \<Rightarrow> old | Some v \<Rightarrow> Some v)"

lemma last_opt_Nil [simp]: "last_opt [] = None"
  by (simp add: last_opt_def)

lemma last_opt_snoc [simp]: "last_opt (xs @ [x]) = Some x"
  by (simp add: last_opt_def)

lemma last_opt_append_nonempty [simp]: "ys \<noteq> [] \<Longrightarrow> last_opt (xs @ ys) = last_opt ys"
  by (simp add: last_opt_def)

lemma last_opt_append_Nil_right [simp]: "last_opt (xs @ []) = last_opt xs"
  by simp

lemma last_opt_Cons [simp]: "last_opt (x # xs) = (if xs = [] then Some x else last_opt xs)"
  by (simp add: last_opt_def)

lemma last_opt_Some_in_set: "last_opt xs = Some x \<Longrightarrow> x \<in> set xs"
  by (auto simp: last_opt_def split: if_splits)

lemma map_seq_Inr_length: "map_seq f xs = Inr ys \<Longrightarrow> length ys = length xs"
  by (induction xs arbitrary: ys) (auto split: sum.splits)

lemma map_seq_Inr_nth:
  "map_seq f xs = Inr ys \<Longrightarrow> i < length xs \<Longrightarrow> f (xs ! i) = Inr (ys ! i)"
proof (induction xs arbitrary: ys i)
  case Nil
  then show ?case by simp
next
  case (Cons x xs)
  then obtain y ys' where fx: "f x = Inr y" and rest: "map_seq f xs = Inr ys'" and ys: "ys = y # ys'"
    by (auto split: sum.splits)
  show ?case
  proof (cases i)
    case 0
    with fx ys show ?thesis by simp
  next
    case (Suc j)
    with Cons.prems have "j < length xs" by simp
    with Cons.IH [OF rest] Suc ys show ?thesis by simp
  qed
qed

lemma map_seq_Inr_iff: "(\<exists>ys. map_seq f xs = Inr ys) \<longleftrightarrow> (\<forall>x \<in> set xs. \<exists>y. f x = Inr y)"
  by (induction xs) (auto split: sum.splits)

lemma map_seq_all_Inr: "(\<And>x. x \<in> set xs \<Longrightarrow> f x = Inr (g x)) \<Longrightarrow> map_seq f xs = Inr (map g xs)"
  by (induction xs) auto

lemma map_seq_Inl_first:
  "map_seq f xs = Inl e \<Longrightarrow>
     \<exists>i < length xs. f (xs ! i) = Inl e \<and> (\<forall>j < i. \<exists>y. f (xs ! j) = Inr y)"
proof (induction xs)
  case Nil
  then show ?case by simp
next
  case (Cons x xs)
  show ?case
  proof (cases "f x")
    case (Inl e')
    with Cons.prems show ?thesis by auto
  next
    case (Inr y)
    with Cons.prems have "map_seq f xs = Inl e" by (simp split: sum.splits)
    then obtain i where "i < length xs" "f (xs ! i) = Inl e" "\<forall>j < i. \<exists>y. f (xs ! j) = Inr y"
      using Cons.IH by blast
    with Inr show ?thesis
      by (intro exI [of _ "Suc i"]) (auto simp: less_Suc_eq_0_disj)
  qed
qed

lemma bind_sum_simps [simp]:
  "bind_sum (Inl e) f = Inl e"
  "bind_sum (Inr a) f = f a"
  by (simp_all add: bind_sum_def)

lemma bind_sum_Inr_iff:
  "bind_sum x f = Inr b \<longleftrightarrow> (\<exists>a. x = Inr a \<and> f a = Inr b)"
  by (cases x) simp_all

subsection \<open>Association lists read the way JavaScript objects are\<close>

lemma map_of_append_Some: "map_of xs k = Some v \<Longrightarrow> map_of (xs @ ys) k = Some v"
  by simp

lemma map_of_append_None: "map_of xs k = None \<Longrightarrow> map_of (xs @ ys) k = map_of ys k"
  by (simp add: map_add_def split: option.splits)

lemma map_of_rev_append: "map_of (rev (xs @ ys)) k =
    (case map_of (rev ys) k of Some v \<Rightarrow> Some v | None \<Rightarrow> map_of (rev xs) k)"
  by (simp add: map_add_def split: option.splits)

end
