(* ===== verification/Js_Values.thy ===== *)
theory Js_Values
  imports Prelude
begin

text \<open>
  The JavaScript values the examples compute with. Numbers are modelled as exact
  rationals plus the three non-finite IEEE values (\<open>a / 0\<close>); binary rounding of
  doubles is not modelled. JSON values are what \<open>JSON.parse\<close> returns; a property read
  on \<open>null\<close> throws a \<open>TypeError\<close>, on a non-object it is \<open>undefined\<close> (\<open>None\<close>),
  and duplicate keys of a parsed object resolve to the last one. Plain objects built by
  the code are association lists with distinct keys in insertion order, and
  \<open>Object.assign\<close> is a left fold of per-key writes.
\<close>

datatype jsnum = Fin rat | PosInf | NegInf | NaN

text \<open>\<open>a / b\<close> on numbers: division by zero gives an infinity of the dividend's sign, or NaN.\<close>

definition js_div :: "rat \<Rightarrow> rat \<Rightarrow> jsnum" where
  "js_div a b =
     (if b = 0 then (if 0 < a then PosInf else if a < 0 then NegInf else NaN)
      else Fin (a / b))"

datatype json =
    JNull
  | JBool bool
  | JNum rat
  | JStr string
  | JArr "json list"
  | JObj "(string \<times> json) list"

datatype js_error = TypeError string

text \<open>\<open>v.k\<close> for a value \<open>v\<close> produced by \<open>JSON.parse\<close>.\<close>

fun get_prop :: "json \<Rightarrow> string \<Rightarrow> js_error + json option" where
  "get_prop JNull k = Inl (TypeError ''Cannot read properties of null'')"
| "get_prop (JObj kvs) k = Inr (map_of (rev kvs) k)"
| "get_prop (JArr xs) k = Inr (if k = ''length'' then Some (JNum (of_nat (length xs))) else None)"
| "get_prop (JStr s) k = Inr (if k = ''length'' then Some (JNum (of_nat (length s))) else None)"
| "get_prop (JNum n) k = Inr None"
| "get_prop (JBool b) k = Inr None"

text \<open>JavaScript truthiness (\<open>NaN\<close> never comes out of \<open>JSON.parse\<close>).\<close>

fun truthy :: "json \<Rightarrow> bool" where
  "truthy JNull = False"
| "truthy (JBool b) = b"
| "truthy (JNum n) = (n \<noteq> 0)"
| "truthy (JStr s) = (s \<noteq> [])"
| "truthy (JArr xs) = True"
| "truthy (JObj kvs) = True"

text \<open>\<open>a || d\<close> where \<open>a\<close> may be \<open>undefined\<close>.\<close>

definition js_or :: "json option \<Rightarrow> json \<Rightarrow> json" where
  "js_or a d = (case a of Some v \<Rightarrow> if truthy v then v else d | None \<Rightarrow> d)"

subsection \<open>Plain objects and \<open>Object.assign\<close>\<close>

type_synonym 'v obj = "(string \<times> 'v) list"

text \<open>\<open>o[k] = v\<close>: an existing key keeps its position, a new key goes last.\<close>

fun obj_set :: "'v obj \<Rightarrow> string \<Rightarrow> 'v \<Rightarrow> 'v obj" where
  "obj_set [] k v = [(k, v)]"
| "obj_set ((k', v') # kvs) k v =
     (if k' = k then (k, v) # kvs else (k', v') # obj_set kvs k v)"

text \<open>\<open>Object.assign(target, src)\<close>: the source's own keys, in order.\<close>

definition obj_assign1 :: "'v obj \<Rightarrow> 'v obj \<Rightarrow> 'v obj" where
  "obj_assign1 tgt src = foldl (\<lambda>acc (k, v). obj_set acc k v) tgt src"

text \<open>\<open>Object.assign({}, ...srcs)\<close>.\<close>

definition obj_assign :: "'v obj list \<Rightarrow> 'v obj" where
  "obj_assign srcs = foldl obj_assign1 [] srcs"

subsection \<open>Strings\<close>

text \<open>
  \<open>String.prototype.toUpperCase\<close> and \<open>toLowerCase\<close> on the ASCII letters. A
  character is a byte here, so the Unicode case mappings of the other characters are
  not modelled (they are left unchanged).
\<close>

definition js_upper_char :: "char \<Rightarrow> char" where
  "js_upper_char c = (let n = (of_char c :: nat) in if 97 \<le> n \<and> n \<le> 122 then char_of (n - 32) else c)"

definition js_lower_char :: "char \<Rightarrow> char" where
  "js_lower_char c = (let n = (of_char c :: nat) in if 65 \<le> n \<and> n \<le> 90 then char_of (n + 32) else c)"

definition js_to_upper :: "string \<Rightarrow> string" where
  "js_to_upper s = map js_upper_char s"

definition js_to_lower :: "string \<Rightarrow> string" where
  "js_to_lower s = map js_lower_char s"

text \<open>A natural number in a template literal: its decimal digits.\<close>

fun nat_to_dec :: "nat \<Rightarrow> string" where
  "nat_to_dec n = (if n < 10 then [char_of (48 + n)] else nat_to_dec (n div 10) @ [char_of (48 + n mod 10)])"

declare nat_to_dec.simps [simp del]

text \<open>
  \<open>s.split(sep)\<close> for a one-character separator: the pieces between separators, an
  empty piece where two separators meet or at either end (\<open>"".split(sep)\<close> is
  \<open>[""]\<close>). \<open>xs.join(sep)\<close> puts the separator back.
\<close>

fun js_split :: "char \<Rightarrow> string \<Rightarrow> string list" where
  "js_split c [] = [[]]"
| "js_split c (x # xs) =
     (let ps = js_split c xs in if x = c then [] # ps else (x # hd ps) # tl ps)"

fun js_join :: "char \<Rightarrow> string list \<Rightarrow> string" where
  "js_join c [] = []"
| "js_join c [p] = p"
| "js_join c (p # ps) = p @ c # js_join c ps"

text \<open>
  The characters of \<open>\s\<close> and of \<open>String.prototype.trim\<close> (white space and line
  terminators) that fit in a byte, and the line terminators that \<open>.\<close> does not match.
\<close>

definition js_is_space :: "char \<Rightarrow> bool" where
  "js_is_space x \<longleftrightarrow> (of_char x :: nat) \<in> {9, 10, 11, 12, 13, 32, 160}"

definition js_is_line_term :: "char \<Rightarrow> bool" where
  "js_is_line_term x \<longleftrightarrow> (of_char x :: nat) \<in> {10, 13}"

definition js_trim :: "string \<Rightarrow> string" where
  "js_trim s = rev (dropWhile js_is_space (rev (dropWhile js_is_space s)))"

lemma js_or_simps [simp]:
  "js_or None d = d"
  "js_or (Some v) d = (if truthy v then v else d)"
  by (simp_all add: js_or_def)

lemma map_of_obj_set [simp]: "map_of (obj_set kvs k v) = (map_of kvs)(k \<mapsto> v)"
  by (induction kvs) (auto simp: fun_eq_iff)

lemma keys_obj_set: "map fst (obj_set kvs k v) =
    (if k \<in> set (map fst kvs) then map fst kvs else map fst kvs @ [k])"
  by (induction kvs) (auto simp: image_iff, fastforce)

lemma distinct_obj_set: "distinct (map fst kvs) \<Longrightarrow> distinct (map fst (obj_set kvs k v))"
  by (simp add: keys_obj_set)

lemma map_of_obj_assign1: "map_of (obj_assign1 tgt src) = map_of tgt ++ map_of (rev src)"
proof (induction src arbitrary: tgt rule: rev_induct)
  case Nil
  then show ?case by (simp add: obj_assign1_def)
next
  case (snoc kv src)
  then show ?case by (cases kv) (simp add: obj_assign1_def fun_eq_iff map_add_def)
qed

lemma map_of_obj_assign_snoc:
  "map_of (obj_assign (srcs @ [src])) = map_of (obj_assign srcs) ++ map_of (rev src)"
  by (simp add: obj_assign_def map_of_obj_assign1)

lemma distinct_obj_assign1:
  "distinct (map fst tgt) \<Longrightarrow> distinct (map fst (obj_assign1 tgt src))"
  unfolding obj_assign1_def
  by (induction src arbitrary: tgt) (auto simp: distinct_obj_set)

lemma distinct_obj_assign: "distinct (map fst (obj_assign srcs))"
proof -
  have "distinct (map fst tgt) \<Longrightarrow> distinct (map fst (foldl obj_assign1 tgt srcs))" for tgt
    by (induction srcs arbitrary: tgt) (auto simp: distinct_obj_assign1)
  then show ?thesis by (simp add: obj_assign_def)
qed

lemma js_split_ne [simp]: "js_split c s \<noteq> []"
  by (induction s) (auto simp: Let_def)

lemma js_join_split: "js_join c (js_split c s) = s"
proof (induction s)
  case Nil
  then show ?case by simp
next
  case (Cons x xs)
  obtain p ps where ps: "js_split c xs = p # ps" by (cases "js_split c xs") auto
  with Cons show ?case by (cases ps) (auto simp: Let_def)
qed


lemma js_split_no_sep: "c \<notin> set l \<Longrightarrow> js_split c l = [l]"
  by (induction l) auto

lemma js_split_append_sep: "c \<notin> set l \<Longrightarrow> js_split c (l @ c # r) = l # js_split c r"
proof (induction l)
  case (Cons x xs)
  then show ?case by (auto simp: Let_def)
qed simp

lemma js_split_join: "ls \<noteq> [] \<Longrightarrow> \<forall>l \<in> set ls. c \<notin> set l \<Longrightarrow> js_split c (js_join c ls) = ls"
  by (induction c ls rule: js_join.induct) (simp_all add: js_split_no_sep js_split_append_sep)

lemma nat_to_dec_ne [simp]: "nat_to_dec n \<noteq> []"
  by (simp add: nat_to_dec.simps [of n])

lemma nat_to_dec_digits: "x \<in> set (nat_to_dec n) \<Longrightarrow> 48 \<le> (of_char x :: nat) \<and> (of_char x :: nat) \<le> 57"
proof (induction n rule: nat_to_dec.induct)
  case (1 n)
  have d: "of_char (char_of (48 + d) :: char) = (48 + d :: nat)" if "d < 10" for d
    using that by (simp add: of_char_of)
  show ?case
  proof (cases "n < 10")
    case True
    with 1 d [of n] show ?thesis by (simp add: nat_to_dec.simps [of n])
  next
    case False
    with 1 d [of "n mod 10"] show ?thesis by (auto simp: nat_to_dec.simps [of n])
  qed
qed

end
