(* ===== verification/Messages.thy ===== *)
theory Messages
  imports Js_Values
begin

text \<open>
  The message and tool interface of \<open>@langchain/core\<close> that every example uses
  (library code, modelled from the spec: a message is a tagged union over the roles
  system, human, ai and tool; an ai message carries zero or more tool calls; a tool
  result carries the id of the call it answers). \<open>MessagesAnnotation\<close>'s reducer
  appends. A tool made by \<open>tool(fn, {name, schema})\<close> validates the call's arguments
  against its schema before it runs \<open>fn\<close>; a failed validation throws.
\<close>

record tool_call =
  tc_name :: string
  tc_args :: json
  tc_id :: string

text \<open>
  The content of a tool message: a number, a string, or the string
  \<open>JSON.stringify(v)\<close> of a JSON value \<open>v\<close> (kept as the value it prints).
\<close>

datatype tool_output = ONum jsnum | OStr string | OJson json

datatype message =
    SystemMessage string
  | HumanMessage string
  | AIMessage string "tool_call list"
  | ToolMessage tool_output string

text \<open>\<open>message._getType()\<close>.\<close>

fun msg_type :: "message \<Rightarrow> string" where
  "msg_type (SystemMessage c) = ''system''"
| "msg_type (HumanMessage c) = ''human''"
| "msg_type (AIMessage c calls) = ''ai''"
| "msg_type (ToolMessage out cid) = ''tool''"

text \<open>\<open>aiMessage.tool_calls ?? []\<close> (the \<open>tool_calls\<close> of a non-ai message are absent).\<close>

fun tool_calls_of :: "message \<Rightarrow> tool_call list" where
  "tool_calls_of (AIMessage c calls) = calls"
| "tool_calls_of m = []"

fun is_ai :: "message \<Rightarrow> bool" where
  "is_ai (AIMessage c calls) = True"
| "is_ai m = False"

text \<open>
  A chat model with tools bound: from the messages sent to it, the content and the tool
  calls of the ai message it answers with, or the error it throws. A model without tools
  answers with a text.
\<close>

type_synonym chat_model = "message list \<Rightarrow> string + (string \<times> tool_call list)"
type_synonym text_model = "message list \<Rightarrow> string + string"

text \<open>\<open>messagesStateReducer\<close> / \<open>addMessages\<close> on messages with fresh ids: append.\<close>

definition add_messages :: "message list \<Rightarrow> message list \<Rightarrow> message list" where
  "add_messages left right = left @ right"

subsection \<open>Tools\<close>

datatype tool_error =
    ToolInputParsingException string
  | ToolNotFound string

text \<open>The message of a thrown tool error, as it surfaces from a node.\<close>

fun tool_error_msg :: "tool_error \<Rightarrow> string" where
  "tool_error_msg (ToolInputParsingException m) = ''Received tool input did not match expected schema: '' @ m"
| "tool_error_msg (ToolNotFound nm) = ''Cannot read properties of undefined (reading 'invoke'): '' @ nm"

text \<open>A tool: its name and its body, schema validation included.\<close>

record tool =
  tool_name :: string
  tool_fn :: "json \<Rightarrow> tool_error + tool_output"

text \<open>\<open>tool.invoke(toolCall)\<close>: a \<open>ToolMessage\<close> tagged with the call's id, or the thrown error.\<close>

definition tool_invoke :: "tool \<Rightarrow> tool_call \<Rightarrow> tool_error + message" where
  "tool_invoke t c =
     (case tool_fn t (tc_args c) of
        Inl e \<Rightarrow> Inl e
      | Inr out \<Rightarrow> Inr (ToolMessage out (tc_id c)))"

text \<open>\<open>z.object({k: z.number(), ...})\<close> reading one numeric field.\<close>

fun zod_number :: "json \<Rightarrow> string \<Rightarrow> tool_error + rat" where
  "zod_number (JObj kvs) k =
     (case map_of (rev kvs) k of
        Some (JNum r) \<Rightarrow> Inr r
      | Some v \<Rightarrow> Inl (ToolInputParsingException (''Expected number at '' @ k))
      | None \<Rightarrow> Inl (ToolInputParsingException (''Required at '' @ k)))"
| "zod_number v k = Inl (ToolInputParsingException ''Expected object'')"

fun zod_string :: "json \<Rightarrow> string \<Rightarrow> tool_error + string" where
  "zod_string (JObj kvs) k =
     (case map_of (rev kvs) k of
        Some (JStr s) \<Rightarrow> Inr s
      | Some v \<Rightarrow> Inl (ToolInputParsingException (''Expected string at '' @ k))
      | None \<Rightarrow> Inl (ToolInputParsingException (''Required at '' @ k)))"
| "zod_string v k = Inl (ToolInputParsingException ''Expected object'')"

text \<open>\<open>z.enum([...])\<close> and \<open>z.array(z.number())\<close> reading one field.\<close>

fun zod_enum :: "string list \<Rightarrow> json \<Rightarrow> string \<Rightarrow> tool_error + string" where
  "zod_enum opts (JObj kvs) k =
     (case map_of (rev kvs) k of
        Some (JStr s) \<Rightarrow> if s \<in> set opts then Inr s
                         else Inl (ToolInputParsingException (''Invalid enum value at '' @ k))
      | Some v \<Rightarrow> Inl (ToolInputParsingException (''Expected string at '' @ k))
      | None \<Rightarrow> Inl (ToolInputParsingException (''Required at '' @ k)))"
| "zod_enum opts v k = Inl (ToolInputParsingException ''Expected object'')"

fun json_num :: "json \<Rightarrow> rat option" where
  "json_num (JNum r) = Some r"
| "json_num v = None"

fun zod_number_array :: "json \<Rightarrow> string \<Rightarrow> tool_error + rat list" where
  "zod_number_array (JObj kvs) k =
     (case map_of (rev kvs) k of
        Some (JArr xs) \<Rightarrow>
          (if list_all (\<lambda>x. json_num x \<noteq> None) xs then Inr (map (the \<circ> json_num) xs)
           else Inl (ToolInputParsingException (''Expected number at '' @ k)))
      | Some v \<Rightarrow> Inl (ToolInputParsingException (''Expected array at '' @ k))
      | None \<Rightarrow> Inl (ToolInputParsingException (''Required at '' @ k)))"
| "zod_number_array v k = Inl (ToolInputParsingException ''Expected object'')"

text \<open>A binary numeric tool with schema \<open>{a: number, b: number}\<close>.\<close>

definition binop_tool :: "string \<Rightarrow> (rat \<Rightarrow> rat \<Rightarrow> jsnum) \<Rightarrow> tool" where
  "binop_tool nm f =
     \<lparr>tool_name = nm,
      tool_fn = (\<lambda>args. case zod_number args ''a'' of
                   Inl e \<Rightarrow> Inl e
                 | Inr a \<Rightarrow> (case zod_number args ''b'' of
                              Inl e \<Rightarrow> Inl e
                            | Inr b \<Rightarrow> Inr (ONum (f a b))))\<rparr>"

definition num_args :: "rat \<Rightarrow> rat \<Rightarrow> json" where
  "num_args a b = JObj [(''a'', JNum a), (''b'', JNum b)]"

lemma is_ai_msg_type: "is_ai m \<longleftrightarrow> msg_type m = ''ai''"
  by (cases m) simp_all

lemma add_messages_prefix: "prefix left (add_messages left right)"
  by (simp add: add_messages_def)

lemma add_messages_assoc:
  "add_messages (add_messages a b) c = add_messages a (b @ c)"
  by (simp add: add_messages_def)

lemma tool_invoke_id:
  "tool_invoke t c = Inr m \<Longrightarrow> \<exists>out. m = ToolMessage out (tc_id c)"
  by (auto simp: tool_invoke_def split: sum.splits)

lemma binop_tool_num_args [simp]:
  "tool_fn (binop_tool nm f) (num_args a b) = Inr (ONum (f a b))"
  by (simp add: binop_tool_def num_args_def)

lemma tool_name_binop_tool [simp]: "tool_name (binop_tool nm f) = nm"
  by (simp add: binop_tool_def)

end
