(* ===== verification/Graph_Engine.thy ===== *)
theory Graph_Engine
  imports Prelude
begin

text \<open>
  The graph executor of \<open>@langchain/langgraph\<close> (\<open>StateGraph\<close>, \<open>addNode\<close>,
  \<open>addEdge\<close>, \<open>addConditionalEdges\<close>, \<open>compile\<close>, \<open>invoke\<close>), which every
  graph example of the repository builds on. The library is not part of the repository,
  so this theory models it from the spec (sections 3, 4.1, 4.4 and 7): a graph over a
  state type \<open>'s\<close> and an update type \<open>'u\<close>, merged by the state's reducer; named
  nodes that map a state to an update or throw; per source node one static edge or one
  conditional edge (a router and a label map); a compile-time validation; and a walk
  that runs one node per step, bounded by the recursion limit.
\<close>

abbreviation START :: node_name where "START \<equiv> ''__start__''"
abbreviation END :: node_name where "END \<equiv> ''__end__''"

datatype 's edge =
    Static node_name
  | Conditional "'s \<Rightarrow> label" "(label \<times> node_name) list"

datatype graph_error =
    ConfigurationError string
  | ExecutionError node_name string
  | InvalidRoute node_name label
  | StepLimitExceeded nat

record ('s, 'u) state_graph =
  sg_reduce :: "'s \<Rightarrow> 'u \<Rightarrow> 's"
  sg_nodes :: "(node_name \<times> ('s \<Rightarrow> string + 'u)) list"
  sg_edges :: "(node_name \<times> 's edge) list"

subsection \<open>Building a graph\<close>

definition new_graph :: "('s \<Rightarrow> 'u \<Rightarrow> 's) \<Rightarrow> ('s, 'u) state_graph" where
  "new_graph r = \<lparr>sg_reduce = r, sg_nodes = [], sg_edges = []\<rparr>"

definition node_names :: "('s, 'u) state_graph \<Rightarrow> node_name list" where
  "node_names g = map fst (sg_nodes g)"

definition add_node ::
  "node_name \<Rightarrow> ('s \<Rightarrow> string + 'u) \<Rightarrow> ('s, 'u) state_graph \<Rightarrow> graph_error + ('s, 'u) state_graph" where
  "add_node n f g =
     (if n = START \<or> n = END then Inl (ConfigurationError (''Node `'' @ n @ ''` is reserved.''))
      else if n \<in> set (node_names g) then Inl (ConfigurationError (''Node `'' @ n @ ''` already present.''))
      else Inr (g\<lparr>sg_nodes := sg_nodes g @ [(n, f)]\<rparr>))"

definition add_edge ::
  "node_name \<Rightarrow> node_name \<Rightarrow> ('s, 'u) state_graph \<Rightarrow> graph_error + ('s, 'u) state_graph" where
  "add_edge src dst g =
     (if src = END then Inl (ConfigurationError ''END cannot be a start node'')
      else if dst = START then Inl (ConfigurationError ''START cannot be an end node'')
      else Inr (g\<lparr>sg_edges := sg_edges g @ [(src, Static dst)]\<rparr>))"

definition add_conditional_edges ::
  "node_name \<Rightarrow> ('s \<Rightarrow> label) \<Rightarrow> (label \<times> node_name) list \<Rightarrow> ('s, 'u) state_graph
     \<Rightarrow> graph_error + ('s, 'u) state_graph" where
  "add_conditional_edges src r pm g =
     (if src = END then Inl (ConfigurationError ''END cannot be a start node'')
      else Inr (g\<lparr>sg_edges := sg_edges g @ [(src, Conditional r pm)]\<rparr>))"

text \<open>A path map given as an array of destinations maps each destination to itself.\<close>

definition path_list :: "node_name list \<Rightarrow> (label \<times> node_name) list" where
  "path_list ds = map (\<lambda>d. (d, d)) ds"

fun edge_targets :: "'s edge \<Rightarrow> node_name list" where
  "edge_targets (Static t) = [t]"
| "edge_targets (Conditional r pm) = map snd pm"

text \<open>The validation of \<open>compile()\<close>, one check per configuration error.\<close>

definition wf_graph :: "('s, 'u) state_graph \<Rightarrow> bool" where
  "wf_graph g \<longleftrightarrow>
     map_of (sg_edges g) START \<noteq> None
   \<and> (\<forall>(src, e) \<in> set (sg_edges g). src = START \<or> src \<in> set (node_names g))
   \<and> (\<forall>(src, e) \<in> set (sg_edges g). \<forall>t \<in> set (edge_targets e). t = END \<or> t \<in> set (node_names g))
   \<and> (\<forall>(src, e) \<in> set (sg_edges g). edge_targets e \<noteq> [])
   \<and> distinct (map fst (sg_edges g))
   \<and> (\<forall>n \<in> set (node_names g). map_of (sg_edges g) n \<noteq> None)"

definition compile :: "('s, 'u) state_graph \<Rightarrow> graph_error + ('s, 'u) state_graph" where
  "compile g =
     (if map_of (sg_edges g) START = None
      then Inl (ConfigurationError ''Graph must have an entrypoint'')
      else if \<not> (\<forall>(src, e) \<in> set (sg_edges g). src = START \<or> src \<in> set (node_names g))
      then Inl (ConfigurationError ''Found edge starting at unknown node'')
      else if \<not> (\<forall>(src, e) \<in> set (sg_edges g). \<forall>t \<in> set (edge_targets e). t = END \<or> t \<in> set (node_names g))
      then Inl (ConfigurationError ''Found edge ending at unknown node'')
      else if \<not> (\<forall>(src, e) \<in> set (sg_edges g). edge_targets e \<noteq> [])
      then Inl (ConfigurationError ''Conditional edge with an empty path map'')
      else if \<not> distinct (map fst (sg_edges g))
      then Inl (ConfigurationError ''Node with more than one outgoing edge'')
      else if \<not> (\<forall>n \<in> set (node_names g). map_of (sg_edges g) n \<noteq> None)
      then Inl (ConfigurationError ''Node without an outgoing edge'')
      else Inr g)"

subsection \<open>Running a graph\<close>

text \<open>
  Resolving the next node after \<open>n\<close> from the merged state: the static edge, or the
  router's label looked up in the path map (a JavaScript object: the last entry for a
  label wins); an unmapped label is an error.
\<close>

definition route :: "('s, 'u) state_graph \<Rightarrow> node_name \<Rightarrow> 's \<Rightarrow> graph_error + node_name" where
  "route g n s =
     (case map_of (sg_edges g) n of
        None \<Rightarrow> Inl (ConfigurationError (''No outgoing edge from '' @ n))
      | Some (Static t) \<Rightarrow> Inr t
      | Some (Conditional r pm) \<Rightarrow>
          (case map_of (rev pm) (r s) of
             None \<Rightarrow> Inl (InvalidRoute n (r s))
           | Some t \<Rightarrow> Inr t))"

datatype 's walk_result = Done 's "node_name list" | Failed graph_error "node_name list"

text \<open>
  One step per node: run it, merge its update, resolve the next node. The trace lists the
  nodes that completed; the fuel is what is left of the recursion limit.
\<close>

fun walk :: "('s, 'u) state_graph \<Rightarrow> nat \<Rightarrow> node_name \<Rightarrow> 's \<Rightarrow> node_name list \<Rightarrow> 's walk_result" where
  "walk g 0 n s tr = Failed (StepLimitExceeded (length tr)) tr"
| "walk g (Suc k) n s tr =
     (case map_of (sg_nodes g) n of
        None \<Rightarrow> Failed (ConfigurationError (''Unknown node '' @ n)) tr
      | Some f \<Rightarrow>
          (case f s of
             Inl msg \<Rightarrow> Failed (ExecutionError n msg) tr
           | Inr u \<Rightarrow>
               (let s' = sg_reduce g s u in
                case route g n s' of
                  Inl e \<Rightarrow> Failed e (tr @ [n])
                | Inr t \<Rightarrow> if t = END then Done s' (tr @ [n]) else walk g k t s' (tr @ [n]))))"

definition invoke :: "('s, 'u) state_graph \<Rightarrow> nat \<Rightarrow> 's \<Rightarrow> 's walk_result" where
  "invoke g limit s0 =
     (case route g START s0 of
        Inl e \<Rightarrow> Failed e []
      | Inr t \<Rightarrow> if t = END then Done s0 [] else walk g limit t s0 [])"

text \<open>\<open>recursionLimit\<close> when \<open>invoke\<close> is given no configuration.\<close>

definition default_recursion_limit :: nat where
  "default_recursion_limit = 25"

fun trace_of :: "'s walk_result \<Rightarrow> node_name list" where
  "trace_of (Done s tr) = tr"
| "trace_of (Failed e tr) = tr"

subsection \<open>The walk as a step relation\<close>

text \<open>
  The relational reading of one executor step, against which \<open>walk\<close> is checked: a
  configuration is a pending node with the state, or the halted state.
\<close>

datatype 's config = Run node_name 's | Halt 's

inductive graph_step :: "('s, 'u) state_graph \<Rightarrow> 's config \<Rightarrow> 's config \<Rightarrow> bool" for g where
  step_node: "map_of (sg_nodes g) n = Some f \<Longrightarrow> f s = Inr u \<Longrightarrow>
     route g n (sg_reduce g s u) = Inr t \<Longrightarrow> t \<noteq> END \<Longrightarrow>
     graph_step g (Run n s) (Run t (sg_reduce g s u))"
| step_end: "map_of (sg_nodes g) n = Some f \<Longrightarrow> f s = Inr u \<Longrightarrow>
     route g n (sg_reduce g s u) = Inr END \<Longrightarrow>
     graph_step g (Run n s) (Halt (sg_reduce g s u))"

inductive graph_steps :: "('s, 'u) state_graph \<Rightarrow> nat \<Rightarrow> 's config \<Rightarrow> 's config \<Rightarrow> bool" for g where
  steps_refl: "graph_steps g 0 c c"
| steps_step: "graph_step g c c' \<Longrightarrow> graph_steps g k c' c'' \<Longrightarrow> graph_steps g (Suc k) c c''"

subsection \<open>Test graphs of the spec's scenarios\<close>

text \<open>
  Two graphs over a counter state merged by addition, used to exercise the executor:
  \<open>spin_graph\<close> has the deliberately cyclic route of spec section 8 (its only node
  routes back to itself); \<open>count_graph\<close> loops through a conditional edge until the
  counter reaches 3.
\<close>

definition spin_graph :: "(nat, nat) state_graph" where
  "spin_graph =
     \<lparr>sg_reduce = (+), sg_nodes = [(''spin'', \<lambda>s. Inr 1)],
      sg_edges = [(START, Static ''spin''), (''spin'', Static ''spin'')]\<rparr>"

definition count_graph :: "(nat, nat) state_graph" where
  "count_graph =
     \<lparr>sg_reduce = (+), sg_nodes = [(''tick'', \<lambda>s. Inr 1)],
      sg_edges = [(START, Static ''tick''),
                  (''tick'', Conditional (\<lambda>s. if s < 3 then ''again'' else ''done'')
                               [(''again'', ''tick''), (''done'', END)])]\<rparr>"


declare invoke_def [walk_simps] default_recursion_limit_def [walk_simps]

inductive_cases graph_step_RunE: "graph_step g (Run n s) c"
inductive_cases graph_step_HaltE: "graph_step g (Halt s) c"
inductive_cases graph_steps_SucE: "graph_steps g (Suc k) c c''"
inductive_cases graph_steps_ZeroE: "graph_steps g 0 c c''"

lemma graph_step_Run_iff:
  "graph_step g (Run n s) c' \<longleftrightarrow>
     (\<exists>f u t. map_of (sg_nodes g) n = Some f \<and> f s = Inr u \<and> route g n (sg_reduce g s u) = Inr t \<and>
        c' = (if t = END then Halt (sg_reduce g s u) else Run t (sg_reduce g s u)))"
  by (auto elim!: graph_step_RunE intro: graph_step.intros)

lemma graph_steps_snoc:
  "graph_steps g k c c' \<Longrightarrow> graph_step g c' c'' \<Longrightarrow> graph_steps g (Suc k) c c''"
  by (induction rule: graph_steps.induct) (auto intro: graph_steps.intros)

lemma graph_step_det: "graph_step g c c1 \<Longrightarrow> graph_step g c c2 \<Longrightarrow> c1 = c2"
  by (auto elim!: graph_step.cases)

lemma graph_steps_Halt: "graph_steps g k (Halt s) c \<Longrightarrow> k = 0 \<and> c = Halt s"
  by (cases rule: graph_steps.cases) (auto elim: graph_step_HaltE)

lemma walk_Suc_step:
  assumes "map_of (sg_nodes g) n = Some f" "f s = Inr u"
    "route g n (sg_reduce g s u) = Inr t"
  shows "walk g (Suc k) n s tr =
    (if t = END then Done (sg_reduce g s u) (tr @ [n]) else walk g k t (sg_reduce g s u) (tr @ [n]))"
  using assms by simp

lemma walk_trace_prefix: "\<exists>ns. trace_of (walk g k n s tr) = tr @ ns \<and> length ns \<le> k"
proof (induction g k n s tr rule: walk.induct)
  case (1 g n s tr)
  then show ?case by simp
next
  case (2 g k n s tr)
  then show ?case
    by (fastforce simp: Let_def split: option.splits sum.splits)
qed

text \<open>Soundness of the executor: a walk that returns is a run of the step relation.\<close>

lemma walk_Done_steps:
  "walk g k n s tr = Done s' tr' \<Longrightarrow>
     \<exists>m. tr' = tr @ m \<and> graph_steps g (length m) (Run n s) (Halt s')"
proof (induction g k n s tr rule: walk.induct)
  case (1 g n s tr)
  then show ?case by simp
next
  case (2 g k n s tr)
  from "2.prems" obtain f u t where f: "map_of (sg_nodes g) n = Some f" and u: "f s = Inr u"
    and t: "route g n (sg_reduce g s u) = Inr t"
    by (auto simp: Let_def split: option.splits sum.splits if_splits)
  show ?case
  proof (cases "t = END")
    case True
    with "2.prems" f u t have "s' = sg_reduce g s u" "tr' = tr @ [n]" by simp_all
    with True f u t show ?thesis
      by (auto intro!: steps_step [OF step_end] steps_refl)
  next
    case False
    with "2.prems" f u t have w: "walk g k t (sg_reduce g s u) (tr @ [n]) = Done s' tr'" by simp
    from "2.IH" [OF f u _ t] False w obtain m where
      "tr' = (tr @ [n]) @ m" "graph_steps g (length m) (Run t (sg_reduce g s u)) (Halt s')"
      by (auto simp: Let_def)
    with False f u t show ?thesis
      by (intro exI [of _ "n # m"]) (auto intro: steps_step [OF step_node])
  qed
qed

text \<open>Completeness: every run of the step relation that fits in the limit is found by the walk.\<close>

lemma steps_walk_Done:
  "graph_steps g m (Run n s) (Halt s') \<Longrightarrow> m \<le> k \<Longrightarrow>
     \<exists>ns. walk g k n s tr = Done s' (tr @ ns) \<and> length ns = m"
proof (induction m arbitrary: n s k tr)
  case 0
  then show ?case by (auto elim: graph_steps_ZeroE)
next
  case (Suc m)
  from Suc.prems(1) obtain c' where st: "graph_step g (Run n s) c'"
    and rest: "graph_steps g m c' (Halt s')"
    by (auto elim: graph_steps_SucE)
  from Suc.prems(2) obtain k' where k: "k = Suc k'" and mk: "m \<le> k'"
    by (cases k) auto
  from st obtain f u t where f: "map_of (sg_nodes g) n = Some f" and u: "f s = Inr u"
    and t: "route g n (sg_reduce g s u) = Inr t"
    and c': "c' = (if t = END then Halt (sg_reduce g s u) else Run t (sg_reduce g s u))"
    by (auto elim!: graph_step_RunE)
  show ?case
  proof (cases "t = END")
    case False
    from Suc.IH [OF rest [unfolded c' if_not_P [OF False]] mk] obtain ns where
      "walk g k' t (sg_reduce g s u) (tr @ [n]) = Done s' ((tr @ [n]) @ ns)" "length ns = m"
      by blast
    with False f u t k show ?thesis by (intro exI [of _ "n # ns"]) simp
  next
    case True
    with rest c' have "m = 0 \<and> Halt s' = Halt (sg_reduce g s u)"
      using graph_steps_Halt by fastforce
    with True f u t k show ?thesis by (intro exI [of _ "[n]"]) simp
  qed
qed

text \<open>More fuel never changes a result that was reached.\<close>

lemma walk_Done_mono:
  "walk g k n s tr = Done s' tr' \<Longrightarrow> k \<le> k' \<Longrightarrow> walk g k' n s tr = Done s' tr'"
proof (induction g k n s tr arbitrary: k' rule: walk.induct)
  case (1 g n s tr)
  then show ?case by simp
next
  case (2 g k n s tr)
  from "2.prems"(2) obtain k'' where k': "k' = Suc k''" and kk: "k \<le> k''"
    by (cases k') auto
  from "2.prems"(1) obtain f u t where f: "map_of (sg_nodes g) n = Some f" and u: "f s = Inr u"
    and t: "route g n (sg_reduce g s u) = Inr t"
    by (auto simp: Let_def split: option.splits sum.splits if_splits)
  show ?case
  proof (cases "t = END")
    case True
    with "2.prems"(1) f u t k' show ?thesis by simp
  next
    case False
    with "2.prems"(1) f u t have "walk g k t (sg_reduce g s u) (tr @ [n]) = Done s' tr'" by simp
    with "2.IH" [OF f u refl t False _ kk] False f u t k' show ?thesis by simp
  qed
qed

lemma route_Inl:
  "route g n s = Inl e \<Longrightarrow> (\<exists>m. e = ConfigurationError m) \<or> e = InvalidRoute n (case map_of (sg_edges g) n of Some (Conditional r pm) \<Rightarrow> r s | _ \<Rightarrow> [])"
  by (auto simp: route_def split: option.splits edge.splits)

lemma walk_StepLimit:
  "walk g k n s tr = Failed (StepLimitExceeded c) tr' \<Longrightarrow> length tr' = length tr + k \<and> c = length tr'"
proof (induction g k n s tr rule: walk.induct)
  case (1 g n s tr)
  then show ?case by auto
next
  case (2 g k n s tr)
  then show ?case
    by (auto simp: Let_def split: option.splits sum.splits if_splits dest: route_Inl)
qed

lemma walk_invariant:
  assumes "walk g k n s tr = Done s' tr'" "P s"
    and step: "\<And>n f s u. P s \<Longrightarrow> map_of (sg_nodes g) n = Some f \<Longrightarrow> f s = Inr u \<Longrightarrow> P (sg_reduce g s u)"
  shows "P s'"
  using assms(1,2)
proof (induction k arbitrary: n s tr)
  case 0
  then show ?case by simp
next
  case (Suc k)
  from Suc.prems(1) obtain f u t where f: "map_of (sg_nodes g) n = Some f" and u: "f s = Inr u"
    and t: "route g n (sg_reduce g s u) = Inr t"
    by (auto simp: Let_def split: option.splits sum.splits if_splits)
  have P': "P (sg_reduce g s u)" by (rule step [OF Suc.prems(2) f u])
  show ?case
  proof (cases "t = END")
    case True
    with Suc.prems(1) f u t P' show ?thesis by simp
  next
    case False
    with Suc.prems(1) f u t have "walk g k t (sg_reduce g s u) (tr @ [n]) = Done s' tr'" by simp
    from Suc.IH [OF this P'] show ?thesis .
  qed
qed

lemma compile_Inr_iff: "compile g = Inr g' \<longleftrightarrow> wf_graph g \<and> g' = g"
  by (auto simp: compile_def wf_graph_def)

lemma compile_not_wf: "\<not> wf_graph g \<Longrightarrow> \<exists>msg. compile g = Inl (ConfigurationError msg)"
  by (auto simp: compile_def wf_graph_def)

lemma route_target_in_edge:
  "route g n s = Inr t \<Longrightarrow> \<exists>e. (n, e) \<in> set (sg_edges g) \<and> t \<in> set (edge_targets e)"
proof (cases "map_of (sg_edges g) n")
  case None
  then show "route g n s = Inr t \<Longrightarrow> ?thesis" by (simp add: route_def)
next
  case (Some e)
  then have mem: "(n, e) \<in> set (sg_edges g)" by (rule map_of_SomeD)
  assume r: "route g n s = Inr t"
  show ?thesis
  proof (cases e)
    case (Static t')
    with Some r mem show ?thesis by (auto simp: route_def)
  next
    case (Conditional rt pm)
    with Some r obtain l where "map_of (rev pm) l = Some t" by (auto simp: route_def split: option.splits)
    then have "(l, t) \<in> set pm" by (auto dest: map_of_SomeD)
    with Conditional mem show ?thesis by (intro exI [of _ e]) force
  qed
qed

lemma wf_route_target:
  "wf_graph g \<Longrightarrow> route g n s = Inr t \<Longrightarrow> t = END \<or> t \<in> set (node_names g)"
  by (drule route_target_in_edge) (auto simp: wf_graph_def)

lemma wf_route_defined:
  "wf_graph g \<Longrightarrow> n \<in> set (node_names g) \<Longrightarrow> route g n s \<noteq> Inl (ConfigurationError m)"
  by (auto simp: wf_graph_def route_def split: option.splits edge.splits)

lemma wf_node_defined:
  "n \<in> set (node_names g) \<Longrightarrow> map_of (sg_nodes g) n \<noteq> None"
  by (simp add: node_names_def map_of_eq_None_iff)

lemma walk_wf_no_config_error:
  assumes wf: "wf_graph g"
  shows "n \<in> set (node_names g) \<Longrightarrow> walk g k n s tr \<noteq> Failed (ConfigurationError m) tr'"
proof (induction k arbitrary: n s tr)
  case 0
  then show ?case by simp
next
  case (Suc k)
  from Suc.prems obtain f where f: "map_of (sg_nodes g) n = Some f"
    using wf_node_defined by blast
  show ?case
  proof (cases "f s")
    case (Inl msg)
    with f show ?thesis by simp
  next
    case (Inr u)
    show ?thesis
    proof (cases "route g n (sg_reduce g s u)")
      case (Inl e)
      with wf Suc.prems wf_route_defined [of g n "sg_reduce g s u" m] f \<open>f s = Inr u\<close>
      show ?thesis by auto
    next
      case (Inr t)
      with wf have "t = END \<or> t \<in> set (node_names g)" by (rule wf_route_target)
      with Suc.IH [of t] f \<open>f s = Inr u\<close> Inr show ?thesis
        by (auto simp: Let_def)
    qed
  qed
qed



subsection \<open>Properties of the executor\<close>

text \<open>
  Observation by a projection: a graph \<open>g'\<close> over a richer state (the state of \<open>g\<close>
  and something the program only writes, such as its console output) whose nodes,
  reducer and routes commute with a projection \<open>\<pi>\<close> walks exactly like \<open>g\<close> on the
  projected state.
\<close>

text \<open>An invariant of the states that every successful node step preserves holds at the end of every finished walk.\<close>

lemma walk_inv:
  assumes inv: "\<And>n f s u. I s \<Longrightarrow> map_of (sg_nodes g) n = Some f \<Longrightarrow> f s = Inr u \<Longrightarrow> I (sg_reduce g s u)"
  shows "I s \<Longrightarrow> walk g k n s tr = Done s' tr' \<Longrightarrow> I s'"
proof (induction k arbitrary: n s tr)
  case 0
  then show ?case by simp
next
  case (Suc k)
  show ?case
  proof (cases "map_of (sg_nodes g) n")
    case (Some f)
    with Suc.prems obtain u where fu: "f s = Inr u"
      by (cases "f s") auto
    have i: "I (sg_reduce g s u)" by (rule inv [OF Suc.prems(1) Some fu])
    from Suc.prems(2) Some fu i Suc.IH show ?thesis
      by (auto simp: Let_def split: sum.splits if_splits)
  qed (use Suc.prems in simp)
qed

lemma invoke_inv:
  assumes "\<And>n f s u. I s \<Longrightarrow> map_of (sg_nodes g) n = Some f \<Longrightarrow> f s = Inr u \<Longrightarrow> I (sg_reduce g s u)"
    and "I s" "invoke g k s = Done s' tr"
  shows "I s'"
proof (cases "route g START s")
  case (Inl e)
  with assms(3) show ?thesis by (simp add: invoke_def)
next
  case (Inr t)
  show ?thesis
  proof (cases "t = END")
    case True
    with assms(2,3) Inr show ?thesis by (simp add: invoke_def)
  next
    case False
    with assms(3) Inr have "walk g k t s [] = Done s' tr" by (simp add: invoke_def)
    from walk_inv [where I = I, OF assms(1) assms(2) this] show ?thesis .
  qed
qed

text \<open>
  Projection of whole walks along an invariant \<open>I\<close> of the detailed states: nodes and
  routers that agree under the observer \<open>\<pi>\<close> on states satisfying \<open>I\<close>, with
  successful node steps preserving \<open>I\<close>, give walks that agree under \<open>\<pi>\<close>.
\<close>

lemma walk_project_inv:
  assumes nodes: "\<And>n. map_of (sg_nodes g') n = None \<longleftrightarrow> map_of (sg_nodes g) n = None"
    and fns: "\<And>n f' f s. I s \<Longrightarrow> map_of (sg_nodes g') n = Some f' \<Longrightarrow> map_of (sg_nodes g) n = Some f \<Longrightarrow>
                map_sum id \<rho> (f' s) = f (\<pi> s)"
    and inv: "\<And>n f' s u. I s \<Longrightarrow> map_of (sg_nodes g') n = Some f' \<Longrightarrow> f' s = Inr u \<Longrightarrow> I (sg_reduce g' s u)"
    and red: "\<And>s u. \<pi> (sg_reduce g' s u) = sg_reduce g (\<pi> s) (\<rho> u)"
    and rt: "\<And>n s. route g' n s = route g n (\<pi> s)"
  shows "I s \<Longrightarrow> map_walk_result \<pi> (walk g' k n s tr) = walk g k n (\<pi> s) tr"
proof (induction k arbitrary: n s tr)
  case 0
  then show ?case by simp
next
  case (Suc k)
  show ?case
  proof (cases "map_of (sg_nodes g') n")
    case None
    with nodes [of n] show ?thesis by simp
  next
    case (Some f')
    with nodes [of n] obtain f where f: "map_of (sg_nodes g) n = Some f" by auto
    show ?thesis
    proof (cases "f' s")
      case (Inl msg)
      with fns [OF Suc.prems Some f] have "f (\<pi> s) = Inl msg" by simp
      with Some f Inl show ?thesis by simp
    next
      case (Inr u)
      with fns [OF Suc.prems Some f] have fu: "f (\<pi> s) = Inr (\<rho> u)" by simp
      have "I (sg_reduce g' s u)" by (rule inv [OF Suc.prems Some Inr])
      then show ?thesis
        using Some f Inr fu Suc.IH rt [of n "sg_reduce g' s u"] red [of s u]
        by (simp add: Let_def split: sum.split)
    qed
  qed
qed

lemma walk_project:
  assumes nodes: "\<And>n. map_of (sg_nodes g') n = None \<longleftrightarrow> map_of (sg_nodes g) n = None"
    and fns: "\<And>n f' f s. map_of (sg_nodes g') n = Some f' \<Longrightarrow> map_of (sg_nodes g) n = Some f \<Longrightarrow>
                map_sum id \<rho> (f' s) = f (\<pi> s)"
    and red: "\<And>s u. \<pi> (sg_reduce g' s u) = sg_reduce g (\<pi> s) (\<rho> u)"
    and rt: "\<And>n s. route g' n s = route g n (\<pi> s)"
  shows "map_walk_result \<pi> (walk g' k n s tr) = walk g k n (\<pi> s) tr"
  by (rule walk_project_inv [where I = "\<lambda>_. True" and \<rho> = \<rho>]) (use assms in auto)

lemma invoke_project_inv:
  assumes "\<And>n. map_of (sg_nodes g') n = None \<longleftrightarrow> map_of (sg_nodes g) n = None"
    and "\<And>n f' f s. I s \<Longrightarrow> map_of (sg_nodes g') n = Some f' \<Longrightarrow> map_of (sg_nodes g) n = Some f \<Longrightarrow>
                map_sum id \<rho> (f' s) = f (\<pi> s)"
    and "\<And>n f' s u. I s \<Longrightarrow> map_of (sg_nodes g') n = Some f' \<Longrightarrow> f' s = Inr u \<Longrightarrow> I (sg_reduce g' s u)"
    and "\<And>s u. \<pi> (sg_reduce g' s u) = sg_reduce g (\<pi> s) (\<rho> u)"
    and rt: "\<And>n s. route g' n s = route g n (\<pi> s)"
    and "I s"
  shows "map_walk_result \<pi> (invoke g' k s) = invoke g k (\<pi> s)"
proof -
  have "map_walk_result \<pi> (walk g' k n s tr) = walk g k n (\<pi> s) tr" for n tr
    by (rule walk_project_inv [where I = I and \<rho> = \<rho>]) (use assms in auto)
  with rt [of START s] show ?thesis by (simp add: invoke_def split: sum.split)
qed

lemma invoke_project:
  assumes "\<And>n. map_of (sg_nodes g') n = None \<longleftrightarrow> map_of (sg_nodes g) n = None"
    and "\<And>n f' f s. map_of (sg_nodes g') n = Some f' \<Longrightarrow> map_of (sg_nodes g) n = Some f \<Longrightarrow>
                map_sum id \<rho> (f' s) = f (\<pi> s)"
    and "\<And>s u. \<pi> (sg_reduce g' s u) = sg_reduce g (\<pi> s) (\<rho> u)"
    and rt: "\<And>n s. route g' n s = route g n (\<pi> s)"
  shows "map_walk_result \<pi> (invoke g' k s) = invoke g k (\<pi> s)"
  by (rule invoke_project_inv [where I = "\<lambda>_. True" and \<rho> = \<rho>]) (use assms in auto)

text \<open>
  The executable walk refines the step relation (spec 4.1): a walk with fuel \<open>k\<close>
  from node \<open>n\<close> returns the state \<open>s'\<close> exactly when the step relation reaches the
  halted state \<open>s'\<close> in at most \<open>k\<close> steps.
\<close>

theorem walk_refines_steps:
  "(\<exists>tr'. walk g k n s [] = Done s' tr') \<longleftrightarrow> (\<exists>m \<le> k. graph_steps g m (Run n s) (Halt s'))"
proof
  assume "\<exists>tr'. walk g k n s [] = Done s' tr'"
  then obtain tr' where w: "walk g k n s [] = Done s' tr'" by blast
  from walk_Done_steps [OF w] obtain m where m: "tr' = [] @ m" "graph_steps g (length m) (Run n s) (Halt s')"
    by blast
  from walk_trace_prefix [of g k n s "[]"] w m(1) have "length m \<le> k" by auto
  with m(2) show "\<exists>m \<le> k. graph_steps g m (Run n s) (Halt s')" by blast
next
  assume "\<exists>m \<le> k. graph_steps g m (Run n s) (Halt s')"
  then obtain m where "m \<le> k" "graph_steps g m (Run n s) (Halt s')" by blast
  from steps_walk_Done [OF this(2) this(1), of "[]"] show "\<exists>tr'. walk g k n s [] = Done s' tr'"
    by blast
qed

theorem walk_refines_steps_witness:
  "(\<exists>tr'. walk count_graph 5 ''tick'' 0 [] = Done 3 tr') \<longleftrightarrow>
     (\<exists>m \<le> 5. graph_steps count_graph m (Run ''tick'' 0) (Halt 3))"
  by (rule walk_refines_steps)

text \<open>
  A graph that compiles never fails with a configuration error at run time (spec 4.1
  and 7): every node it reaches is registered and has an outgoing edge, so the only
  failures left are a node's own error, an unmapped routing label and the step limit.
\<close>

theorem invoke_wf_no_config_error:
  assumes "compile g = Inr g'"
  shows "invoke g' k s \<noteq> Failed (ConfigurationError m) tr"
proof -
  from assms have wf: "wf_graph g'" and g: "g' = g" by (simp_all add: compile_Inr_iff)
  from wf obtain e where e: "map_of (sg_edges g') START = Some e" by (auto simp: wf_graph_def)
  show ?thesis
  proof (cases "route g' START s")
    case (Inl err)
    with e show ?thesis by (auto simp: invoke_def route_def split: edge.splits option.splits)
  next
    case (Inr t)
    with wf have "t = END \<or> t \<in> set (node_names g')" by (rule wf_route_target)
    with Inr walk_wf_no_config_error [OF wf, of t k s "[]" m tr] show ?thesis
      by (auto simp: invoke_def)
  qed
qed

theorem invoke_wf_no_config_error_witness:
  "compile count_graph = Inr count_graph \<and> invoke count_graph 5 0 \<noteq> Failed (ConfigurationError ''x'') []"
proof -
  have c: "compile count_graph = Inr count_graph"
    by (simp add: compile_def count_graph_def node_names_def)
  from c invoke_wf_no_config_error [OF c] show ?thesis by blast
qed

text \<open>
  Compile rejects a dangling edge (spec section 8, first property): a static or
  conditional edge whose destination is neither a registered node nor END makes
  \<open>compile\<close> fail with a configuration error, before anything is invoked.
\<close>

theorem compile_rejects_dangling:
  assumes "(src, e) \<in> set (sg_edges g)" "t \<in> set (edge_targets e)"
    and "t \<noteq> END" "t \<notin> set (node_names g)"
  shows "\<exists>msg. compile g = Inl (ConfigurationError msg)"
proof (rule compile_not_wf)
  show "\<not> wf_graph g"
  proof
    assume "wf_graph g"
    with assms(1) have "\<forall>t' \<in> set (edge_targets e). t' = END \<or> t' \<in> set (node_names g)"
      unfolding wf_graph_def by fast
    with assms(2-4) show False by blast
  qed
qed

theorem compile_rejects_dangling_witness:
  "\<exists>msg. compile (count_graph\<lparr>sg_edges := sg_edges count_graph @ [(''tock'', Static ''nowhere'')]\<rparr>)
     = Inl (ConfigurationError msg)"
  by (rule compile_rejects_dangling [where src = "''tock''" and e = "Static ''nowhere''" and t = "''nowhere''"])
     (simp_all add: count_graph_def node_names_def)

text \<open>
  The step limit is exact (spec 4.1 and section 8): when \<open>invoke\<close> with limit
  \<open>k\<close> fails with \<open>StepLimitExceeded\<close>, exactly \<open>k\<close> nodes completed and the error
  reports \<open>k\<close>.
\<close>

theorem invoke_step_limit_exact:
  "invoke g k s = Failed (StepLimitExceeded c) tr \<Longrightarrow> length tr = k \<and> c = k"
  by (auto simp: invoke_def split: sum.splits if_splits dest: route_Inl walk_StepLimit)

theorem invoke_step_limit_exact_witness:
  "invoke spin_graph 3 0 = Failed (StepLimitExceeded 3) [''spin'', ''spin'', ''spin''] \<and>
   length [''spin'', ''spin'', ''spin''] = (3::nat)"
proof -
  have run: "invoke spin_graph 3 0 = Failed (StepLimitExceeded 3) [''spin'', ''spin'', ''spin'']"
    by (simp add: invoke_def route_def spin_graph_def numeral_eq_Suc)
  from invoke_step_limit_exact [OF run] run show ?thesis by simp
qed

end
