(* ===== verification/Tool_Agent.thy ===== *)
theory Tool_Agent
  imports Messages Graph_Engine
begin

text \<open>
  The tool-calling agent of \<open>src/graph.ts\<close> (the same graph, with console and Langfuse
  tracing, is the second half of \<open>src/unnamed/part_001\<close>): three arithmetic tools, a
  model node \<open>llmCall\<close>, a tool node \<open>toolNode\<close>, the router \<open>shouldContinue\<close>, and
  the \<open>StateGraph\<close> over \<open>MessagesAnnotation\<close> that wires them. The chat model is a
  parameter: a function from the messages sent to it to the content and tool calls of
  the ai message it answers with, or a thrown error.
\<close>

type_synonym agent_graph = "(message list, message list) state_graph"

subsection \<open>Tools (graph.ts lines 16--48)\<close>

definition add_tool :: tool where
  "add_tool = binop_tool ''add'' (\<lambda>a b. Fin (a + b))"

definition multiply_tool :: tool where
  "multiply_tool = binop_tool ''multiply'' (\<lambda>a b. Fin (a * b))"

definition divide_tool :: tool where
  "divide_tool = binop_tool ''divide'' js_div"

definition tools_by_name :: "(string \<times> tool) list" where
  "tools_by_name = map (\<lambda>t. (tool_name t, t)) [add_tool, multiply_tool, divide_tool]"

text \<open>\<open>const tool = toolsByName[toolCall.name]; await tool.invoke(toolCall)\<close>.\<close>

definition call_tool :: "tool_call \<Rightarrow> tool_error + message" where
  "call_tool c =
     (case map_of (rev tools_by_name) (tc_name c) of
        None \<Rightarrow> Inl (ToolNotFound (tc_name c))
      | Some t \<Rightarrow> tool_invoke t c)"

subsection \<open>Nodes and router (graph.ts lines 60--106)\<close>

definition arith_prompt :: string where
  "arith_prompt = ''You are a helpful assistant tasked with performing arithmetic on a set of inputs.''"

definition llmCall :: "chat_model \<Rightarrow> message list \<Rightarrow> string + message list" where
  "llmCall llm msgs =
     (case llm (SystemMessage arith_prompt # msgs) of
        Inl e \<Rightarrow> Inl e
      | Inr (c, calls) \<Rightarrow> Inr [AIMessage c calls])"

definition toolNode :: "message list \<Rightarrow> string + message list" where
  "toolNode msgs =
     (case last_opt msgs of
        None \<Rightarrow> Inr []
      | Some m \<Rightarrow>
          if msg_type m \<noteq> ''ai'' then Inr []
          else (case map_seq call_tool (tool_calls_of m) of
                  Inl e \<Rightarrow> Inl (tool_error_msg e)
                | Inr results \<Rightarrow> Inr results))"

definition shouldContinue :: "message list \<Rightarrow> label" where
  "shouldContinue msgs =
     (case last_opt msgs of
        None \<Rightarrow> END
      | Some m \<Rightarrow>
          if msg_type m \<noteq> ''ai'' then END
          else if tool_calls_of m \<noteq> [] then ''toolNode''
          else END)"

subsection \<open>The graph (graph.ts lines 110--122)\<close>

definition agent_builder :: "chat_model \<Rightarrow> graph_error + agent_graph" where
  "agent_builder llm =
     bind_sum (add_node ''llmCall'' (llmCall llm) (new_graph add_messages)) (\<lambda>g.
     bind_sum (add_node ''toolNode'' toolNode g) (\<lambda>g.
     bind_sum (add_edge START ''llmCall'' g) (\<lambda>g.
     bind_sum (add_conditional_edges ''llmCall'' shouldContinue (path_list [''toolNode'', END]) g) (\<lambda>g.
     bind_sum (add_edge ''toolNode'' ''llmCall'' g) compile))))"

text \<open>\<open>agent.invoke({messages: [new HumanMessage(q)]})\<close> with the default recursion limit.\<close>

definition run_agent :: "chat_model \<Rightarrow> string \<Rightarrow> message list walk_result" where
  "run_agent llm q =
     (case agent_builder llm of
        Inl e \<Rightarrow> Failed e []
      | Inr g \<Rightarrow> invoke g default_recursion_limit (add_messages [] [HumanMessage q]))"

subsection \<open>Rounds of the loop\<close>

text \<open>
  A round is one ai message with its tool calls followed by the tool messages answering
  them; \<open>calls_ok\<close> says every call names a tool and passes its schema.
\<close>

definition calls_ok :: "tool_call list \<Rightarrow> bool" where
  "calls_ok calls \<longleftrightarrow> (\<forall>c \<in> set calls. \<not> isl (call_tool c))"

definition tool_results :: "tool_call list \<Rightarrow> message list" where
  "tool_results calls = map (\<lambda>c. projr (call_tool c)) calls"

definition round_msgs :: "string \<times> tool_call list \<Rightarrow> message list" where
  "round_msgs r = AIMessage (fst r) (snd r) # tool_results (snd r)"

subsection \<open>Stub models of the spec's test scenarios\<close>

text \<open>
  A deterministic stub model (spec section 8): the \<open>n\<close>-th scripted reply answers a
  transcript that already holds \<open>n\<close> ai messages.
\<close>

definition scripted :: "(string \<times> tool_call list) list \<Rightarrow> chat_model" where
  "scripted rs msgs =
     (let n = length (filter is_ai msgs) in if n < length rs then Inr (rs ! n) else Inl ''no scripted reply'')"

definition add_3_4 :: tool_call where
  "add_3_4 = \<lparr>tc_name = ''add'', tc_args = num_args 3 4, tc_id = ''call_1''\<rparr>"

subsection \<open>The compiled graph\<close>

definition agent_graph :: "chat_model \<Rightarrow> agent_graph" where
  "agent_graph llm =
     \<lparr>sg_reduce = add_messages,
      sg_nodes = [(''llmCall'', llmCall llm), (''toolNode'', toolNode)],
      sg_edges = [(START, Static ''llmCall''),
                  (''llmCall'', Conditional shouldContinue (path_list [''toolNode'', END])),
                  (''toolNode'', Static ''llmCall'')]\<rparr>"

subsection \<open>The loop of spec section 4.2\<close>

text \<open>
  The agent's contract as the spec states it: a machine that alternates between asking
  the model and running the requested tools, and stops when the model answers without
  tool calls. Its tool step is the spec's, not the code's: every pending call of the last
  ai message is answered, in order, by one tool message tagged with the call's id;
  \<open>tool_answer\<close> says which answers the spec allows for a call to a tool of the table
  \<open>tools\<close>: the tool's result when the arguments validate, and otherwise a message
  carrying an error description (any text), so that a failed validation is recoverable.
  The spec does not say what answers a call naming no tool; the machine has no step
  for it. \<open>loop_abs\<close> reads a configuration of the compiled graph as a state of this
  machine, \<open>loop_conc\<close> is its inverse on the configurations the agent reaches, and
  \<open>agent_inv\<close> says which those are: the tool node is only pending after an ai
  message with calls.
\<close>

datatype loop_phase = ModelCall | ToolExec | Finished

inductive tool_answer :: "(string \<rightharpoonup> tool) \<Rightarrow> tool_call \<Rightarrow> message \<Rightarrow> bool" for tools where
  tool_runs: "tools (tc_name c) = Some t \<Longrightarrow> tool_fn t (tc_args c) = Inr out \<Longrightarrow>
     tool_answer tools c (ToolMessage out (tc_id c))"
| tool_rejects: "tools (tc_name c) = Some t \<Longrightarrow> tool_fn t (tc_args c) = Inl e \<Longrightarrow>
     tool_answer tools c (ToolMessage (OStr d) (tc_id c))"

inductive tool_loop :: "(string \<rightharpoonup> tool) \<Rightarrow> chat_model \<Rightarrow> loop_phase \<times> message list \<Rightarrow> loop_phase \<times> message list \<Rightarrow> bool"
  for tools llm where
  model_requests_tools: "llm (SystemMessage arith_prompt # msgs) = Inr (c, calls) \<Longrightarrow> calls \<noteq> [] \<Longrightarrow>
     tool_loop tools llm (ModelCall, msgs) (ToolExec, msgs @ [AIMessage c calls])"
| model_answers: "llm (SystemMessage arith_prompt # msgs) = Inr (c, []) \<Longrightarrow>
     tool_loop tools llm (ModelCall, msgs) (Finished, msgs @ [AIMessage c []])"
| tools_answer: "list_all2 (tool_answer tools) calls rs \<Longrightarrow>
     tool_loop tools llm (ToolExec, pre @ [AIMessage c calls]) (ModelCall, pre @ AIMessage c calls # rs)"

text \<open>The agent's table \<open>toolsByName\<close> as a map, and the calls it runs without a thrown error.\<close>

abbreviation tool_table :: "string \<rightharpoonup> tool" where
  "tool_table \<equiv> map_of (rev tools_by_name)"

definition call_valid :: "(string \<rightharpoonup> tool) \<Rightarrow> tool_call \<Rightarrow> bool" where
  "call_valid tools c \<longleftrightarrow> (case tools (tc_name c) of None \<Rightarrow> False | Some t \<Rightarrow> \<not> isl (tool_fn t (tc_args c)))"

text \<open>The calls of every ai message but the last of a transcript validate.\<close>

definition settled_calls_valid :: "(string \<rightharpoonup> tool) \<Rightarrow> message list \<Rightarrow> bool" where
  "settled_calls_valid tools s \<longleftrightarrow> (\<forall>m \<in> set (butlast s). list_all (call_valid tools) (tool_calls_of m))"

fun loop_abs :: "message list config \<Rightarrow> loop_phase \<times> message list" where
  "loop_abs (Run n s) = (if n = ''toolNode'' then ToolExec else ModelCall, s)"
| "loop_abs (Halt s) = (Finished, s)"

fun loop_conc :: "loop_phase \<times> message list \<Rightarrow> message list config" where
  "loop_conc (ModelCall, s) = Run ''llmCall'' s"
| "loop_conc (ToolExec, s) = Run ''toolNode'' s"
| "loop_conc (Finished, s) = Halt s"

fun agent_inv :: "message list config \<Rightarrow> bool" where
  "agent_inv (Run n s) =
     (n = ''llmCall'' \<or>
      (n = ''toolNode'' \<and> (case last_opt s of Some (AIMessage c calls) \<Rightarrow> calls \<noteq> [] | _ \<Rightarrow> False)))"
| "agent_inv (Halt s) = True"

text \<open>
  Every tool message answers a call of an earlier ai message: \<open>answered_from ids ms\<close>
  reads the transcript left to right, \<open>ids\<close> holding the call ids seen so far.
\<close>

fun answered_from :: "string list \<Rightarrow> message list \<Rightarrow> bool" where
  "answered_from ids [] = True"
| "answered_from ids (m # ms) =
     ((case m of ToolMessage out cid \<Rightarrow> cid \<in> set ids | _ \<Rightarrow> True) \<and>
      answered_from (ids @ map tc_id (tool_calls_of m)) ms)"

definition tool_msgs_answered :: "message list \<Rightarrow> bool" where
  "tool_msgs_answered ms = answered_from [] ms"

lemma agent_builder_eq: "agent_builder llm = Inr (agent_graph llm)"
  by (simp add: agent_builder_def agent_graph_def new_graph_def add_node_def add_edge_def
      add_conditional_edges_def compile_def node_names_def path_list_def)

subsection \<open>Evaluating the compiled graph\<close>

lemma agent_graph_simps [simp]:
  "map_of (sg_nodes (agent_graph llm)) ''llmCall'' = Some (llmCall llm)"
  "map_of (sg_nodes (agent_graph llm)) ''toolNode'' = Some toolNode"
  "sg_reduce (agent_graph llm) = add_messages"
  by (simp_all add: agent_graph_def)

lemma shouldContinue_cases: "shouldContinue msgs = ''toolNode'' \<or> shouldContinue msgs = END"
  by (auto simp: shouldContinue_def split: option.splits)

lemma agent_route_llmCall:
  "route (agent_graph llm) ''llmCall'' s =
     Inr (if shouldContinue s = ''toolNode'' then ''toolNode'' else END)"
  using shouldContinue_cases [of s]
  by (auto simp: route_def agent_graph_def path_list_def)

lemma agent_route_toolNode: "route (agent_graph llm) ''toolNode'' s = Inr ''llmCall''"
  by (simp add: route_def agent_graph_def)

lemma agent_route_START: "route (agent_graph llm) START s = Inr ''llmCall''"
  by (simp add: route_def agent_graph_def)

lemma shouldContinue_snoc_ai [simp]:
  "shouldContinue (msgs @ [AIMessage c calls]) = (if calls = [] then END else ''toolNode'')"
  by (simp add: shouldContinue_def)

lemma walk_llmCall:
  assumes "llm (SystemMessage arith_prompt # msgs) = Inr (c, calls)"
  shows "walk (agent_graph llm) (Suc k) ''llmCall'' msgs tr =
     (if calls = [] then Done (msgs @ [AIMessage c calls]) (tr @ [''llmCall''])
      else walk (agent_graph llm) k ''toolNode'' (msgs @ [AIMessage c calls]) (tr @ [''llmCall'']))"
  using assms by (simp add: llmCall_def add_messages_def agent_route_llmCall)

lemma toolNode_snoc_ai:
  "toolNode (msgs @ [AIMessage c calls]) =
     (case map_seq call_tool calls of Inl e \<Rightarrow> Inl (tool_error_msg e) | Inr rs \<Rightarrow> Inr rs)"
  by (simp add: toolNode_def)

lemma walk_toolNode:
  assumes "map_seq call_tool calls = Inr rs"
  shows "walk (agent_graph llm) (Suc k) ''toolNode'' (msgs @ [AIMessage c calls]) tr =
     walk (agent_graph llm) k ''llmCall'' (msgs @ AIMessage c calls # rs) (tr @ [''toolNode''])"
  using assms by (simp add: toolNode_snoc_ai add_messages_def agent_route_toolNode)

lemma map_seq_calls_ok: "calls_ok calls \<Longrightarrow> map_seq call_tool calls = Inr (tool_results calls)"
  unfolding calls_ok_def tool_results_def
  by (rule map_seq_all_Inr) (auto simp: isl_def split: sum.splits)

lemma call_tool_add_3_4: "call_tool add_3_4 = Inr (ToolMessage (ONum (Fin 7)) ''call_1'')"
  by (simp add: call_tool_def add_3_4_def tools_by_name_def add_tool_def multiply_tool_def
      divide_tool_def tool_invoke_def)

lemma invoke_agent: "invoke (agent_graph llm) k s = walk (agent_graph llm) k ''llmCall'' s []"
  by (simp add: invoke_def agent_route_START)

lemma walk_agent_failures:
  "n = ''llmCall'' \<or> n = ''toolNode'' \<Longrightarrow> walk (agent_graph llm) k n s tr = Failed e tr' \<Longrightarrow>
     (\<exists>n msg. e = ExecutionError n msg) \<or> (\<exists>c. e = StepLimitExceeded c)"
proof (induction k arbitrary: n s tr)
  case 0
  then show ?case by auto
next
  case (Suc k)
  from Suc.prems(1) obtain f where f: "map_of (sg_nodes (agent_graph llm)) n = Some f" by auto
  have r: "\<exists>t. route (agent_graph llm) n s' = Inr t \<and> (t = END \<or> t = ''llmCall'' \<or> t = ''toolNode'')" for s'
    using Suc.prems(1) by (auto simp: agent_route_llmCall agent_route_toolNode)
  show ?case
  proof (cases "f s")
    case (Inl msg)
    with f Suc.prems(2) show ?thesis by auto
  next
    case (Inr u)
    from r obtain t where t: "route (agent_graph llm) n (sg_reduce (agent_graph llm) s u) = Inr t"
      and tt: "t = END \<or> t = ''llmCall'' \<or> t = ''toolNode''" by blast
    show ?thesis
    proof (cases "t = END")
      case True
      with f Inr t Suc.prems(2) show ?thesis by simp
    next
      case False
      with f Inr t Suc.prems(2) have "walk (agent_graph llm) k t (sg_reduce (agent_graph llm) s u) (tr @ [n]) = Failed e tr'"
        by (simp add: Let_def)
      with False tt Suc.IH show ?thesis by blast
    qed
  qed
qed

text \<open>A model that always asks for a tool: the walk ends at the step limit, after exactly \<open>k\<close> nodes.\<close>

lemma agent_graph_wf: "wf_graph (agent_graph llm)"
  by (simp add: wf_graph_def agent_graph_def node_names_def path_list_def)

lemma walk_always_tools:
  assumes always: "\<forall>msgs. \<exists>c calls. llm (SystemMessage arith_prompt # msgs) = Inr (c, calls) \<and> calls \<noteq> [] \<and> calls_ok calls"
  shows "n = ''llmCall'' \<or> (\<exists>pre c calls. n = ''toolNode'' \<and> s = pre @ [AIMessage c calls] \<and> calls_ok calls) \<Longrightarrow>
    \<exists>tr'. walk (agent_graph llm) k n s tr = Failed (StepLimitExceeded (length tr + k)) tr'"
proof (induction k arbitrary: n s tr)
  case 0
  then show ?case by simp
next
  case (Suc k)
  from Suc.prems show ?case
  proof
    assume n: "n = ''llmCall''"
    from always obtain c calls where h: "llm (SystemMessage arith_prompt # s) = Inr (c, calls)"
      and calls: "calls \<noteq> []" "calls_ok calls" by blast
    from Suc.IH [of "''toolNode''" "s @ [AIMessage c calls]" "tr @ [''llmCall'']"] calls
    obtain tr' where "walk (agent_graph llm) k ''toolNode'' (s @ [AIMessage c calls]) (tr @ [''llmCall'']) =
        Failed (StepLimitExceeded (length tr + Suc k)) tr'" by auto
    then show ?thesis unfolding n by (subst walk_llmCall [where llm = llm, OF h]) (simp add: calls)
  next
    assume "\<exists>pre c calls. n = ''toolNode'' \<and> s = pre @ [AIMessage c calls] \<and> calls_ok calls"
    then obtain pre c calls where n: "n = ''toolNode''" and s: "s = pre @ [AIMessage c calls]"
      and ok: "calls_ok calls" by blast
    from Suc.IH [of "''llmCall''" "pre @ AIMessage c calls # tool_results calls" "tr @ [''toolNode'']"]
    obtain tr' where "walk (agent_graph llm) k ''llmCall'' (pre @ AIMessage c calls # tool_results calls)
        (tr @ [''toolNode'']) = Failed (StepLimitExceeded (length tr + Suc k)) tr'" by auto
    then show ?thesis unfolding n s by (simp only: walk_toolNode [OF map_seq_calls_ok [OF ok]]) blast
  qed
qed


lemma rounds_prems_shift:
  assumes "\<forall>j < length (r # rs). llm (SystemMessage arith_prompt # init @ concat (map round_msgs (take j (r # rs)))) = Inr ((r # rs) ! j)"
  shows "\<forall>j < length rs. llm (SystemMessage arith_prompt # (init @ round_msgs r) @ concat (map round_msgs (take j rs))) = Inr (rs ! j)"
proof (intro allI impI)
  fix j assume "j < length rs"
  with assms have "llm (SystemMessage arith_prompt # init @ concat (map round_msgs (take (Suc j) (r # rs)))) = Inr ((r # rs) ! Suc j)"
    by (auto simp del: take_Suc_Cons nth_Cons_Suc)
  then show "llm (SystemMessage arith_prompt # (init @ round_msgs r) @ concat (map round_msgs (take j rs))) = Inr (rs ! j)"
    by simp
qed

subsection \<open>The graph against the loop of section 4.2\<close>

lemma agent_route_after_ai:
  "route (agent_graph llm) ''llmCall'' (s @ [AIMessage c calls]) = Inr (if calls = [] then END else ''toolNode'')"
  by (simp add: agent_route_llmCall)

lemma agent_step_llmCall_D:
  assumes "graph_step (agent_graph llm) (Run ''llmCall'' s) c'"
  shows "\<exists>cc calls. llm (SystemMessage arith_prompt # s) = Inr (cc, calls) \<and>
     c' = (if calls = [] then Halt (s @ [AIMessage cc calls]) else Run ''toolNode'' (s @ [AIMessage cc calls]))"
proof -
  from assms obtain u t where u: "llmCall llm s = Inr u"
    and t: "route (agent_graph llm) ''llmCall'' (s @ u) = Inr t"
    and c': "c' = (if t = END then Halt (s @ u) else Run t (s @ u))"
    unfolding graph_step_Run_iff by (auto simp: add_messages_def)
  from u obtain cc calls where l: "llm (SystemMessage arith_prompt # s) = Inr (cc, calls)"
    and uu: "u = [AIMessage cc calls]"
    by (auto simp: llmCall_def split: sum.splits)
  from t have "t = (if calls = [] then END else ''toolNode'')"
    by (simp add: uu agent_route_after_ai)
  with l c' uu show ?thesis by auto
qed

lemma agent_step_llmCall_I:
  assumes "llm (SystemMessage arith_prompt # s) = Inr (cc, calls)"
  shows "graph_step (agent_graph llm) (Run ''llmCall'' s)
     (if calls = [] then Halt (s @ [AIMessage cc calls]) else Run ''toolNode'' (s @ [AIMessage cc calls]))"
  unfolding graph_step_Run_iff
  using assms by (simp add: llmCall_def add_messages_def agent_route_after_ai)

lemma agent_step_llmCall:
  "graph_step (agent_graph llm) (Run ''llmCall'' s) c' \<longleftrightarrow>
     (\<exists>cc calls. llm (SystemMessage arith_prompt # s) = Inr (cc, calls) \<and>
        c' = (if calls = [] then Halt (s @ [AIMessage cc calls]) else Run ''toolNode'' (s @ [AIMessage cc calls])))"
  using agent_step_llmCall_D agent_step_llmCall_I by blast

lemma agent_step_toolNode:
  "graph_step (agent_graph llm) (Run ''toolNode'' (pre @ [AIMessage cc calls])) c' \<longleftrightarrow>
     (\<exists>rs. map_seq call_tool calls = Inr rs \<and> c' = Run ''llmCall'' (pre @ AIMessage cc calls # rs))"
proof
  assume "graph_step (agent_graph llm) (Run ''toolNode'' (pre @ [AIMessage cc calls])) c'"
  then obtain u t where u: "toolNode (pre @ [AIMessage cc calls]) = Inr u"
    and t: "route (agent_graph llm) ''toolNode'' (pre @ [AIMessage cc calls] @ u) = Inr t"
    and c': "c' = (if t = END then Halt (pre @ [AIMessage cc calls] @ u) else Run t (pre @ [AIMessage cc calls] @ u))"
    unfolding graph_step_Run_iff by (auto simp: add_messages_def)
  from u have "map_seq call_tool calls = Inr u"
    by (simp add: toolNode_snoc_ai split: sum.splits)
  moreover from t have "t = ''llmCall''" by (simp add: agent_route_toolNode)
  ultimately show "\<exists>rs. map_seq call_tool calls = Inr rs \<and> c' = Run ''llmCall'' (pre @ AIMessage cc calls # rs)"
    using c' by simp
next
  assume "\<exists>rs. map_seq call_tool calls = Inr rs \<and> c' = Run ''llmCall'' (pre @ AIMessage cc calls # rs)"
  then obtain rs where rs: "map_seq call_tool calls = Inr rs" and c': "c' = Run ''llmCall'' (pre @ AIMessage cc calls # rs)"
    by blast
  show "graph_step (agent_graph llm) (Run ''toolNode'' (pre @ [AIMessage cc calls])) c'"
    unfolding graph_step_Run_iff c'
    by (simp add: toolNode_snoc_ai rs add_messages_def agent_route_toolNode)
qed

lemma agent_inv_toolNode:
  "agent_inv (Run ''toolNode'' s) \<longleftrightarrow> (\<exists>pre cc calls. s = pre @ [AIMessage cc calls] \<and> calls \<noteq> [])"
proof
  assume "agent_inv (Run ''toolNode'' s)"
  then obtain m where lm: "last_opt s = Some m" and m: "case m of AIMessage c calls \<Rightarrow> calls \<noteq> [] | _ \<Rightarrow> False"
    by (auto split: option.splits)
  from m obtain cc calls where mm: "m = AIMessage cc calls" "calls \<noteq> []"
    by (cases m) auto
  from lm have "s = butlast s @ [m]" by (auto simp: last_opt_def split: if_splits)
  with mm show "\<exists>pre cc calls. s = pre @ [AIMessage cc calls] \<and> calls \<noteq> []" by blast
next
  assume "\<exists>pre cc calls. s = pre @ [AIMessage cc calls] \<and> calls \<noteq> []"
  then show "agent_inv (Run ''toolNode'' s)" by auto
qed

inductive_cases tool_loop_ModelCallE: "tool_loop tools llm (ModelCall, s) a"
inductive_cases tool_loop_ToolExecE: "tool_loop tools llm (ToolExec, s) a"
inductive_cases tool_loop_FinishedE: "tool_loop tools llm (Finished, s) a"
inductive_cases tool_answerE: "tool_answer tools c r"

lemma tool_loop_ModelCall_iff:
  "tool_loop tools llm (ModelCall, s) a \<longleftrightarrow>
     (\<exists>cc calls. llm (SystemMessage arith_prompt # s) = Inr (cc, calls) \<and>
        a = (if calls = [] then Finished else ToolExec, s @ [AIMessage cc calls]))"
  by (auto elim!: tool_loop_ModelCallE intro: tool_loop.intros)

text \<open>The code's tool call against the spec's answers: every result it returns is an
  allowed answer, and on a valid call the allowed answer is the one it returns.\<close>

lemma call_tool_answer: "call_tool c = Inr r \<Longrightarrow> tool_answer tool_table c r"
  by (auto simp: call_tool_def tool_invoke_def split: option.splits sum.splits intro: tool_answer.intros)

lemma call_valid_answer: "call_valid tool_table c \<Longrightarrow> tool_answer tool_table c r \<Longrightarrow> call_tool c = Inr r"
  by (auto simp: call_valid_def call_tool_def tool_invoke_def elim!: tool_answerE)

lemma map_seq_call_tool_answers:
  "map_seq call_tool calls = Inr rs \<Longrightarrow> list_all2 (tool_answer tool_table) calls rs"
proof (induction calls arbitrary: rs)
  case Nil
  then show ?case by simp
next
  case (Cons c calls)
  then obtain r rs' where "call_tool c = Inr r" "map_seq call_tool calls = Inr rs'" "rs = r # rs'"
    by (auto split: sum.splits)
  with Cons.IH show ?case by (simp add: call_tool_answer)
qed

lemma answers_map_seq_call_tool:
  "list_all2 (tool_answer tool_table) calls rs \<Longrightarrow> list_all (call_valid tool_table) calls \<Longrightarrow>
     map_seq call_tool calls = Inr rs"
  by (induction rule: list_all2_induct) (simp_all add: call_valid_answer)

lemma loop_abs_Finished: "loop_abs c = (Finished, x) \<longleftrightarrow> c = Halt x"
  by (cases c) auto

lemma loop_abs_ToolExec: "loop_abs c = (ToolExec, x) \<longleftrightarrow> c = Run ''toolNode'' x"
  by (cases c) auto

lemma agent_refines_llmCall:
  "graph_step (agent_graph llm) (Run ''llmCall'' s) c' \<longleftrightarrow>
     tool_loop tools llm (ModelCall, s) (loop_abs c') \<and> agent_inv c'"
proof
  assume "graph_step (agent_graph llm) (Run ''llmCall'' s) c'"
  then obtain cc calls where l: "llm (SystemMessage arith_prompt # s) = Inr (cc, calls)"
    and c': "c' = (if calls = [] then Halt (s @ [AIMessage cc calls]) else Run ''toolNode'' (s @ [AIMessage cc calls]))"
    unfolding agent_step_llmCall by blast
  show "tool_loop tools llm (ModelCall, s) (loop_abs c') \<and> agent_inv c'"
    using l c' by (simp add: tool_loop_ModelCall_iff)
next
  assume r: "tool_loop tools llm (ModelCall, s) (loop_abs c') \<and> agent_inv c'"
  then obtain cc calls where l: "llm (SystemMessage arith_prompt # s) = Inr (cc, calls)"
    and a: "loop_abs c' = (if calls = [] then Finished else ToolExec, s @ [AIMessage cc calls])"
    unfolding tool_loop_ModelCall_iff by blast
  have "c' = (if calls = [] then Halt (s @ [AIMessage cc calls]) else Run ''toolNode'' (s @ [AIMessage cc calls]))"
  proof (cases "calls = []")
    case True
    with a show ?thesis by (simp add: loop_abs_Finished)
  next
    case False
    with a show ?thesis by (simp add: loop_abs_ToolExec)
  qed
  with l show "graph_step (agent_graph llm) (Run ''llmCall'' s) c'"
    unfolding agent_step_llmCall by blast
qed

lemma agent_refines_toolNode:
  assumes "graph_step (agent_graph llm) (Run ''toolNode'' (pre @ [AIMessage cc calls])) c'"
  shows "tool_loop tool_table llm (ToolExec, pre @ [AIMessage cc calls]) (loop_abs c') \<and> agent_inv c'"
proof -
  from assms obtain rs where rs: "map_seq call_tool calls = Inr rs"
    and c': "c' = Run ''llmCall'' (pre @ AIMessage cc calls # rs)"
    unfolding agent_step_toolNode by blast
  from map_seq_call_tool_answers [OF rs] c' show ?thesis by (simp add: tool_loop.tools_answer)
qed

lemma agent_step_refines:
  assumes "agent_inv c" "graph_step (agent_graph llm) c c'"
  shows "tool_loop tool_table llm (loop_abs c) (loop_abs c') \<and> agent_inv c'"
proof (cases c)
  case (Halt s)
  with assms(2) show ?thesis by (auto elim: graph_step_HaltE)
next
  case (Run n s)
  with assms(1) consider "n = ''llmCall''"
    | pre cc calls where "n = ''toolNode''" "s = pre @ [AIMessage cc calls]" "calls \<noteq> []"
    using agent_inv_toolNode by fastforce
  then show ?thesis
  proof cases
    case 1
    then show ?thesis using agent_refines_llmCall [of llm s c'] assms(2) Run by simp
  next
    case 2
    then show ?thesis using agent_refines_toolNode [of llm pre cc calls c'] assms(2) Run by simp
  qed
qed

text \<open>The machine only appends to the transcript, so the settled calls of a later
  state include those of an earlier one.\<close>

lemma tool_loop_appends: "tool_loop tools llm b a \<Longrightarrow> prefix (snd b) (snd a)"
  by (induction rule: tool_loop.induct) auto

lemma settled_calls_valid_prefix:
  assumes "prefix xs ys" "settled_calls_valid tools ys"
  shows "settled_calls_valid tools xs"
proof -
  from assms(1) obtain zs where ys: "ys = xs @ zs" by (auto simp: prefix_def)
  have "set (butlast xs) \<subseteq> set (butlast ys)"
    unfolding ys by (cases "zs = []") (auto simp: butlast_append dest: in_set_butlastD)
  with assms(2) show ?thesis by (auto simp: settled_calls_valid_def)
qed

lemma settled_calls_valid_round:
  assumes "settled_calls_valid tools (pre @ AIMessage cc calls # rs)" "list_all2 P calls rs"
  shows "list_all (call_valid tools) calls"
proof (cases "rs = []")
  case True
  with assms(2) show ?thesis by simp
next
  case False
  then have "AIMessage cc calls \<in> set (butlast (pre @ AIMessage cc calls # rs))"
    by (simp add: butlast_append)
  with assms(1) show ?thesis by (fastforce simp: settled_calls_valid_def)
qed

lemma tool_loop_step_conc:
  assumes "tool_loop tool_table llm b a" "settled_calls_valid tool_table (snd a)"
  shows "graph_step (agent_graph llm) (loop_conc b) (loop_conc a)"
  using assms
proof (induction rule: tool_loop.cases)
  case (model_requests_tools msgs c calls)
  then show ?case using agent_step_llmCall_I [of llm msgs c calls] by simp
next
  case (model_answers msgs c)
  then show ?case using agent_step_llmCall_I [of llm msgs c "[]"] by simp
next
  case (tools_answer calls rs pre c)
  then have "map_seq call_tool calls = Inr rs"
    by (auto intro: answers_map_seq_call_tool settled_calls_valid_round)
  with tools_answer show ?case by (simp add: agent_step_toolNode)
qed

lemma answered_from_append:
  "answered_from ids (xs @ ys) \<longleftrightarrow>
     answered_from ids xs \<and> answered_from (ids @ concat (map (\<lambda>m. map tc_id (tool_calls_of m)) xs)) ys"
  by (induction xs arbitrary: ids) auto

lemma call_tool_Inr_id: "call_tool c = Inr m \<Longrightarrow> \<exists>out. m = ToolMessage out (tc_id c)"
  by (auto simp: call_tool_def split: option.splits dest: tool_invoke_id)

lemma tool_results_answered:
  "map_seq call_tool calls = Inr rs \<Longrightarrow> set (map tc_id calls) \<subseteq> set ids \<Longrightarrow> answered_from ids rs"
proof (induction calls arbitrary: rs)
  case Nil
  then show ?case by simp
next
  case (Cons c calls)
  from Cons.prems(1) obtain m rs' where m: "call_tool c = Inr m" and rest: "map_seq call_tool calls = Inr rs'"
    and rs: "rs = m # rs'"
    by (auto split: sum.splits)
  from call_tool_Inr_id [OF m] obtain out where "m = ToolMessage out (tc_id c)" by blast
  with Cons.prems(2) Cons.IH [OF rest] rs show ?case by simp
qed

lemma llmCall_answered:
  "llmCall llm s = Inr u \<Longrightarrow> tool_msgs_answered s \<Longrightarrow> tool_msgs_answered (s @ u)"
  by (auto simp: llmCall_def tool_msgs_answered_def answered_from_append split: sum.splits)

lemma toolNode_answered:
  assumes "toolNode s = Inr u" "tool_msgs_answered s"
  shows "tool_msgs_answered (s @ u)"
proof (cases "last_opt s")
  case None
  with assms show ?thesis by (simp add: toolNode_def)
next
  case (Some m)
  then have s: "s = butlast s @ [m]" by (auto simp: last_opt_def split: if_splits)
  show ?thesis
  proof (cases "msg_type m = ''ai''")
    case False
    with assms Some show ?thesis by (simp add: toolNode_def)
  next
    case True
    with assms Some have rs: "map_seq call_tool (tool_calls_of m) = Inr u"
      by (simp add: toolNode_def split: sum.splits)
    let ?ids = "concat (map (\<lambda>m. map tc_id (tool_calls_of m)) s)"
    have "set (map tc_id (tool_calls_of m)) \<subseteq> set ?ids"
      by (subst s) auto
    then have "answered_from ([] @ ?ids) u" using tool_results_answered [OF rs] by simp
    with assms(2) show ?thesis by (simp add: tool_msgs_answered_def answered_from_append)
  qed
qed

lemma agent_node_cases:
  "map_of (sg_nodes (agent_graph llm)) n = Some f \<Longrightarrow> f = llmCall llm \<or> f = toolNode"
  by (auto simp: agent_graph_def split: if_splits)

lemma loop_conc_abs: "agent_inv c \<Longrightarrow> loop_conc (loop_abs c) = c"
  by (cases c) auto

lemma agent_steps_abs:
  "graph_steps (agent_graph llm) k c c' \<Longrightarrow> agent_inv c \<Longrightarrow>
     (tool_loop tool_table llm)\<^sup>*\<^sup>* (loop_abs c) (loop_abs c') \<and> agent_inv c'"
proof (induction rule: graph_steps.induct)
  case (steps_refl c)
  then show ?case by simp
next
  case (steps_step c c' k c'')
  from agent_step_refines [OF steps_step.prems steps_step.hyps(1)]
  have "tool_loop tool_table llm (loop_abs c) (loop_abs c')" "agent_inv c'" by blast+
  with steps_step.IH show ?case by (auto intro: converse_rtranclp_into_rtranclp)
qed

lemma tool_loop_steps_conc:
  "(tool_loop tool_table llm)\<^sup>*\<^sup>* (ModelCall, s) a \<Longrightarrow> settled_calls_valid tool_table (snd a) \<Longrightarrow>
     \<exists>k. graph_steps (agent_graph llm) k (Run ''llmCall'' s) (loop_conc a)"
proof (induction rule: rtranclp_induct)
  case base
  then show ?case by (auto intro: graph_steps.steps_refl)
next
  case (step b a)
  from step.hyps(2) step.prems have "settled_calls_valid tool_table (snd b)"
    by (blast intro: settled_calls_valid_prefix tool_loop_appends)
  with step.IH obtain k where k: "graph_steps (agent_graph llm) k (Run ''llmCall'' s) (loop_conc b)" by blast
  from tool_loop_step_conc [OF step.hyps(2) step.prems] k show ?case by (blast intro: graph_steps_snoc)
qed

text \<open>The scenario of spec section 8 evaluated step by step.\<close>

lemma add_3_4_walk: "walk (agent_graph (scripted [('''', [add_3_4]), (''7'', [])])) 25 ''llmCall''
      [HumanMessage ''Add 3 and 4.''] [] = Done [HumanMessage ''Add 3 and 4.'', AIMessage '''' [add_3_4],
         ToolMessage (ONum (Fin 7)) ''call_1'', AIMessage ''7'' []]
        [''llmCall'', ''toolNode'', ''llmCall'']"
  by (simp add: numeral_eq_Suc scripted_def call_tool_add_3_4 llmCall_def toolNode_def agent_route_llmCall agent_route_toolNode shouldContinue_def add_messages_def)


subsection \<open>Properties of the tool-calling loop\<close>

text \<open>
  C1. Termination of the loop (spec section 8): when the model answers with \<open>k\<close>
  ai messages that carry tool calls, each call valid, and then with an ai message that
  carries none, the walk from \<open>llmCall\<close> ends after exactly \<open>2k + 1\<close> node
  executions, and the transcript is the initial one followed by each round (the ai
  message and one tool message per call, in call order) and the final ai message.
\<close>

theorem tool_loop_rounds:
  assumes "\<forall>j < length rs. llm (SystemMessage arith_prompt # init @ concat (map round_msgs (take j rs))) = Inr (rs ! j)"
    and "llm (SystemMessage arith_prompt # init @ concat (map round_msgs rs)) = Inr (fc, [])"
    and "\<forall>r \<in> set rs. snd r \<noteq> [] \<and> calls_ok (snd r)"
    and "2 * length rs < k"
  shows "walk (agent_graph llm) k ''llmCall'' init tr =
    Done (init @ concat (map round_msgs rs) @ [AIMessage fc []])
         (tr @ concat (replicate (length rs) [''llmCall'', ''toolNode'']) @ [''llmCall''])"
  using assms
proof (induction rs arbitrary: init k tr)
  case Nil
  then obtain k' where k: "k = Suc k'" by (cases k) auto
  from Nil.prems(2) have h: "llm (SystemMessage arith_prompt # init) = Inr (fc, [])" by simp
  show ?case unfolding k by (subst walk_llmCall [where llm = llm, OF h]) simp
next
  case (Cons r rs)
  obtain c calls where r: "r = (c, calls)" by (cases r)
  from Cons.prems(4) obtain k' where k: "k = Suc (Suc k')" and k': "2 * length rs < k'"
    by (cases k; cases "k - 1") auto
  from Cons.prems(1) r have first: "llm (SystemMessage arith_prompt # init) = Inr (c, calls)"
    by (drule_tac x = 0 in spec) simp
  from Cons.prems(3) r have calls: "calls \<noteq> []" "calls_ok calls" by auto
  let ?init' = "init @ round_msgs r"
  have IH: "walk (agent_graph llm) k' ''llmCall'' ?init' (tr @ [''llmCall'', ''toolNode'']) =
    Done (?init' @ concat (map round_msgs rs) @ [AIMessage fc []])
         ((tr @ [''llmCall'', ''toolNode'']) @ concat (replicate (length rs) [''llmCall'', ''toolNode'']) @ [''llmCall''])"
  proof (rule Cons.IH)
    show "\<forall>j < length rs. llm (SystemMessage arith_prompt # ?init' @ concat (map round_msgs (take j rs))) = Inr (rs ! j)"
      by (rule rounds_prems_shift [OF Cons.prems(1)])
    show "llm (SystemMessage arith_prompt # ?init' @ concat (map round_msgs rs)) = Inr (fc, [])"
      using Cons.prems(2) by simp
    show "\<forall>r \<in> set rs. snd r \<noteq> [] \<and> calls_ok (snd r)" using Cons.prems(3) by simp
    show "2 * length rs < k'" by (rule k')
  qed
  have "walk (agent_graph llm) k ''llmCall'' init tr =
      walk (agent_graph llm) (Suc k') ''toolNode'' (init @ [AIMessage c calls]) (tr @ [''llmCall''])"
    unfolding k by (subst walk_llmCall [where llm = llm, OF first]) (simp add: calls)
  also have "\<dots> = walk (agent_graph llm) k' ''llmCall'' (init @ AIMessage c calls # tool_results calls)
      ((tr @ [''llmCall'']) @ [''toolNode''])"
    by (rule walk_toolNode [OF map_seq_calls_ok [OF calls(2)]])
  also have "\<dots> = walk (agent_graph llm) k' ''llmCall'' ?init' (tr @ [''llmCall'', ''toolNode''])"
    by (simp add: r round_msgs_def)
  finally show ?case using IH r by simp
qed

text \<open>The spec's concrete scenario: \<open>Add 3 and 4.\<close> ends with exactly four messages.\<close>

theorem add_3_and_4_scenario:
  "run_agent (scripted [('''', [add_3_4]), (''7'', [])]) ''Add 3 and 4.'' =
   Done [HumanMessage ''Add 3 and 4.'', AIMessage '''' [add_3_4],
         ToolMessage (ONum (Fin 7)) ''call_1'', AIMessage ''7'' []]
        [''llmCall'', ''toolNode'', ''llmCall'']"
proof -
  have "walk (agent_graph (scripted [('''', [add_3_4]), (''7'', [])])) 25 ''llmCall''
      [HumanMessage ''Add 3 and 4.''] [] =
    Done ([HumanMessage ''Add 3 and 4.''] @ concat (map round_msgs [('''', [add_3_4])]) @ [AIMessage ''7'' []])
      ([] @ concat (replicate (length [('''' :: string, [add_3_4])]) [''llmCall'', ''toolNode'']) @ [''llmCall''])"
    by (rule tool_loop_rounds)
       (simp_all add: scripted_def round_msgs_def tool_results_def call_tool_add_3_4 calls_ok_def)
  then show ?thesis
    by (simp add: run_agent_def agent_builder_eq invoke_agent default_recursion_limit_def
        add_messages_def round_msgs_def tool_results_def call_tool_add_3_4)
qed

text \<open>
  C2. The recursion limit is the loop's safety net (spec 4.1, 4.2 and section 8): with a
  model that asks for a valid tool call every time, \<open>invoke\<close> with limit \<open>n\<close> fails
  with \<open>StepLimitExceeded\<close> after exactly \<open>n\<close> node executions instead of looping.
\<close>

theorem tool_loop_step_limit:
  assumes "\<forall>msgs. \<exists>c calls. llm (SystemMessage arith_prompt # msgs) = Inr (c, calls) \<and> calls \<noteq> [] \<and> calls_ok calls"
  shows "\<exists>tr. invoke (agent_graph llm) limit init = Failed (StepLimitExceeded limit) tr \<and> length tr = limit"
proof -
  have "\<exists>tr'. walk (agent_graph llm) limit ''llmCall'' init [] = Failed (StepLimitExceeded (length ([] :: node_name list) + limit)) tr'"
    by (rule walk_always_tools [OF assms]) simp
  then obtain tr where w: "walk (agent_graph llm) limit ''llmCall'' init [] = Failed (StepLimitExceeded limit) tr"
    by auto
  from walk_StepLimit [OF w] have "length tr = limit" by linarith
  with w show ?thesis by (simp add: invoke_agent)
qed

theorem tool_loop_step_limit_witness:
  "\<exists>tr. invoke (agent_graph (\<lambda>msgs. Inr ('''', [add_3_4]))) 50 [HumanMessage ''Add 3 and 4.''] =
     Failed (StepLimitExceeded 50) tr \<and> length tr = 50"
  by (rule tool_loop_step_limit) (simp add: calls_ok_def call_tool_add_3_4)

text \<open>
  C3. A run of the compiled agent fails only in one of its nodes or at the step limit
  (spec 4.1, 4.4 and 7): every node it reaches is registered, and \<open>shouldContinue\<close>
  only returns labels of its path map, so neither a configuration error nor an
  unmapped routing label can end a run.
\<close>

theorem agent_failures:
  "invoke (agent_graph llm) k s = Failed e tr \<Longrightarrow>
     (\<exists>n msg. e = ExecutionError n msg) \<or> (\<exists>c. e = StepLimitExceeded c)"
  unfolding invoke_agent by (rule walk_agent_failures [of "''llmCall''"]) simp_all

theorem agent_failures_witness:
  "invoke (agent_graph (\<lambda>msgs. Inl ''rate limited'')) 25 [HumanMessage ''Add 3 and 4.''] =
     Failed (ExecutionError ''llmCall'' ''rate limited'') [] \<and>
   ((\<exists>n msg. ExecutionError ''llmCall'' ''rate limited'' = ExecutionError n msg) \<or>
    (\<exists>c. ExecutionError ''llmCall'' ''rate limited'' = StepLimitExceeded c))"
proof -
  have run: "invoke (agent_graph (\<lambda>msgs. Inl ''rate limited'')) 25 [HumanMessage ''Add 3 and 4.''] =
     Failed (ExecutionError ''llmCall'' ''rate limited'') []"
    by (simp add: invoke_agent numeral_eq_Suc llmCall_def)
  from run agent_failures [OF run] show ?thesis by simp
qed

text \<open>
  C4. A tool call that names no tool, or whose arguments fail the tool's schema, is
  fatal: \<open>toolNode\<close> throws and the walk fails with an execution error right after
  \<open>llmCall\<close>. (The spec, 4.2, wants a validation failure to become a tool message
  the model can react to; the code does not catch it.)
\<close>

theorem tool_agent_tool_error_fatal:
  assumes "llm (SystemMessage arith_prompt # init) = Inr (c, tc # calls)"
    and "call_tool tc = Inl e"
  shows "invoke (agent_graph llm) (Suc (Suc k)) init =
    Failed (ExecutionError ''toolNode'' (tool_error_msg e)) [''llmCall'']"
  unfolding invoke_agent
  by (subst walk_llmCall [where llm = llm, OF assms(1)]) (simp add: toolNode_snoc_ai assms(2))

theorem tool_agent_tool_error_fatal_witness:
  "invoke (agent_graph (\<lambda>msgs. Inr ('''', [\<lparr>tc_name = ''divide'',
        tc_args = JObj [(''a'', JStr ''3''), (''b'', JNum 4)], tc_id = ''call_1''\<rparr>])))
      25 [HumanMessage ''Divide 3 by 4.''] =
   Failed (ExecutionError ''toolNode''
     (tool_error_msg (ToolInputParsingException ''Expected number at a''))) [''llmCall'']"
proof -
  have "call_tool \<lparr>tc_name = ''divide'', tc_args = JObj [(''a'', JStr ''3''), (''b'', JNum 4)], tc_id = ''call_1''\<rparr>
      = Inl (ToolInputParsingException ''Expected number at a'')"
    by (simp add: call_tool_def tools_by_name_def add_tool_def multiply_tool_def divide_tool_def
        tool_invoke_def binop_tool_def)
  from tool_agent_tool_error_fatal [OF _ this, where k = 23] show ?thesis by simp
qed

text \<open>
  The router is total over its declared destinations (spec 4.4): whatever the
  transcript, \<open>shouldContinue\<close> returns a label of its path map.
\<close>

theorem shouldContinue_in_path_map:
  "shouldContinue msgs \<in> set (map fst (path_list [''toolNode'', END]))"
  using shouldContinue_cases [of msgs] by (auto simp: path_list_def)

text \<open>
  C6. The compiled graph of \<open>src/graph.ts\<close> refines the loop of spec section 4.2:
  every configuration the graph reaches from \<open>llmCall\<close> is one the agent can be in,
  and its reading is reachable in the spec's machine, whose tool step answers each call
  with the tool's result or, on a failed validation, with an error message. Conversely,
  every state the machine reaches in which the calls of all answered ai messages
  validate is reached by the graph. What the graph lacks is the machine's recovery from
  a failed validation: there it throws (C4).
\<close>

theorem agent_reach_tool_loop:
  "((\<exists>k. graph_steps (agent_graph llm) k (Run ''llmCall'' s) c) \<longrightarrow>
      agent_inv c \<and> (tool_loop tool_table llm)\<^sup>*\<^sup>* (ModelCall, s) (loop_abs c)) \<and>
   ((tool_loop tool_table llm)\<^sup>*\<^sup>* (ModelCall, s) a \<and> settled_calls_valid tool_table (snd a) \<longrightarrow>
      (\<exists>k. graph_steps (agent_graph llm) k (Run ''llmCall'' s) (loop_conc a)))"
proof (rule conjI; rule impI)
  assume "\<exists>k. graph_steps (agent_graph llm) k (Run ''llmCall'' s) c"
  then show "agent_inv c \<and> (tool_loop tool_table llm)\<^sup>*\<^sup>* (ModelCall, s) (loop_abs c)"
    using agent_steps_abs [where c = "Run ''llmCall'' s"] by fastforce
next
  assume "(tool_loop tool_table llm)\<^sup>*\<^sup>* (ModelCall, s) a \<and> settled_calls_valid tool_table (snd a)"
  then show "\<exists>k. graph_steps (agent_graph llm) k (Run ''llmCall'' s) (loop_conc a)"
    using tool_loop_steps_conc by blast
qed

theorem agent_reach_tool_loop_witness:
  "(tool_loop tool_table (scripted [('''', [add_3_4]), (''7'', [])]))\<^sup>*\<^sup>* (ModelCall, [HumanMessage ''Add 3 and 4.''])
     (Finished, [HumanMessage ''Add 3 and 4.'', AIMessage '''' [add_3_4],
                 ToolMessage (ONum (Fin 7)) ''call_1'', AIMessage ''7'' []]) \<and>
   (\<exists>k. graph_steps (agent_graph (scripted [('''', [add_3_4]), (''7'', [])])) k
       (Run ''llmCall'' [HumanMessage ''Add 3 and 4.''])
       (Halt [HumanMessage ''Add 3 and 4.'', AIMessage '''' [add_3_4],
              ToolMessage (ONum (Fin 7)) ''call_1'', AIMessage ''7'' []]))"
proof -
  let ?llm = "scripted [('''', [add_3_4]), (''7'', [])]"
  let ?s = "[HumanMessage ''Add 3 and 4.'']"
  let ?f = "[HumanMessage ''Add 3 and 4.'', AIMessage '''' [add_3_4],
             ToolMessage (ONum (Fin 7)) ''call_1'', AIMessage ''7'' []]"
  have g: "\<exists>k. graph_steps (agent_graph ?llm) k (Run ''llmCall'' ?s) (Halt ?f)"
    using walk_Done_steps [OF add_3_4_walk] by auto
  then have m: "(tool_loop tool_table ?llm)\<^sup>*\<^sup>* (ModelCall, ?s) (Finished, ?f)"
    using agent_reach_tool_loop [of ?llm ?s "Halt ?f"] by simp
  have v: "settled_calls_valid tool_table ?f"
    by (simp add: settled_calls_valid_def call_valid_def add_3_4_def tools_by_name_def add_tool_def
        multiply_tool_def divide_tool_def)
  from m v agent_reach_tool_loop [of ?llm ?s _ "(Finished, ?f)"] show ?thesis by simp
qed

text \<open>
  C7. Every tool message of a finished run answers a tool call of an earlier ai message
  (the pairing the chat model's API requires): \<open>toolNode\<close> tags each result with
  the id of the call it answers, and only answers the calls of the last ai message.
\<close>

theorem tool_msgs_answered_invariant:
  assumes "invoke (agent_graph llm) k init = Done s tr" "tool_msgs_answered init"
  shows "tool_msgs_answered s"
  using assms(1) unfolding invoke_agent
proof (rule walk_invariant)
  show "tool_msgs_answered init" by (rule assms(2))
next
  fix n f s' u
  assume "tool_msgs_answered s'" "map_of (sg_nodes (agent_graph llm)) n = Some f" "f s' = Inr u"
  then have "f = llmCall llm \<or> f = toolNode" using agent_node_cases by blast
  with \<open>tool_msgs_answered s'\<close> \<open>f s' = Inr u\<close>
  show "tool_msgs_answered (sg_reduce (agent_graph llm) s' u)"
    by (auto simp: add_messages_def intro: llmCall_answered toolNode_answered)
qed

theorem tool_msgs_answered_invariant_witness:
  "tool_msgs_answered [HumanMessage ''Add 3 and 4.''] \<and>
   tool_msgs_answered [HumanMessage ''Add 3 and 4.'', AIMessage '''' [add_3_4],
                       ToolMessage (ONum (Fin 7)) ''call_1'', AIMessage ''7'' []]"
proof
  show init: "tool_msgs_answered [HumanMessage ''Add 3 and 4.'']"
    by (simp add: tool_msgs_answered_def)
  show "tool_msgs_answered [HumanMessage ''Add 3 and 4.'', AIMessage '''' [add_3_4],
                       ToolMessage (ONum (Fin 7)) ''call_1'', AIMessage ''7'' []]"
  proof (rule tool_msgs_answered_invariant [OF _ init])
    show "invoke (agent_graph (scripted [('''', [add_3_4]), (''7'', [])])) 25 [HumanMessage ''Add 3 and 4.''] =
      Done [HumanMessage ''Add 3 and 4.'', AIMessage '''' [add_3_4],
            ToolMessage (ONum (Fin 7)) ''call_1'', AIMessage ''7'' []] [''llmCall'', ''toolNode'', ''llmCall'']"
      by (simp add: invoke_agent add_3_4_walk)
  qed
qed

end
