(* ===== verification/Promise_All.thy ===== *)
theory Promise_All
  imports Js_Values
begin

text \<open>
  \<open>Promise.all\<close> over already started, independent sub-tasks (the fan-out stage of
  spec section 4.3). The outcome of each sub-task is fixed (\<open>Inl\<close> a rejection,
  \<open>Inr\<close> a value); what the scheduler decides is the order in which they settle, a
  permutation of their indices. \<open>Promise.all\<close> stores each value in the slot of its
  index and resolves when every slot is filled; it rejects with the first rejection
  to settle.
\<close>

fun pa_settle :: "('e + 'a) list \<Rightarrow> nat list \<Rightarrow> 'a option list \<Rightarrow> 'e + 'a option list" where
  "pa_settle rs [] slots = Inr slots"
| "pa_settle rs (i # order) slots =
     (case rs ! i of
        Inl e \<Rightarrow> Inl e
      | Inr a \<Rightarrow> pa_settle rs order (slots[i := Some a]))"

definition promise_all :: "('e + 'a) list \<Rightarrow> nat list \<Rightarrow> 'e + 'a list" where
  "promise_all rs order =
     (case pa_settle rs order (replicate (length rs) None) of
        Inl e \<Rightarrow> Inl e
      | Inr slots \<Rightarrow> Inr (map the slots))"

definition settle_order :: "nat \<Rightarrow> nat list \<Rightarrow> bool" where
  "settle_order n order \<longleftrightarrow> distinct order \<and> set order = {..<n}"

lemma pa_settle_ok:
  assumes "\<forall>i \<in> set order. i < length rs \<and> \<not> isl (rs ! i)" "length slots = length rs"
  shows "pa_settle rs order slots =
     Inr (foldl (\<lambda>sl i. sl[i := Some (projr (rs ! i))]) slots order)"
  using assms
  by (induction order arbitrary: slots) (auto split: sum.splits)

lemma foldl_update_nth:
  assumes "distinct order" "\<forall>i \<in> set order. i < length sl"
  shows "j < length sl \<Longrightarrow>
    foldl (\<lambda>sl i. sl[i := Some (f i)]) sl order ! j = (if j \<in> set order then Some (f j) else sl ! j)"
  using assms
proof (induction order arbitrary: sl)
  case Nil
  then show ?case by simp
next
  case (Cons i order)
  then show ?case by (auto simp: nth_list_update)
qed

lemma pa_settle_first_Inl:
  "\<exists>i \<in> set order. i < length rs \<and> isl (rs ! i) \<Longrightarrow> \<forall>i \<in> set order. i < length rs \<Longrightarrow>
     \<exists>e. pa_settle rs order slots = Inl e \<and> Inl e \<in> set rs"
proof (induction order arbitrary: slots)
  case Nil
  then show ?case by simp
next
  case (Cons i order)
  show ?case
  proof (cases "rs ! i")
    case (Inl e)
    with Cons.prems show ?thesis by (auto, metis nth_mem)
  next
    case (Inr a)
    with Cons.prems have "\<exists>i \<in> set order. i < length rs \<and> isl (rs ! i)" by auto
    from Cons.IH [OF this] Cons.prems Inr show ?thesis by simp
  qed
qed

lemma pa_settle_Inl_in:
  "pa_settle rs order slots = Inl e \<Longrightarrow> \<forall>i \<in> set order. i < length rs \<Longrightarrow> Inl e \<in> set rs"
proof (induction order arbitrary: slots)
  case Nil
  then show ?case by simp
next
  case (Cons i order)
  then show ?case by (cases "rs ! i") (auto, metis nth_mem)
qed

lemma length_foldl_update: "length (foldl (\<lambda>sl i. sl[i := f i]) sl order) = length sl"
  by (induction order arbitrary: sl) auto

text \<open>Fan-out determinism: whatever the settle order, the values come in declaration order.\<close>

lemma promise_all_ok:
  assumes "settle_order (length rs) order" "\<forall>r \<in> set rs. \<not> isl r"
  shows "promise_all rs order = Inr (map projr rs)"
proof -
  let ?f = "\<lambda>i. projr (rs ! i)"
  let ?sl = "foldl (\<lambda>sl i. sl[i := Some (?f i)]) (replicate (length rs) None) order"
  have ok: "\<forall>i \<in> set order. i < length rs \<and> \<not> isl (rs ! i)"
    using assms by (auto simp: settle_order_def)
  have "pa_settle rs order (replicate (length rs) None) = Inr ?sl"
    using pa_settle_ok [OF ok] by simp
  moreover have "map the ?sl = map projr rs"
  proof (rule nth_equalityI)
    show "length (map the ?sl) = length (map projr rs)" by (simp add: length_foldl_update)
  next
    fix j assume "j < length (map the ?sl)"
    then have j: "j < length rs" by (simp add: length_foldl_update)
    have "?sl ! j = Some (?f j)"
      using foldl_update_nth [of order "replicate (length rs) None" j ?f] assms(1) j
      by (simp add: settle_order_def)
    with j show "map the ?sl ! j = map projr rs ! j" by (simp add: length_foldl_update)
  qed
  ultimately show ?thesis by (simp add: promise_all_def)
qed

text \<open>No partial success: the stage rejects exactly when a sub-task fails, with one of their errors.\<close>

lemma promise_all_reject:
  assumes "settle_order (length rs) order" "\<exists>r \<in> set rs. isl r"
  shows "\<exists>e. promise_all rs order = Inl e \<and> Inl e \<in> set rs"
proof -
  from assms obtain i where "i < length rs" "isl (rs ! i)"
    by (metis in_set_conv_nth)
  with assms(1) have "\<exists>i \<in> set order. i < length rs \<and> isl (rs ! i)" "\<forall>i \<in> set order. i < length rs"
    by (auto simp: settle_order_def)
  from pa_settle_first_Inl [OF this, of "replicate (length rs) None"] obtain e where
    "pa_settle rs order (replicate (length rs) None) = Inl e" "Inl e \<in> set rs" by blast
  then show ?thesis by (simp add: promise_all_def)
qed

lemma promise_all_isl_iff:
  "settle_order (length rs) order \<Longrightarrow> isl (promise_all rs order) \<longleftrightarrow> (\<exists>r \<in> set rs. isl r)"
  using promise_all_ok [of rs order] promise_all_reject [of rs order] by fastforce


end
