(* ===== verification/Functional_Agent.thy ===== *)
theory Functional_Agent
  imports Tool_Agent Promise_All
begin

text \<open>
  \<open>src/functional.ts\<close>: the tool-calling agent of \<open>src/graph.ts\<close> written with the
  functional API. \<open>callLlm\<close> and \<open>callTool\<close> are tasks; the entrypoint runs a
  \<open>while (true)\<close> loop that executes all tool calls of the last response with
  \<open>Promise.all\<close>, appends the response and the results, and asks the model again. The
  loop is \<open>agent_loop\<close>, a partial function in the option monad: \<open>None\<close> is a loop
  that never ends. Nothing bounds it: the tasks run inside the entrypoint's single node,
  so the recursion limit of the graph executor does not count the iterations.
  \<open>Promise.all\<close> is the model of \<open>Promise_All\<close>: the calls' tasks are all started,
  a scheduler decides the order in which they settle (it may depend on the transcript so
  far), the results come back in call order, and the first rejection to settle is the
  error reported.
\<close>

definition callLlm :: "chat_model \<Rightarrow> message list \<Rightarrow> string + message" where
  "callLlm llm messages =
     (case llm (SystemMessage arith_prompt # messages) of
        Inl e \<Rightarrow> Inl e
      | Inr (c, calls) \<Rightarrow> Inr (AIMessage c calls))"

definition callTool :: "tool_call \<Rightarrow> string + message" where
  "callTool toolCall =
     (case call_tool toolCall of
        Inl e \<Rightarrow> Inl (tool_error_msg e)
      | Inr result \<Rightarrow> Inr result)"

text \<open>The settle order of the \<open>n\<close> tool calls started when the transcript is \<open>ms\<close>.\<close>

type_synonym scheduler = "message list \<Rightarrow> nat \<Rightarrow> nat list"

definition sched_ok :: "scheduler \<Rightarrow> bool" where
  "sched_ok sched \<longleftrightarrow> (\<forall>ms n. settle_order n (sched ms n))"

text \<open>The tasks settle in the order they were started.\<close>

definition in_order :: scheduler where
  "in_order ms n = [0..<n]"


text \<open>\<open>await Promise.all(modelResponse.tool_calls.map((toolCall) => callTool(toolCall)))\<close>.\<close>

definition run_tools :: "scheduler \<Rightarrow> message list \<Rightarrow> tool_call list \<Rightarrow> string + message list" where
  "run_tools sched messages calls = promise_all (map callTool calls) (sched messages (length calls))"

partial_function (option) agent_loop ::
  "chat_model \<Rightarrow> scheduler \<Rightarrow> message list \<Rightarrow> message \<Rightarrow> (string + message list) option" where
  "agent_loop llm sched messages modelResponse =
     (if tool_calls_of modelResponse = [] then Some (Inr messages)
      else (case run_tools sched messages (tool_calls_of modelResponse) of
              Inl e \<Rightarrow> Some (Inl e)
            | Inr toolResults \<Rightarrow>
                (let messages' = add_messages messages (modelResponse # toolResults) in
                 case callLlm llm messages' of
                   Inl e \<Rightarrow> Some (Inl e)
                 | Inr r \<Rightarrow> agent_loop llm sched messages' r)))"

definition functional_agent :: "chat_model \<Rightarrow> scheduler \<Rightarrow> message list \<Rightarrow> (string + message list) option" where
  "functional_agent llm sched messages =
     (case callLlm llm messages of
        Inl e \<Rightarrow> Some (Inl e)
      | Inr modelResponse \<Rightarrow> agent_loop llm sched messages modelResponse)"


lemma sched_ok_in_order: "sched_ok in_order"
  by (simp add: sched_ok_def in_order_def settle_order_def lessThan_atLeast0)


lemma map_callTool_Inr: "map_seq call_tool cs = Inr rs \<Longrightarrow> map callTool cs = map Inr rs"
  by (rule nth_equalityI) (auto simp: map_seq_Inr_length map_seq_Inr_nth callTool_def)

text \<open>Whatever the settle order, the calls succeed together with the sequential loop, with the same results.\<close>

lemma run_tools_ok:
  assumes "sched_ok sched" "map_seq call_tool cs = Inr rs"
  shows "run_tools sched m cs = Inr rs"
proof -
  have "settle_order (length (map Inr rs :: (string + message) list)) (sched m (length cs))"
    using assms by (simp add: sched_ok_def map_seq_Inr_length)
  from promise_all_ok [OF this] map_callTool_Inr [OF assms(2)] show ?thesis
    by (simp add: run_tools_def comp_def)
qed

lemma run_tools_err:
  assumes "sched_ok sched" "map_seq call_tool cs = Inl e"
  shows "\<exists>c \<in> set cs. \<exists>te. call_tool c = Inl te \<and> run_tools sched m cs = Inl (tool_error_msg te)"
proof -
  from map_seq_Inl_first [OF assms(2)] obtain i where "i < length cs" "call_tool (cs ! i) = Inl e" by blast
  then have "callTool (cs ! i) \<in> set (map callTool cs)" "isl (callTool (cs ! i))"
    by (simp, simp add: callTool_def)
  then have "\<exists>r \<in> set (map callTool cs). isl r" by blast
  moreover have "settle_order (length (map callTool cs)) (sched m (length cs))"
    using assms(1) by (simp add: sched_ok_def)
  ultimately obtain e' where "promise_all (map callTool cs) (sched m (length cs)) = Inl e'" "Inl e' \<in> set (map callTool cs)"
    using promise_all_reject by blast
  then show ?thesis by (fastforce simp: run_tools_def callTool_def split: sum.splits)
qed

lemma run_tools_Inr:
  assumes "sched_ok sched" "run_tools sched m cs = Inr rs"
  shows "map_seq call_tool cs = Inr rs"
proof (cases "map_seq call_tool cs")
  case (Inl e)
  with run_tools_err [OF assms(1) Inl, of m] assms(2) show ?thesis by auto
next
  case (Inr rs')
  with run_tools_ok [OF assms(1) Inr, of m] assms(2) show ?thesis by simp
qed

lemma functional_agent_step:
  "llm (SystemMessage arith_prompt # m) = Inr (c, calls) \<Longrightarrow>
     functional_agent llm sched m = agent_loop llm sched m (AIMessage c calls)"
  by (simp add: functional_agent_def callLlm_def)

lemma agent_loop_plain: "agent_loop llm sched m (AIMessage c []) = Some (Inr m)"
  by (simp add: agent_loop.simps)

lemma agent_loop_tools:
  "sched_ok sched \<Longrightarrow> calls \<noteq> [] \<Longrightarrow> map_seq call_tool calls = Inr rs \<Longrightarrow>
     agent_loop llm sched m (AIMessage c calls) = functional_agent llm sched (m @ AIMessage c calls # rs)"
  by (simp add: agent_loop.simps [of llm sched m] run_tools_ok add_messages_def functional_agent_def
      split: sum.splits)

text \<open>A failing call ends the loop with the error of one of the failing calls.\<close>

lemma agent_loop_tool_error:
  assumes "sched_ok sched" "calls \<noteq> []" "map_seq call_tool calls = Inl e"
  shows "\<exists>c' \<in> set calls. \<exists>te. call_tool c' = Inl te \<and>
     agent_loop llm sched m (AIMessage c calls) = Some (Inl (tool_error_msg te))"
proof -
  from run_tools_err [OF assms(1,3), of m] obtain c' te where
    "c' \<in> set calls" "call_tool c' = Inl te" "run_tools sched m calls = Inl (tool_error_msg te)" by blast
  with assms(2) show ?thesis
    by (intro bexI [of _ c'] exI [of _ te]) (simp_all add: agent_loop.simps [of llm sched m])
qed

lemma walk_llmCall_Inl:
  "llm (SystemMessage arith_prompt # m) = Inl e \<Longrightarrow>
     walk (agent_graph llm) (Suc k) ''llmCall'' m tr = Failed (ExecutionError ''llmCall'' e) tr"
  by (simp add: llmCall_def)

lemma walk_toolNode_Inl:
  "map_seq call_tool calls = Inl e \<Longrightarrow>
     walk (agent_graph llm) (Suc k) ''toolNode'' (m @ [AIMessage c calls]) tr =
       Failed (ExecutionError ''toolNode'' (tool_error_msg e)) tr"
  by (simp add: toolNode_snoc_ai)

text \<open>The graph's finished runs are the functional agent's, with the final answer kept.\<close>

lemma walk_functional:
  "sched_ok sched \<Longrightarrow> walk (agent_graph llm) k ''llmCall'' m tr = Done s tr' \<Longrightarrow>
     \<exists>r c. s = r @ [AIMessage c []] \<and> functional_agent llm sched m = Some (Inr r)"
proof (induction k arbitrary: m tr rule: less_induct)
  case (less k)
  obtain k1 where k: "k = Suc k1" using less.prems by (cases k) auto
  obtain c calls where h: "llm (SystemMessage arith_prompt # m) = Inr (c, calls)"
    using less.prems walk_llmCall_Inl unfolding k
    by (cases "llm (SystemMessage arith_prompt # m)") fastforce+
  have f: "functional_agent llm sched m = agent_loop llm sched m (AIMessage c calls)"
    by (rule functional_agent_step [where llm = llm, OF h])
  show ?case
  proof (cases "calls = []")
    case True
    have "walk (agent_graph llm) k ''llmCall'' m tr = Done (m @ [AIMessage c []]) (tr @ [''llmCall''])"
      unfolding k by (subst walk_llmCall [where llm = llm, OF h]) (simp add: True)
    with less.prems have "s = m @ [AIMessage c []]" by simp
    with True show ?thesis by (intro exI [of _ m] exI [of _ c]) (simp add: f agent_loop_plain)
  next
    case False
    have "walk (agent_graph llm) k ''llmCall'' m tr = walk (agent_graph llm) k1 ''toolNode'' (m @ [AIMessage c calls]) (tr @ [''llmCall''])"
      unfolding k by (subst walk_llmCall [where llm = llm, OF h]) (simp add: False)
    with less.prems have w: "walk (agent_graph llm) k1 ''toolNode'' (m @ [AIMessage c calls]) (tr @ [''llmCall'']) = Done s tr'"
      by simp
    then obtain k2 where k1: "k1 = Suc k2" by (cases k1) auto
    obtain rs where rs: "map_seq call_tool calls = Inr rs"
      using w walk_toolNode_Inl unfolding k1 by (cases "map_seq call_tool calls") fastforce+
    from w have "walk (agent_graph llm) k2 ''llmCall'' (m @ AIMessage c calls # rs) ((tr @ [''llmCall'']) @ [''toolNode'']) = Done s tr'"
      unfolding k1 walk_toolNode [OF rs] .
    from less.IH [OF _ less.prems(1) this] k k1 obtain r c' where
      "s = r @ [AIMessage c' []]" "functional_agent llm sched (m @ AIMessage c calls # rs) = Some (Inr r)"
      by auto
    with f False rs less.prems(1) show ?thesis by (auto simp: agent_loop_tools)
  qed
qed

text \<open>Conversely every answer of the loop is a run of the compiled graph.\<close>

lemma agent_loop_steps:
  assumes "agent_loop llm sched m resp = Some y"
  shows "sched_ok sched \<longrightarrow> (\<forall>r c calls. y = Inr r \<longrightarrow> resp = AIMessage c calls \<longrightarrow>
       (\<exists>n c'. graph_steps (agent_graph llm) n
          (if calls = [] then Halt (m @ [resp]) else Run ''toolNode'' (m @ [resp])) (Halt (r @ [AIMessage c' []]))))"
proof (rule agent_loop.raw_induct [where P = "\<lambda>llm sched m resp y. sched_ok sched \<longrightarrow> (\<forall>r c calls. y = Inr r \<longrightarrow> resp = AIMessage c calls \<longrightarrow>
       (\<exists>n c'. graph_steps (agent_graph llm) n
          (if calls = [] then Halt (m @ [resp]) else Run ''toolNode'' (m @ [resp])) (Halt (r @ [AIMessage c' []]))))", OF _ assms])
  fix f :: "chat_model \<Rightarrow> scheduler \<Rightarrow> message list \<Rightarrow> message \<Rightarrow> (string + message list) option"
    and llm sched m resp y
  assume IH: "\<And>llm sched m resp y. f llm sched m resp = Some y \<Longrightarrow> sched_ok sched \<longrightarrow>
     (\<forall>r c calls. y = Inr r \<longrightarrow> resp = AIMessage c calls \<longrightarrow>
       (\<exists>n c'. graph_steps (agent_graph llm) n
          (if calls = [] then Halt (m @ [resp]) else Run ''toolNode'' (m @ [resp])) (Halt (r @ [AIMessage c' []]))))"
    and body: "(if tool_calls_of resp = [] then Some (Inr m)
      else (case run_tools sched m (tool_calls_of resp) of
              Inl e \<Rightarrow> Some (Inl e)
            | Inr toolResults \<Rightarrow>
                (let messages' = add_messages m (resp # toolResults) in
                 case callLlm llm messages' of
                   Inl e \<Rightarrow> Some (Inl e)
                 | Inr r \<Rightarrow> f llm sched messages' r))) = Some y"
  show "sched_ok sched \<longrightarrow> (\<forall>r c calls. y = Inr r \<longrightarrow> resp = AIMessage c calls \<longrightarrow>
       (\<exists>n c'. graph_steps (agent_graph llm) n
          (if calls = [] then Halt (m @ [resp]) else Run ''toolNode'' (m @ [resp])) (Halt (r @ [AIMessage c' []]))))"
  proof (intro impI allI)
    assume so: "sched_ok sched"
    fix r c calls
    assume y: "y = Inr r" and resp: "resp = AIMessage c calls"
    show "\<exists>n c'. graph_steps (agent_graph llm) n
          (if calls = [] then Halt (m @ [resp]) else Run ''toolNode'' (m @ [resp])) (Halt (r @ [AIMessage c' []]))"
    proof (cases "calls = []")
      case True
      with body y resp show ?thesis by (auto intro: graph_steps.steps_refl)
    next
      case False
      with body resp y obtain rs r' where rt: "run_tools sched m calls = Inr rs"
        and l: "callLlm llm (m @ AIMessage c calls # rs) = Inr r'"
        and fr: "f llm sched (m @ AIMessage c calls # rs) r' = Some y"
        by (auto simp: add_messages_def Let_def split: sum.splits)
      have rs: "map_seq call_tool calls = Inr rs" by (rule run_tools_Inr [OF so rt])
      from l obtain c2 calls2 where h: "llm (SystemMessage arith_prompt # m @ AIMessage c calls # rs) = Inr (c2, calls2)"
        and r': "r' = AIMessage c2 calls2"
        by (auto simp: callLlm_def split: sum.splits)
      from IH [OF fr] so y r' obtain n c' where
        n: "graph_steps (agent_graph llm) n
          (if calls2 = [] then Halt ((m @ AIMessage c calls # rs) @ [r']) else Run ''toolNode'' ((m @ AIMessage c calls # rs) @ [r']))
          (Halt (r @ [AIMessage c' []]))" by blast
      have "graph_step (agent_graph llm) (Run ''toolNode'' (m @ [AIMessage c calls])) (Run ''llmCall'' (m @ AIMessage c calls # rs))"
        using rs by (auto simp: agent_step_toolNode)
      moreover have "graph_step (agent_graph llm) (Run ''llmCall'' (m @ AIMessage c calls # rs))
          (if calls2 = [] then Halt ((m @ AIMessage c calls # rs) @ [r']) else Run ''toolNode'' ((m @ AIMessage c calls # rs) @ [r']))"
        unfolding r' by (rule agent_step_llmCall_I [where llm = llm, OF h])
      ultimately show ?thesis using n False resp
        by (auto intro!: graph_steps.steps_step)
    qed
  qed
qed

lemma agent_loop_always_tools:
  assumes "agent_loop llm sched m resp = Some y"
  shows "sched_ok sched \<longrightarrow> (\<forall>msgs. \<exists>c calls. llm (SystemMessage arith_prompt # msgs) = Inr (c, calls) \<and> calls \<noteq> [] \<and> calls_ok calls) \<longrightarrow>
     tool_calls_of resp \<noteq> [] \<longrightarrow> \<not> calls_ok (tool_calls_of resp)"
proof (rule agent_loop.raw_induct [where P = "\<lambda>llm sched m resp y. sched_ok sched \<longrightarrow>
     (\<forall>msgs. \<exists>c calls. llm (SystemMessage arith_prompt # msgs) = Inr (c, calls) \<and> calls \<noteq> [] \<and> calls_ok calls) \<longrightarrow>
     tool_calls_of resp \<noteq> [] \<longrightarrow> \<not> calls_ok (tool_calls_of resp)", OF _ assms])
  fix f :: "chat_model \<Rightarrow> scheduler \<Rightarrow> message list \<Rightarrow> message \<Rightarrow> (string + message list) option"
    and llm sched m resp y
  assume IH: "\<And>llm sched m resp y. f llm sched m resp = Some y \<Longrightarrow> sched_ok sched \<longrightarrow>
     (\<forall>msgs. \<exists>c calls. llm (SystemMessage arith_prompt # msgs) = Inr (c, calls) \<and> calls \<noteq> [] \<and> calls_ok calls) \<longrightarrow>
     tool_calls_of resp \<noteq> [] \<longrightarrow> \<not> calls_ok (tool_calls_of resp)"
    and body: "(if tool_calls_of resp = [] then Some (Inr m)
      else (case run_tools sched m (tool_calls_of resp) of
              Inl e \<Rightarrow> Some (Inl e)
            | Inr toolResults \<Rightarrow>
                (let messages' = add_messages m (resp # toolResults) in
                 case callLlm llm messages' of
                   Inl e \<Rightarrow> Some (Inl e)
                 | Inr r \<Rightarrow> f llm sched messages' r))) = Some y"
  show "sched_ok sched \<longrightarrow> (\<forall>msgs. \<exists>c calls. llm (SystemMessage arith_prompt # msgs) = Inr (c, calls) \<and> calls \<noteq> [] \<and> calls_ok calls) \<longrightarrow>
     tool_calls_of resp \<noteq> [] \<longrightarrow> \<not> calls_ok (tool_calls_of resp)"
  proof (intro impI notI)
    assume so: "sched_ok sched" and always: "\<forall>msgs. \<exists>c calls. llm (SystemMessage arith_prompt # msgs) = Inr (c, calls) \<and> calls \<noteq> [] \<and> calls_ok calls"
      and nz: "tool_calls_of resp \<noteq> []" and ok: "calls_ok (tool_calls_of resp)"
    from always obtain c2 calls2 where
      h: "llm (SystemMessage arith_prompt # m @ resp # tool_results (tool_calls_of resp)) = Inr (c2, calls2)"
      and c2: "calls2 \<noteq> []" "calls_ok calls2" by blast
    from body nz ok h have "f llm sched (m @ resp # tool_results (tool_calls_of resp)) (AIMessage c2 calls2) = Some y"
      by (simp add: run_tools_ok [OF so map_seq_calls_ok [OF ok]] add_messages_def callLlm_def)
    from IH [OF this] so always c2 show False by simp
  qed
qed

subsection \<open>Properties of the functional agent\<close>

text \<open>
  C8. The functional agent and the graph agent of \<open>src/graph.ts\<close> agree, up to the
  final answer, whatever the order in which the tool calls settle: the functional agent
  returns a transcript \<open>r\<close> exactly when the compiled graph, given a large enough
  recursion limit, finishes with \<open>r\<close> followed by an ai message without tool calls. The
  \<open>while\<close> loop breaks before appending that last response, so the functional agent's
  result never contains the model's final answer.
\<close>

theorem functional_agent_graph_equiv:
  assumes so: "sched_ok sched"
  shows "functional_agent llm sched m = Some (Inr r) \<longleftrightarrow>
     (\<exists>k tr c. invoke (agent_graph llm) k m = Done (r @ [AIMessage c []]) tr)"
proof
  assume fa: "functional_agent llm sched m = Some (Inr r)"
  then obtain c calls where h: "llm (SystemMessage arith_prompt # m) = Inr (c, calls)"
    by (cases "llm (SystemMessage arith_prompt # m)") (auto simp: functional_agent_def callLlm_def)
  from fa have "agent_loop llm sched m (AIMessage c calls) = Some (Inr r)"
    by (simp add: functional_agent_step [where llm = llm, OF h])
  from agent_loop_steps [OF this] so obtain n c' where
    n: "graph_steps (agent_graph llm) n
      (if calls = [] then Halt (m @ [AIMessage c calls]) else Run ''toolNode'' (m @ [AIMessage c calls]))
      (Halt (r @ [AIMessage c' []]))" by blast
  have "graph_steps (agent_graph llm) (Suc n) (Run ''llmCall'' m) (Halt (r @ [AIMessage c' []]))"
    using graph_steps.steps_step [OF agent_step_llmCall_I [where llm = llm, OF h] n] .
  from steps_walk_Done [OF this order_refl, of "[]"] obtain ns where
    "walk (agent_graph llm) (Suc n) ''llmCall'' m [] = Done (r @ [AIMessage c' []]) ns" by auto
  then show "\<exists>k tr c. invoke (agent_graph llm) k m = Done (r @ [AIMessage c []]) tr"
    unfolding invoke_agent by blast
next
  assume "\<exists>k tr c. invoke (agent_graph llm) k m = Done (r @ [AIMessage c []]) tr"
  then obtain k tr c where "walk (agent_graph llm) k ''llmCall'' m [] = Done (r @ [AIMessage c []]) tr"
    by (auto simp: invoke_agent)
  from walk_functional [OF so this] show "functional_agent llm sched m = Some (Inr r)" by auto
qed

theorem functional_agent_graph_equiv_witness:
  "functional_agent (scripted [('''', [add_3_4]), (''7'', [])]) in_order [HumanMessage ''Add 3 and 4.''] =
     Some (Inr [HumanMessage ''Add 3 and 4.'', AIMessage '''' [add_3_4], ToolMessage (ONum (Fin 7)) ''call_1''])"
  unfolding functional_agent_graph_equiv [OF sched_ok_in_order]
  by (rule exI [of _ 25], rule exI [of _ "[''llmCall'', ''toolNode'', ''llmCall'']"], rule exI [of _ "''7''"])
     (simp add: invoke_agent add_3_4_walk)

text \<open>
  C9. Termination of the \<open>while\<close> loop: when the model answers with \<open>k\<close> ai
  messages whose tool calls are all valid, and then with one that carries none, the
  functional agent returns, whatever the settle order of the calls, and its result is the
  initial transcript followed by each round (the ai message and one tool message per
  call, in call order), without the final ai message.
\<close>

theorem functional_agent_rounds:
  assumes "sched_ok sched"
    and "\<forall>j < length rs. llm (SystemMessage arith_prompt # init @ concat (map round_msgs (take j rs))) = Inr (rs ! j)"
    and "llm (SystemMessage arith_prompt # init @ concat (map round_msgs rs)) = Inr (fc, [])"
    and "\<forall>r \<in> set rs. snd r \<noteq> [] \<and> calls_ok (snd r)"
  shows "functional_agent llm sched init = Some (Inr (init @ concat (map round_msgs rs)))"
  using assms(2-)
proof (induction rs arbitrary: init)
  case Nil
  from Nil.prems(2) have "llm (SystemMessage arith_prompt # init) = Inr (fc, [])" by simp
  then show ?case by (simp add: functional_agent_step [where llm = llm] agent_loop_plain)
next
  case (Cons r rs)
  obtain c calls where r: "r = (c, calls)" by (cases r)
  from Cons.prems(1) r have first: "llm (SystemMessage arith_prompt # init) = Inr (c, calls)"
    by (drule_tac x = 0 in spec) simp
  from Cons.prems(3) r have calls: "calls \<noteq> []" "calls_ok calls" by auto
  have IH: "functional_agent llm sched (init @ round_msgs r) = Some (Inr ((init @ round_msgs r) @ concat (map round_msgs rs)))"
  proof (rule Cons.IH)
    show "\<forall>j < length rs. llm (SystemMessage arith_prompt # (init @ round_msgs r) @ concat (map round_msgs (take j rs))) = Inr (rs ! j)"
      by (rule rounds_prems_shift [OF Cons.prems(1)])
    show "llm (SystemMessage arith_prompt # (init @ round_msgs r) @ concat (map round_msgs rs)) = Inr (fc, [])"
      using Cons.prems(2) by simp
    show "\<forall>r \<in> set rs. snd r \<noteq> [] \<and> calls_ok (snd r)" using Cons.prems(3) by simp
  qed
  have "functional_agent llm sched init = functional_agent llm sched (init @ round_msgs r)"
    using functional_agent_step [where llm = llm, OF first]
      agent_loop_tools [OF assms(1) calls(1) map_seq_calls_ok [OF calls(2)]]
    by (simp add: r round_msgs_def)
  with IH show ?case by simp
qed

theorem functional_agent_rounds_witness:
  "functional_agent (scripted [('''', [add_3_4]), (''7'', [])]) in_order [HumanMessage ''Add 3 and 4.''] =
     Some (Inr ([HumanMessage ''Add 3 and 4.''] @ concat (map round_msgs [('''', [add_3_4])])))"
  by (rule functional_agent_rounds [where fc = "''7''"])
     (simp_all add: sched_ok_in_order scripted_def round_msgs_def tool_results_def call_tool_add_3_4 calls_ok_def)

text \<open>
  The spec's concrete scenario (section 8) run through the functional agent of
  \<open>part_001\<close>, in every settle order: the agent returns three messages, the human question, the ai
  message with the call \<open>add(3, 4)\<close> and the tool message \<open>7\<close>; the model's final
  answer \<open>"7"\<close>, the fourth message the spec expects, is dropped.
\<close>

theorem functional_add_3_and_4:
  assumes so: "sched_ok sched"
  shows "functional_agent (scripted [('''', [add_3_4]), (''7'', [])]) sched [HumanMessage ''Add 3 and 4.''] =
     Some (Inr [HumanMessage ''Add 3 and 4.'', AIMessage '''' [add_3_4], ToolMessage (ONum (Fin 7)) ''call_1''])"
proof -
  have h1: "scripted [('''', [add_3_4]), (''7'', [])] (SystemMessage arith_prompt # [HumanMessage ''Add 3 and 4.'']) =
      Inr ('''', [add_3_4])" by (simp add: scripted_def)
  have h2: "scripted [('''', [add_3_4]), (''7'', [])]
      (SystemMessage arith_prompt # [HumanMessage ''Add 3 and 4.'', AIMessage '''' [add_3_4], ToolMessage (ONum (Fin 7)) ''call_1'']) =
      Inr (''7'', [])" by (simp add: scripted_def)
  have t: "map_seq call_tool [add_3_4] = Inr [ToolMessage (ONum (Fin 7)) ''call_1'']"
    by (simp add: call_tool_add_3_4)
  show ?thesis
    by (simp add: functional_agent_step [where llm = "scripted [('''', [add_3_4]), (''7'', [])]", OF h1]
        agent_loop_tools [OF so _ t]
        functional_agent_step [where llm = "scripted [('''', [add_3_4]), (''7'', [])]", OF h2] agent_loop_plain)
qed

theorem functional_add_3_and_4_witness:
  "functional_agent (scripted [('''', [add_3_4]), (''7'', [])]) in_order [HumanMessage ''Add 3 and 4.''] =
     Some (Inr [HumanMessage ''Add 3 and 4.'', AIMessage '''' [add_3_4], ToolMessage (ONum (Fin 7)) ''call_1''])"
  by (rule functional_add_3_and_4 [OF sched_ok_in_order])

text \<open>
  C11. The \<open>while (true)\<close> loop has no bound: with a model that asks for a valid tool
  call every time, the functional agent never returns (its value is \<open>None\<close>), whatever
  the settle order. The spec (4.2) relies on the executor's step limit as the loop's
  safety net; the graph version fails with \<open>StepLimitExceeded\<close> (C2), the functional
  version runs forever.
\<close>

theorem functional_agent_diverges:
  assumes so: "sched_ok sched"
    and always: "\<forall>msgs. \<exists>c calls. llm (SystemMessage arith_prompt # msgs) = Inr (c, calls) \<and> calls \<noteq> [] \<and> calls_ok calls"
  shows "functional_agent llm sched m = None"
proof (rule ccontr)
  assume "functional_agent llm sched m \<noteq> None"
  then obtain y where fy: "functional_agent llm sched m = Some y" by blast
  from always obtain c calls where h: "llm (SystemMessage arith_prompt # m) = Inr (c, calls)"
    and calls: "calls \<noteq> []" "calls_ok calls" by blast
  from fy have "agent_loop llm sched m (AIMessage c calls) = Some y"
    by (simp add: functional_agent_step [where llm = llm, OF h])
  from agent_loop_always_tools [OF this] so always calls show False by simp
qed

theorem functional_agent_diverges_witness:
  "functional_agent (\<lambda>msgs. Inr ('''', [add_3_4])) in_order [HumanMessage ''Add 3 and 4.''] = None"
  by (rule functional_agent_diverges [OF sched_ok_in_order]) (simp add: calls_ok_def call_tool_add_3_4)



end
