(* ===== verification/Functional_Logged.thy ===== *)
theory Functional_Logged
  imports Functional_Agent
begin

text \<open>
  \<open>src/functional.ts\<close> and \<open>src/src/functional/functional-trace.ts\<close>: the functional
  agent of \<open>Functional_Agent\<close> with the console output these two files add. A console
  line is kept as the values it prints (the Japanese banners, the box-drawing rules and
  the number formatting are not modelled). \<open>callLlm\<close> prints the messages it sends,
  \<open>callTool\<close> prints the call when it starts and the result when the tool returns, the
  entrypoint prints a banner, one line per iteration with its counter and the number of
  calls, and a line when the loop ends; the top level prints the returned transcript.
  The tool tasks of one iteration start in call order, each printing its call line
  before any tool settles; a result line is printed when its task settles, so the result
  lines come in the scheduler's settle order, up to the first rejection (which fails the
  run). \<open>functional-trace.ts\<close> is the same program with a Langfuse callback handler,
  another banner and a closing line pointing at the Langfuse UI; the callbacks do not
  change any value.
\<close>

datatype console_line =
    AgentStart bool
  | PromptDump "message list"
  | ToolCallLine string json
  | ToolResultLine message
  | IterationLine nat nat
  | NoToolCallsLine
  | ResultsHeader
  | ResultLine message
  | ToolCallsLine "tool_call list"
  | ResultsFooter
  | LangfuseNotice

definition callLlm_logged :: "chat_model \<Rightarrow> message list \<Rightarrow> console_line list \<times> (string + message)" where
  "callLlm_logged llm messages =
     (let messagesToSend = SystemMessage arith_prompt # messages in
      ([PromptDump messagesToSend],
       case llm messagesToSend of
         Inl e \<Rightarrow> Inl e
       | Inr (c, calls) \<Rightarrow> Inr (AIMessage c calls)))"

text \<open>
  The task \<open>callTool\<close>: the line it prints when it starts, and what it prints and
  returns when it settles (a failing \<open>tool.invoke\<close> throws before the result line).
\<close>

definition callTool_logged :: "tool_call \<Rightarrow> console_line \<times> console_line list \<times> (string + message)" where
  "callTool_logged toolCall =
     (ToolCallLine (tc_name toolCall) (tc_args toolCall),
      case call_tool toolCall of
        Inl e \<Rightarrow> ([], Inl (tool_error_msg e))
      | Inr result \<Rightarrow> ([ToolResultLine result], Inr result))"

text \<open>\<open>await Promise.all(modelResponse.tool_calls.map((toolCall) => callTool(toolCall)))\<close>.\<close>

definition run_tools_logged :: "scheduler \<Rightarrow> message list \<Rightarrow> tool_call list \<Rightarrow> console_line list \<times> (string + message list)" where
  "run_tools_logged sched messages calls =
     (let tasks = map callTool_logged calls;
          order = sched messages (length calls);
          settled = takeWhile (\<lambda>i. \<not> isl (snd (snd (tasks ! i)))) order in
      (map fst tasks @ concat (map (\<lambda>i. fst (snd (tasks ! i))) settled),
       promise_all (map (\<lambda>t. snd (snd t)) tasks) order))"

partial_function (option) agent_loop_logged ::
  "chat_model \<Rightarrow> scheduler \<Rightarrow> message list \<Rightarrow> message \<Rightarrow> nat \<Rightarrow> (console_line list \<times> (string + message list)) option" where
  "agent_loop_logged llm sched messages modelResponse iteration =
     (if tool_calls_of modelResponse = [] then Some ([NoToolCallsLine], Inr messages)
      else (let calls = tool_calls_of modelResponse;
                (toolLog, toolResults) = run_tools_logged sched messages calls;
                log = IterationLine iteration (length calls) # toolLog in
            case toolResults of
              Inl e \<Rightarrow> Some (log, Inl e)
            | Inr rs \<Rightarrow>
                (let messages' = add_messages messages (modelResponse # rs);
                     (llmLog, resp) = callLlm_logged llm messages' in
                 case resp of
                   Inl e \<Rightarrow> Some (log @ llmLog, Inl e)
                 | Inr r \<Rightarrow>
                     Option.bind (agent_loop_logged llm sched messages' r (Suc iteration))
                       (\<lambda>(restLog, res). Some (log @ llmLog @ restLog, res)))))"

text \<open>The entrypoint \<open>agent\<close>; \<open>traced\<close> selects the banner of \<open>functional-trace.ts\<close>.\<close>

definition agent_logged :: "bool \<Rightarrow> chat_model \<Rightarrow> scheduler \<Rightarrow> message list \<Rightarrow> (console_line list \<times> (string + message list)) option" where
  "agent_logged traced llm sched messages =
     (let (llmLog, resp) = callLlm_logged llm messages in
      case resp of
        Inl e \<Rightarrow> Some (AgentStart traced # llmLog, Inl e)
      | Inr modelResponse \<Rightarrow>
          Option.bind (agent_loop_logged llm sched messages modelResponse 1)
            (\<lambda>(loopLog, res). Some (AgentStart traced # llmLog @ loopLog, res)))"

text \<open>The entrypoint of \<open>functional-trace.ts\<close>: the same loop, announced with the Langfuse banner.\<close>

definition functional_trace_agent :: "chat_model \<Rightarrow> scheduler \<Rightarrow> message list \<Rightarrow> (console_line list \<times> (string + message list)) option" where
  "functional_trace_agent llm sched messages = agent_logged True llm sched messages"

text \<open>The body of the final \<open>for\<close> loop: the message, then the tool calls of an ai message that has some.\<close>

definition print_message :: "message \<Rightarrow> console_line list" where
  "print_message message =
     ResultLine message # (if msg_type message = ''ai'' \<and> tool_calls_of message \<noteq> [] then [ToolCallsLine (tool_calls_of message)] else [])"

definition print_results :: "message list \<Rightarrow> console_line list" where
  "print_results result = ResultsHeader # concat (map print_message result) @ [ResultsFooter]"

text \<open>
  The top level of \<open>functional.ts\<close>: the console output, and the error the top-level
  \<open>await\<close> throws if the agent fails (then nothing is printed after the agent's lines).
\<close>

definition functional_main :: "chat_model \<Rightarrow> scheduler \<Rightarrow> (console_line list \<times> string option) option" where
  "functional_main llm sched =
     Option.bind (agent_logged False llm sched [HumanMessage ''Add 3 and 4.''])
       (\<lambda>(log, res). Some (case res of
                             Inl e \<Rightarrow> (log, Some e)
                           | Inr result \<Rightarrow> (log @ print_results result, None)))"

text \<open>The top level of \<open>functional-trace.ts\<close>, which ends with the line pointing at Langfuse.\<close>

definition functional_trace_main :: "chat_model \<Rightarrow> scheduler \<Rightarrow> (console_line list \<times> string option) option" where
  "functional_trace_main llm sched =
     Option.bind (functional_trace_agent llm sched [HumanMessage ''Add 3 and 4.''])
       (\<lambda>(log, res). Some (case res of
                             Inl e \<Rightarrow> (log, Some e)
                           | Inr result \<Rightarrow> (log @ print_results result @ [LangfuseNotice], None)))"

lemma callLlm_logged_snd: "snd (callLlm_logged llm m) = callLlm llm m"
  by (simp add: callLlm_logged_def callLlm_def Let_def)

lemma run_tools_logged_snd: "snd (run_tools_logged sched m calls) = run_tools sched m calls"
proof -
  have "(\<lambda>t. snd (snd t)) \<circ> callTool_logged = callTool"
    by (rule ext) (simp add: callTool_logged_def callTool_def split: sum.split)
  then show ?thesis by (simp add: run_tools_logged_def run_tools_def Let_def)
qed

text \<open>The logged loop returns what the plain loop returns (and only that).\<close>

lemma agent_loop_logged_sound:
  assumes "agent_loop_logged llm sched m r i = Some z"
  shows "agent_loop llm sched m r = Some (snd z)"
proof (rule agent_loop_logged.raw_induct [where P = "\<lambda>llm sched m r i z. agent_loop llm sched m r = Some (snd z)", OF _ assms])
  fix f :: "chat_model \<Rightarrow> scheduler \<Rightarrow> message list \<Rightarrow> message \<Rightarrow> nat \<Rightarrow> (console_line list \<times> (string + message list)) option"
    and llm sched m r i z
  assume IH: "\<And>llm sched m r i z. f llm sched m r i = Some z \<Longrightarrow> agent_loop llm sched m r = Some (snd z)"
    and body: "(if tool_calls_of r = [] then Some ([NoToolCallsLine], Inr m)
      else (let calls = tool_calls_of r;
                (toolLog, toolResults) = run_tools_logged sched m calls;
                log = IterationLine i (length calls) # toolLog in
            case toolResults of
              Inl e \<Rightarrow> Some (log, Inl e)
            | Inr rs \<Rightarrow>
                (let messages' = add_messages m (r # rs);
                     (llmLog, resp) = callLlm_logged llm messages' in
                 case resp of
                   Inl e \<Rightarrow> Some (log @ llmLog, Inl e)
                 | Inr r \<Rightarrow>
                     Option.bind (f llm sched messages' r (Suc i))
                       (\<lambda>(restLog, res). Some (log @ llmLog @ restLog, res))))) = Some z"
  show "agent_loop llm sched m r = Some (snd z)"
  proof (cases "tool_calls_of r = []")
    case True
    with body show ?thesis by (subst agent_loop.simps) auto
  next
    case calls: False
    obtain toolLog tr where t: "run_tools_logged sched m (tool_calls_of r) = (toolLog, tr)" by fastforce
    then have tr: "run_tools sched m (tool_calls_of r) = tr"
      using run_tools_logged_snd [of sched m "tool_calls_of r"] by simp
    show ?thesis
    proof (cases tr)
      case (Inl e)
      with body calls t tr show ?thesis by (subst agent_loop.simps) auto
    next
      case (Inr rs)
      note tools = Inr
      obtain llmLog resp where l: "callLlm_logged llm (add_messages m (r # rs)) = (llmLog, resp)" by fastforce
      then have c: "callLlm llm (add_messages m (r # rs)) = resp"
        using callLlm_logged_snd [of llm "add_messages m (r # rs)"] by simp
      show ?thesis
      proof (cases resp)
        case (Inl e)
        with body calls t tr tools l c show ?thesis by (subst agent_loop.simps) auto
      next
        case (Inr r')
        with body calls t tools l obtain z' where fz: "f llm sched (add_messages m (r # rs)) r' (Suc i) = Some z'"
          and z: "z = (IterationLine i (length (tool_calls_of r)) # toolLog @ llmLog @ fst z', snd z')"
          by (auto simp: Let_def split: Option.bind_splits)
        from IH [OF fz] calls tr tools c Inr z show ?thesis by (subst agent_loop.simps) simp
      qed
    qed
  qed
qed

lemma agent_loop_logged_complete:
  assumes "agent_loop llm sched m r = Some y"
  shows "\<forall>i. \<exists>l. agent_loop_logged llm sched m r i = Some (l, y)"
proof (rule agent_loop.raw_induct [where P = "\<lambda>llm sched m r y. \<forall>i. \<exists>l. agent_loop_logged llm sched m r i = Some (l, y)", OF _ assms])
  fix f :: "chat_model \<Rightarrow> scheduler \<Rightarrow> message list \<Rightarrow> message \<Rightarrow> (string + message list) option"
    and llm sched m r y
  assume IH: "\<And>llm sched m r y. f llm sched m r = Some y \<Longrightarrow> \<forall>i. \<exists>l. agent_loop_logged llm sched m r i = Some (l, y)"
    and body: "(if tool_calls_of r = [] then Some (Inr m)
      else (case run_tools sched m (tool_calls_of r) of
              Inl e \<Rightarrow> Some (Inl e)
            | Inr toolResults \<Rightarrow>
                (let messages' = add_messages m (r # toolResults) in
                 case callLlm llm messages' of
                   Inl e \<Rightarrow> Some (Inl e)
                 | Inr r \<Rightarrow> f llm sched messages' r))) = Some y"
  show "\<forall>i. \<exists>l. agent_loop_logged llm sched m r i = Some (l, y)"
  proof
    fix i
    show "\<exists>l. agent_loop_logged llm sched m r i = Some (l, y)"
    proof (cases "tool_calls_of r = []")
      case True
      with body show ?thesis by (subst agent_loop_logged.simps) auto
    next
      case calls: False
      obtain toolLog tr where t: "run_tools_logged sched m (tool_calls_of r) = (toolLog, tr)" by fastforce
      then have tr: "run_tools sched m (tool_calls_of r) = tr"
        using run_tools_logged_snd [of sched m "tool_calls_of r"] by simp
      show ?thesis
      proof (cases tr)
        case (Inl e)
        with body calls t tr show ?thesis by (subst agent_loop_logged.simps) auto
      next
        case (Inr rs)
        note tools = Inr
        obtain llmLog resp where l: "callLlm_logged llm (add_messages m (r # rs)) = (llmLog, resp)" by fastforce
        then have c: "callLlm llm (add_messages m (r # rs)) = resp"
          using callLlm_logged_snd [of llm "add_messages m (r # rs)"] by simp
        show ?thesis
        proof (cases resp)
          case (Inl e)
          with body calls t tr tools l c show ?thesis by (subst agent_loop_logged.simps) auto
        next
          case (Inr r')
          with body calls tr tools c have "f llm sched (add_messages m (r # rs)) r' = Some y"
            by (simp add: Let_def)
          from IH [OF this] obtain l' where "agent_loop_logged llm sched (add_messages m (r # rs)) r' (Suc i) = Some (l', y)"
            by blast
          with calls t tools l Inr show ?thesis by (subst agent_loop_logged.simps) simp
        qed
      qed
    qed
  qed
qed

lemma agent_loop_logged_snd: "map_option snd (agent_loop_logged llm sched m r i) = agent_loop llm sched m r"
proof (cases "agent_loop_logged llm sched m r i")
  case None
  show ?thesis
  proof (cases "agent_loop llm sched m r")
    case (Some y)
    from agent_loop_logged_complete [OF this] obtain l where "agent_loop_logged llm sched m r i = Some (l, y)"
      by blast
    with None show ?thesis by simp
  qed (simp add: None)
next
  case (Some z)
  with agent_loop_logged_sound [OF Some] show ?thesis by simp
qed

lemma settle_order_one:
  assumes "settle_order (Suc 0) order"
  shows "order = [0]"
proof -
  from assms have d: "distinct order" and s: "set order = {0}"
    by (auto simp: settle_order_def lessThan_Suc)
  from distinct_card [OF d] s have "length order = Suc 0" by simp
  then obtain x where "order = [x]" by (auto simp: length_Suc_conv)
  with s show ?thesis by simp
qed

text \<open>When every call succeeds, the call lines come in call order and the result lines in settle order.\<close>

lemma run_tools_logged_ok:
  assumes so: "sched_ok sched" and ok: "map_seq call_tool calls = Inr rs"
  shows "run_tools_logged sched m calls =
     (map (\<lambda>c. ToolCallLine (tc_name c) (tc_args c)) calls @
        map (\<lambda>i. ToolResultLine (rs ! i)) (sched m (length calls)), Inr rs)"
proof -
  let ?order = "sched m (length calls)"
  have ord: "\<forall>i \<in> set ?order. i < length calls"
    using so by (auto simp: sched_ok_def settle_order_def)
  have task: "callTool_logged (calls ! i) = (ToolCallLine (tc_name (calls ! i)) (tc_args (calls ! i)), [ToolResultLine (rs ! i)], Inr (rs ! i))"
    if "i < length calls" for i
    using map_seq_Inr_nth [OF ok that] by (simp add: callTool_logged_def)
  have tw: "takeWhile (\<lambda>i. \<not> isl (snd (snd (map callTool_logged calls ! i)))) ?order = ?order"
    using ord task by (simp add: takeWhile_eq_all_conv)
  have res: "map (\<lambda>i. fst (snd (map callTool_logged calls ! i))) ?order = map (\<lambda>i. [ToolResultLine (rs ! i)]) ?order"
    using ord task by simp
  have calls: "map fst (map callTool_logged calls) = map (\<lambda>c. ToolCallLine (tc_name c) (tc_args c)) calls"
    by (simp add: callTool_logged_def)
  have "snd (run_tools_logged sched m calls) = Inr rs"
    by (simp add: run_tools_logged_snd run_tools_ok [OF so ok])
  then have "run_tools_logged sched m calls =
      (map fst (map callTool_logged calls) @ concat (map (\<lambda>i. [ToolResultLine (rs ! i)]) ?order), Inr rs)"
    unfolding run_tools_logged_def Let_def tw res by simp
  then show ?thesis unfolding calls concat_map_singleton .
qed

text \<open>\<open>functional-trace.ts\<close> prints what \<open>functional.ts\<close> prints, with its own banner and, after a successful run, the Langfuse line.\<close>

lemma agent_logged_banner:
  "agent_logged True llm sched m = map_option (\<lambda>(l, r). (AgentStart True # tl l, r)) (agent_logged False llm sched m)"
  by (auto simp: agent_logged_def split: prod.splits sum.splits Option.bind_splits)

lemma functional_trace_main_eq:
  "functional_trace_main llm sched =
     map_option (\<lambda>(l, e). (AgentStart True # tl l @ (if e = None then [LangfuseNotice] else []), e)) (functional_main llm sched)"
proof -
  have "agent_logged False llm sched [HumanMessage ''Add 3 and 4.''] = Some (l, r) \<Longrightarrow> l \<noteq> []" for l r
    by (auto simp: agent_logged_def split: prod.splits sum.splits Option.bind_splits)
  then show ?thesis
    by (cases "agent_logged False llm sched [HumanMessage ''Add 3 and 4.'']")
       (auto simp: functional_trace_main_def functional_trace_agent_def functional_main_def agent_logged_banner
         split: sum.splits)
qed

text \<open>
  C5. The console output of \<open>functional.ts\<close> and \<open>functional-trace.ts\<close> does not change
  what the agent computes: forgetting the printed lines, the logged entrypoint returns
  exactly what the functional agent of \<open>Functional_Agent\<close> returns, and it runs forever
  exactly when that one does.
\<close>

theorem agent_logged_observes_functional_agent:
  "map_option snd (agent_logged traced llm sched m) = functional_agent llm sched m"
proof -
  obtain llmLog resp where l: "callLlm_logged llm m = (llmLog, resp)" by fastforce
  then have c: "callLlm llm m = resp" using callLlm_logged_snd [of llm m] by simp
  show ?thesis
  proof (cases resp)
    case (Inl e)
    with l c show ?thesis by (simp add: agent_logged_def functional_agent_def)
  next
    case (Inr r)
    have "map_option snd (Option.bind (agent_loop_logged llm sched m r 1)
            (\<lambda>(loopLog, res). Some (AgentStart traced # llmLog @ loopLog, res))) = agent_loop llm sched m r"
      using agent_loop_logged_snd [of llm sched m r 1] by (cases "agent_loop_logged llm sched m r 1") auto
    with l c Inr show ?thesis by (simp add: agent_logged_def functional_agent_def)
  qed
qed

text \<open>
  C10. The spec's concrete scenario (section 8) run as the program \<open>functional.ts\<close>,
  in every settle order: the console shows the banner, the two prompts sent to the
  model, one iteration with the call \<open>add(3, 4)\<close> and its result \<open>7\<close>, the end of the
  loop, and a final listing of three messages (the human question, the ai message with
  its tool call, the tool result), with no error thrown. The model's final answer
  \<open>"7"\<close>, the fourth message the spec expects, is never printed.
\<close>

theorem functional_main_add_3_and_4:
  assumes so: "sched_ok sched"
  shows "functional_main (scripted [('''', [add_3_4]), (''7'', [])]) sched =
     Some ([AgentStart False,
            PromptDump [SystemMessage arith_prompt, HumanMessage ''Add 3 and 4.''],
            IterationLine 1 1,
            ToolCallLine ''add'' (num_args 3 4),
            ToolResultLine (ToolMessage (ONum (Fin 7)) ''call_1''),
            PromptDump [SystemMessage arith_prompt, HumanMessage ''Add 3 and 4.'', AIMessage '''' [add_3_4],
                        ToolMessage (ONum (Fin 7)) ''call_1''],
            NoToolCallsLine,
            ResultsHeader,
            ResultLine (HumanMessage ''Add 3 and 4.''),
            ResultLine (AIMessage '''' [add_3_4]),
            ToolCallsLine [add_3_4],
            ResultLine (ToolMessage (ONum (Fin 7)) ''call_1''),
            ResultsFooter], None)"
proof -
  define llm where "llm = scripted [('''', [add_3_4]), (''7'', [])]"
  define m1 where "m1 = [HumanMessage ''Add 3 and 4.'']"
  define m2 where "m2 = m1 @ [AIMessage '''' [add_3_4], ToolMessage (ONum (Fin 7)) ''call_1'']"
  have o: "sched m1 (Suc 0) = [0]"
    using so settle_order_one by (simp add: sched_ok_def)
  have t: "run_tools_logged sched m1 [add_3_4] =
      ([ToolCallLine ''add'' (num_args 3 4), ToolResultLine (ToolMessage (ONum (Fin 7)) ''call_1'')],
       Inr [ToolMessage (ONum (Fin 7)) ''call_1''])"
  proof -
    have "map_seq call_tool [add_3_4] = Inr [ToolMessage (ONum (Fin 7)) ''call_1'']"
      by (simp add: call_tool_add_3_4)
    from run_tools_logged_ok [OF so this, of m1] o show ?thesis by (simp add: add_3_4_def)
  qed
  have l2: "agent_loop_logged llm sched m2 (AIMessage ''7'' []) (Suc (Suc 0)) = Some ([NoToolCallsLine], Inr m2)"
    by (simp add: agent_loop_logged.simps)
  have l1: "agent_loop_logged llm sched m1 (AIMessage '''' [add_3_4]) 1 =
      Some ([IterationLine 1 1, ToolCallLine ''add'' (num_args 3 4), ToolResultLine (ToolMessage (ONum (Fin 7)) ''call_1''),
             PromptDump (SystemMessage arith_prompt # m2), NoToolCallsLine], Inr m2)"
    by (subst agent_loop_logged.simps)
       (simp add: Let_def t [unfolded m1_def] callLlm_logged_def llm_def scripted_def add_messages_def m2_def m1_def
         l2 [unfolded llm_def m2_def m1_def, simplified])
  show ?thesis
    using l1 unfolding llm_def m1_def m2_def
    by (simp add: functional_main_def agent_logged_def callLlm_logged_def scripted_def print_results_def print_message_def)
qed

theorem functional_main_add_3_and_4_witness:
  "functional_main (scripted [('''', [add_3_4]), (''7'', [])]) in_order =
     Some ([AgentStart False,
            PromptDump [SystemMessage arith_prompt, HumanMessage ''Add 3 and 4.''],
            IterationLine 1 1,
            ToolCallLine ''add'' (num_args 3 4),
            ToolResultLine (ToolMessage (ONum (Fin 7)) ''call_1''),
            PromptDump [SystemMessage arith_prompt, HumanMessage ''Add 3 and 4.'', AIMessage '''' [add_3_4],
                        ToolMessage (ONum (Fin 7)) ''call_1''],
            NoToolCallsLine,
            ResultsHeader,
            ResultLine (HumanMessage ''Add 3 and 4.''),
            ResultLine (AIMessage '''' [add_3_4]),
            ToolCallsLine [add_3_4],
            ResultLine (ToolMessage (ONum (Fin 7)) ''call_1''),
            ResultsFooter], None)"

  by (rule functional_main_add_3_and_4 [OF sched_ok_in_order])

end
