(* ===== verification/Traced_Agent.thy ===== *)
theory Traced_Agent
  imports Tool_Agent
begin

text \<open>
  The second half of \<open>src/unnamed/part_001\<close> (lines 103--271): the agent of
  \<open>src/graph.ts\<close> with console output and Langfuse callbacks. The Langfuse handler
  only receives events, so it is not modelled; the console output is: each line the nodes
  print is an event of a log carried beside the transcript in the graph state, with the
  value it prints (a message list, a count, a tool call, a tool message). The router
  \<open>shouldContinue\<close> prints too (\<open>shouldContinue_traced\<close> returns its label with
  the line it prints); the executor keeps only the label, so the router's lines are not
  part of the log. The claim is the spec's observability requirement (section 6): the
  tracing never changes what the agent does.
\<close>

datatype log_event =
    LogPrompt "message list"
  | LogToolCount nat
  | LogToolCall string json
  | LogToolResult message
  | LogNextToolNode
  | LogAgentEnd

type_synonym traced_state = "message list \<times> log_event list"

text \<open>\<open>MessagesAnnotation\<close>'s reducer on the transcript; the console only grows.\<close>

definition traced_reduce :: "traced_state \<Rightarrow> traced_state \<Rightarrow> traced_state" where
  "traced_reduce s u = (add_messages (fst s) (fst u), snd s @ snd u)"

text \<open>\<open>llmCall\<close> (lines 169--188): print the messages to send, then call the model.\<close>

definition llmCall_traced :: "chat_model \<Rightarrow> traced_state \<Rightarrow> string + traced_state" where
  "llmCall_traced llm st =
     (let messagesToSend = SystemMessage arith_prompt # fst st in
      case llm messagesToSend of
        Inl e \<Rightarrow> Inl e
      | Inr (c, calls) \<Rightarrow> Inr ([AIMessage c calls], [LogPrompt messagesToSend]))"

text \<open>
  The \<open>for\<close> loop of \<open>toolNode\<close> (lines 205--211): print the call, invoke the tool
  (a throw ends the node), print the result, push it.
\<close>

fun traced_calls :: "tool_call list \<Rightarrow> tool_error + message list \<times> log_event list" where
  "traced_calls [] = Inr ([], [])"
| "traced_calls (c # cs) =
     (case call_tool c of
        Inl e \<Rightarrow> Inl e
      | Inr m \<Rightarrow>
          (case traced_calls cs of
             Inl e \<Rightarrow> Inl e
           | Inr (ms, lg) \<Rightarrow> Inr (m # ms, LogToolCall (tc_name c) (tc_args c) # LogToolResult m # lg)))"

definition toolNode_traced :: "traced_state \<Rightarrow> string + traced_state" where
  "toolNode_traced st =
     (case last_opt (fst st) of
        None \<Rightarrow> Inr ([], [])
      | Some m \<Rightarrow>
          if msg_type m \<noteq> ''ai'' then Inr ([], [])
          else (case traced_calls (tool_calls_of m) of
                  Inl e \<Rightarrow> Inl (tool_error_msg e)
                | Inr (results, lg) \<Rightarrow> Inr (results, LogToolCount (length (tool_calls_of m)) # lg)))"

text \<open>
  \<open>shouldContinue\<close> (lines 217--231): the label, and the line printed on the way
  (none when the last message is missing or not an ai message).
\<close>

definition shouldContinue_traced :: "traced_state \<Rightarrow> label \<times> log_event list" where
  "shouldContinue_traced st =
     (case last_opt (fst st) of
        None \<Rightarrow> (END, [])
      | Some lastMessage \<Rightarrow>
          if msg_type lastMessage \<noteq> ''ai'' then (END, [])
          else if tool_calls_of lastMessage \<noteq> [] then (''toolNode'', [LogNextToolNode])
          else (END, [LogAgentEnd]))"

type_synonym traced_graph = "(traced_state, traced_state) state_graph"

text \<open>The builder chain of lines 236--242; the executor keeps the router's label.\<close>

definition traced_builder :: "chat_model \<Rightarrow> graph_error + traced_graph" where
  "traced_builder llm =
     bind_sum (add_node ''llmCall'' (llmCall_traced llm) (new_graph traced_reduce)) (\<lambda>g.
     bind_sum (add_node ''toolNode'' toolNode_traced g) (\<lambda>g.
     bind_sum (add_edge START ''llmCall'' g) (\<lambda>g.
     bind_sum (add_conditional_edges ''llmCall'' (\<lambda>st. fst (shouldContinue_traced st)) (path_list [''toolNode'', END]) g) (\<lambda>g.
     bind_sum (add_edge ''toolNode'' ''llmCall'' g) compile))))"

definition traced_agent_graph :: "chat_model \<Rightarrow> traced_graph" where
  "traced_agent_graph llm =
     \<lparr>sg_reduce = traced_reduce,
      sg_nodes = [(''llmCall'', llmCall_traced llm), (''toolNode'', toolNode_traced)],
      sg_edges = [(START, Static ''llmCall''),
                  (''llmCall'', Conditional (\<lambda>st. fst (shouldContinue_traced st)) (path_list [''toolNode'', END])),
                  (''toolNode'', Static ''llmCall'')]\<rparr>"

text \<open>\<open>agent.invoke({messages: [new HumanMessage(q)]})\<close> (lines 249--251), with an empty console.\<close>

definition run_traced_agent :: "chat_model \<Rightarrow> string \<Rightarrow> traced_state walk_result" where
  "run_traced_agent llm q =
     (case traced_builder llm of
        Inl e \<Rightarrow> Failed e []
      | Inr g \<Rightarrow> invoke g default_recursion_limit (add_messages [] [HumanMessage q], []))"

subsection \<open>The tracing changes nothing\<close>

lemma traced_builder_eq: "traced_builder llm = Inr (traced_agent_graph llm)"
  by (simp add: traced_builder_def traced_agent_graph_def new_graph_def add_node_def add_edge_def
      add_conditional_edges_def compile_def node_names_def path_list_def wf_graph_def)

lemma traced_calls_fst: "map_sum id fst (traced_calls cs) = map_seq call_tool cs"
  by (induction cs) (auto split: sum.split)

lemma llmCall_traced_fst: "map_sum id fst (llmCall_traced llm st) = llmCall llm (fst st)"
  by (simp add: llmCall_traced_def llmCall_def Let_def split: sum.split prod.split)

lemma toolNode_traced_fst: "map_sum id fst (toolNode_traced st) = toolNode (fst st)"
proof -
  have "map_sum id fst (case traced_calls cs of Inl e \<Rightarrow> Inl (tool_error_msg e)
          | Inr (results, lg) \<Rightarrow> Inr (results, LogToolCount (length cs) # lg)) =
        (case map_seq call_tool cs of Inl e \<Rightarrow> Inl (tool_error_msg e) | Inr results \<Rightarrow> Inr results)" for cs
    by (cases "traced_calls cs") (auto simp: traced_calls_fst [of cs, symmetric])
  then show ?thesis by (simp add: toolNode_traced_def toolNode_def split: option.split)
qed

text \<open>The traced router chooses what the router of \<open>graph.ts\<close> chooses, and prints on every ai message.\<close>

lemma shouldContinue_traced_fst: "fst (shouldContinue_traced st) = shouldContinue (fst st)"
  by (simp add: shouldContinue_traced_def shouldContinue_def split: option.split)

lemma shouldContinue_traced_prints:
  "last_opt (fst st) = Some m \<Longrightarrow> msg_type m = ''ai'' \<Longrightarrow> snd (shouldContinue_traced st) \<noteq> []"
  by (simp add: shouldContinue_traced_def)

lemma traced_route: "route (traced_agent_graph llm) n s = route (agent_graph llm) n (fst s)"
  by (simp add: route_def traced_agent_graph_def agent_graph_def shouldContinue_traced_fst)

text \<open>Whole runs of the traced graph, observed through the transcript, are runs of the graph agent.\<close>

lemma traced_invoke_project:
  "map_walk_result fst (invoke (traced_agent_graph llm) k s) = invoke (agent_graph llm) k (fst s)"
proof (rule invoke_project [where \<rho> = fst])
  show "map_of (sg_nodes (traced_agent_graph llm)) n = None \<longleftrightarrow> map_of (sg_nodes (agent_graph llm)) n = None" for n
    by (simp add: traced_agent_graph_def agent_graph_def)
  show "map_sum id fst (f' s) = f (fst s)"
    if "map_of (sg_nodes (traced_agent_graph llm)) n = Some f'" "map_of (sg_nodes (agent_graph llm)) n = Some f" for n f' f s
    using that by (auto simp: traced_agent_graph_def agent_graph_def llmCall_traced_fst toolNode_traced_fst
        split: if_splits)
  show "fst (sg_reduce (traced_agent_graph llm) s u) = sg_reduce (agent_graph llm) (fst s) (fst u)" for s u
    by (simp add: traced_agent_graph_def agent_graph_def traced_reduce_def)
  show "route (traced_agent_graph llm) n s = route (agent_graph llm) n (fst s)" for n s
    by (rule traced_route)
qed

text \<open>
  C32. Console tracing does not change the agent (spec section 6: observability never
  affects routing outcomes): the traced agent of \<open>part_001\<close>, observed through its
  transcript, runs exactly as the agent of \<open>src/graph.ts\<close>: the same final transcript,
  the same nodes, the same errors, for every model and every question.
\<close>

theorem traced_agent_observes_graph_agent:
  "map_walk_result fst (run_traced_agent llm q) = run_agent llm q"
  using traced_invoke_project [of llm default_recursion_limit "(add_messages [] [HumanMessage q], [])"]
  by (simp add: run_traced_agent_def run_agent_def traced_builder_eq agent_builder_eq)


end
