(* ===== verification/Classifier_Graph.thy ===== *)
theory Classifier_Graph
  imports Promise_All Messages Graph_Engine
begin

text \<open>
  The classifier graph of \<open>src/unnamed/part_000\<close> (lines 140--652): a \<open>StateGraph\<close>
  over nine replace channels. \<open>classifyInput\<close> asks a model for a JSON verdict and
  parses it with defaults; \<open>routeByCategory\<close> sends math, text and data requests to a
  processing node that lets a tool-calling model run the tools \<open>calculate\<close>,
  \<open>processText\<close> and \<open>analyzeData\<close>; every path continues to \<open>enrichData\<close>,
  which runs three sub-tasks with \<open>Promise.all\<close> and merges them with
  \<open>Object.assign\<close>, and ends in \<open>summarizeResults\<close>.

  The collaborators the code only calls are the parameters of \<open>cg_env\<close>: the two
  models (the classifier and the summarizer answer with a text; the processing nodes
  use a model with tools bound), \<open>JSON.parse\<close> (\<open>None\<close> when it throws), the
  JavaScript evaluation behind \<open>calculate\<close>'s \<open>Function(...)()\<close> (the printed
  result, or the caught error's message), \<open>Math.random()\<close>, the order in which the
  fan-out's sub-tasks settle, and the clock.
\<close>

subsection \<open>State (lines 180--194)\<close>

text \<open>
  One field per channel of \<open>GraphState\<close>. The graph is only invoked with
  \<open>{input}\<close> (\<open>runComplexGraph\<close>), so \<open>input\<close> is a string; every other
  channel is \<open>None\<close> until a node writes it (\<open>undefined\<close>). A node's update has a
  field per channel it may write: \<open>None\<close> leaves the channel alone, \<open>Some v\<close>
  replaces it (\<open>Annotation<T>\<close> without reducer). No node writes \<open>input\<close>. The
  processing nodes' \<open>response\<close> is the content of a tool message, a string.
\<close>

record cg_state =
  cs_input :: string
  cs_category :: "json option"
  cs_confidence :: "json option"
  cs_processed :: "bool option"
  cs_path :: "string option"
  cs_response :: "tool_output option"
  cs_enrichments :: "json option"
  cs_summary :: "string option"
  cs_timestamp :: "string option"

record cg_update =
  cu_category :: "json option"
  cu_confidence :: "json option"
  cu_processed :: "bool option"
  cu_path :: "string option"
  cu_response :: "tool_output option"
  cu_enrichments :: "json option"
  cu_summary :: "string option"
  cu_timestamp :: "string option"

definition cg_init :: "string \<Rightarrow> cg_state" where
  "cg_init input = \<lparr>cs_input = input, cs_category = None, cs_confidence = None, cs_processed = None,
     cs_path = None, cs_response = None, cs_enrichments = None, cs_summary = None, cs_timestamp = None\<rparr>"

definition cg_noop :: cg_update where
  "cg_noop = \<lparr>cu_category = None, cu_confidence = None, cu_processed = None, cu_path = None,
     cu_response = None, cu_enrichments = None, cu_summary = None, cu_timestamp = None\<rparr>"

definition cg_reduce :: "cg_state \<Rightarrow> cg_update \<Rightarrow> cg_state" where
  "cg_reduce s u =
     \<lparr>cs_input = cs_input s,
      cs_category = replace_chan (cs_category s) (cu_category u),
      cs_confidence = replace_chan (cs_confidence s) (cu_confidence u),
      cs_processed = replace_chan (cs_processed s) (cu_processed u),
      cs_path = replace_chan (cs_path s) (cu_path u),
      cs_response = replace_chan (cs_response s) (cu_response u),
      cs_enrichments = replace_chan (cs_enrichments s) (cu_enrichments u),
      cs_summary = replace_chan (cs_summary s) (cu_summary u),
      cs_timestamp = replace_chan (cs_timestamp s) (cu_timestamp u)\<rparr>"

record cg_env =
  env_classifier :: text_model
  env_parse :: "string \<Rightarrow> json option"
  env_tool_model :: chat_model
  env_eval :: "string \<Rightarrow> string + string"
  env_random :: rat
  env_settle :: "nat list"
  env_summarizer :: "cg_state \<Rightarrow> string + string"
  env_now :: string

subsection \<open>Tools (lines 207--275)\<close>

text \<open>\<open>JSON.stringify\<close> of a number: the non-finite ones print as \<open>null\<close>.\<close>

fun num_json :: "jsnum \<Rightarrow> json" where
  "num_json (Fin r) = JNum r"
| "num_json v = JNull"

text \<open>
  \<open>analyzeData\<close>: \<open>reduce\<close> from \<open>0\<close>, \<open>sum / length\<close>, and the spreads
  \<open>Math.max(...data)\<close> and \<open>Math.min(...data)\<close>, which are \<open>-Infinity\<close> and
  \<open>Infinity\<close> on an empty array.
\<close>

definition js_max :: "rat list \<Rightarrow> jsnum" where
  "js_max xs = (if xs = [] then NegInf else Fin (Max (set xs)))"

definition js_min :: "rat list \<Rightarrow> jsnum" where
  "js_min xs = (if xs = [] then PosInf else Fin (Min (set xs)))"

definition analyze_data :: "rat list \<Rightarrow> json" where
  "analyze_data data =
     (let sum = foldl (+) 0 data;
          avg = js_div sum (of_nat (length data))
      in JObj [(''sum'', JNum sum), (''avg'', num_json avg), (''max'', num_json (js_max data)),
               (''min'', num_json (js_min data)), (''count'', JNum (of_nat (length data)))])"

definition analyzeData_tool :: tool where
  "analyzeData_tool =
     \<lparr>tool_name = ''analyzeData'',
      tool_fn = (\<lambda>args. case zod_number_array args ''data'' of
                   Inl e \<Rightarrow> Inl e
                 | Inr data \<Rightarrow> Inr (OJson (analyze_data data)))\<rparr>"

definition text_ops :: "string list" where
  "text_ops = [''uppercase'', ''lowercase'', ''reverse'', ''length'']"

definition process_text :: "string \<Rightarrow> string \<Rightarrow> string" where
  "process_text text operation =
     (if operation = ''uppercase'' then js_to_upper text
      else if operation = ''lowercase'' then js_to_lower text
      else if operation = ''reverse'' then rev text
      else if operation = ''length'' then ''Length: '' @ nat_to_dec (length text)
      else text)"

definition processText_tool :: tool where
  "processText_tool =
     \<lparr>tool_name = ''processText'',
      tool_fn = (\<lambda>args. case zod_string args ''text'' of
                   Inl e \<Rightarrow> Inl e
                 | Inr text \<Rightarrow> (case zod_enum text_ops args ''operation'' of
                                 Inl e \<Rightarrow> Inl e
                               | Inr op \<Rightarrow> Inr (OStr (process_text text op))))\<rparr>"

definition calculate_tool :: "(string \<Rightarrow> string + string) \<Rightarrow> tool" where
  "calculate_tool ev =
     \<lparr>tool_name = ''calculate'',
      tool_fn = (\<lambda>args. case zod_string args ''expression'' of
                   Inl e \<Rightarrow> Inl e
                 | Inr expr \<Rightarrow> Inr (OStr (case ev expr of
                                            Inl err \<Rightarrow> ''Error: '' @ err
                                          | Inr r \<Rightarrow> ''Result: '' @ r)))\<rparr>"

definition cg_tools_by_name :: "(string \<Rightarrow> string + string) \<Rightarrow> (string \<times> tool) list" where
  "cg_tools_by_name ev = map (\<lambda>t. (tool_name t, t)) [analyzeData_tool, processText_tool, calculate_tool ev]"

definition cg_call_tool :: "(string \<Rightarrow> string + string) \<Rightarrow> tool_call \<Rightarrow> tool_error + message" where
  "cg_call_tool ev c =
     (case map_of (rev (cg_tools_by_name ev)) (tc_name c) of
        None \<Rightarrow> Inl (ToolNotFound (tc_name c))
      | Some t \<Rightarrow> tool_invoke t c)"

subsection \<open>Nodes (lines 284--484)\<close>

text \<open>
  The system prompts are Japanese text in the source; here they are named by ASCII
  stand-ins. The models are arbitrary, so no property depends on their wording.
\<close>

definition classify_prompt :: string where
  "classify_prompt = ''classifyInput system prompt: answer {category: math|text|data|unknown, confidence: 0.0-1.0} as JSON''"

definition math_prompt :: string where
  "math_prompt = ''processMath system prompt: solve the problem with the calculate tool''"

definition text_prompt :: string where
  "text_prompt = ''processText system prompt: transform the text with the processText tool''"

definition data_prompt :: string where
  "data_prompt = ''processData system prompt: extract the numbers and use the analyzeData tool''"

text \<open>
  The \<open>try\<close> block of \<open>classifyInputNode\<close>: \<open>JSON.parse\<close> may throw, a property
  read on \<open>null\<close> throws; either keeps the defaults of the assignments not yet done.
  \<open>x || d\<close> replaces every falsy value, \<open>0\<close> and \<open>""\<close> included.
\<close>

definition classify_parse :: "json option \<Rightarrow> json \<times> json" where
  "classify_parse parsed =
     (case parsed of
        None \<Rightarrow> (JStr ''unknown'', JNum (1/2))
      | Some p \<Rightarrow>
          (case get_prop p ''category'' of
             Inl err \<Rightarrow> (JStr ''unknown'', JNum (1/2))
           | Inr c \<Rightarrow>
               (let category = js_or c (JStr ''unknown'') in
                case get_prop p ''confidence'' of
                  Inl err \<Rightarrow> (category, JNum (1/2))
                | Inr cf \<Rightarrow> (category, js_or cf (JNum (1/2))))))"

definition classifyInputNode :: "cg_env \<Rightarrow> cg_state \<Rightarrow> string + cg_update" where
  "classifyInputNode env st =
     (case env_classifier env [SystemMessage classify_prompt, HumanMessage (cs_input st)] of
        Inl e \<Rightarrow> Inl e
      | Inr content \<Rightarrow>
          (let (category, confidence) = classify_parse (env_parse env content) in
           Inr (cg_noop\<lparr>cu_category := Some category, cu_confidence := Some confidence\<rparr>)))"

text \<open>
  The three processing nodes share their body: one call of the model with tools, then
  a sequential loop over its tool calls (a throwing tool aborts the node); the
  response is the content of the last tool result, \<open>""\<close> when there was no call.
\<close>

definition response_text :: "message list \<Rightarrow> tool_output" where
  "response_text results =
     (case last_opt results of Some (ToolMessage out cid) \<Rightarrow> out | _ \<Rightarrow> OStr '''')"

definition process_with_tools :: "string \<Rightarrow> string \<Rightarrow> cg_env \<Rightarrow> cg_state \<Rightarrow> string + cg_update" where
  "process_with_tools prompt path env st =
     (case env_tool_model env [SystemMessage prompt, HumanMessage (cs_input st)] of
        Inl e \<Rightarrow> Inl e
      | Inr (c, calls) \<Rightarrow>
          (case map_seq (cg_call_tool (env_eval env)) calls of
             Inl e \<Rightarrow> Inl (tool_error_msg e)
           | Inr results \<Rightarrow>
               Inr (cg_noop\<lparr>cu_processed := Some True, cu_path := Some path,
                            cu_response := Some (response_text results)\<rparr>)))"

definition processMathNode :: "cg_env \<Rightarrow> cg_state \<Rightarrow> string + cg_update" where
  "processMathNode = process_with_tools math_prompt ''math''"

definition processTextNode :: "cg_env \<Rightarrow> cg_state \<Rightarrow> string + cg_update" where
  "processTextNode = process_with_tools text_prompt ''text''"

definition processDataNode :: "cg_env \<Rightarrow> cg_state \<Rightarrow> string + cg_update" where
  "processDataNode = process_with_tools data_prompt ''data''"

text \<open>
  \<open>enrichDataNode\<close>: three sub-tasks in declaration order [sentiment, complexity,
  tags], joined by \<open>Promise.all\<close> in the order the scheduler settles them, merged by
  \<open>Object.assign({}, ...enrichments)\<close>. The tags array holds the category value
  (\<open>undefined\<close>, printed \<open>null\<close>, only if no category was written).
\<close>

definition enrich_tasks :: "rat \<Rightarrow> cg_state \<Rightarrow> (string + json obj) list" where
  "enrich_tasks rnd st =
     [Inr [(''sentiment'', JStr (if 1/2 < rnd then ''positive'' else ''neutral''))],
      Inr [(''complexity'', JStr (if 20 < length (cs_input st) then ''high'' else ''low''))],
      Inr [(''tags'', JArr [JStr ''processed'', case cs_category st of Some c \<Rightarrow> c | None \<Rightarrow> JNull, JStr ''v1''])]]"

definition enrichDataNode :: "cg_env \<Rightarrow> cg_state \<Rightarrow> string + cg_update" where
  "enrichDataNode env st =
     (case promise_all (enrich_tasks (env_random env) st) (env_settle env) of
        Inl e \<Rightarrow> Inl e
      | Inr enrichments \<Rightarrow> Inr (cg_noop\<lparr>cu_enrichments := Some (JObj (obj_assign enrichments))\<rparr>))"

text \<open>
  \<open>summarizeResultsNode\<close>: the model sees \<open>stateForSummary\<close>, every channel but
  \<open>summary\<close> and \<open>timestamp\<close>, printed with \<open>JSON.stringify\<close>.
\<close>

definition summary_view :: "cg_state \<Rightarrow> cg_state" where
  "summary_view st = st\<lparr>cs_summary := None, cs_timestamp := None\<rparr>"

definition summarizeResultsNode :: "cg_env \<Rightarrow> cg_state \<Rightarrow> string + cg_update" where
  "summarizeResultsNode env st =
     (case env_summarizer env (summary_view st) of
        Inl e \<Rightarrow> Inl e
      | Inr content \<Rightarrow> Inr (cg_noop\<lparr>cu_summary := Some content, cu_timestamp := Some (env_now env)\<rparr>))"

subsection \<open>Router and graph (lines 489--526)\<close>

definition routeByCategory :: "cg_state \<Rightarrow> label" where
  "routeByCategory st =
     (case cs_category st of
        Some (JStr c) \<Rightarrow>
          (if c = ''math'' then ''processMath''
           else if c = ''text'' then ''processText''
           else if c = ''data'' then ''processData''
           else ''enrichData'')
      | _ \<Rightarrow> ''enrichData'')"

type_synonym classifier_graph = "(cg_state, cg_update) state_graph"

definition cg_builder :: "cg_env \<Rightarrow> graph_error + classifier_graph" where
  "cg_builder env =
     bind_sum (add_node ''classifyInput'' (classifyInputNode env) (new_graph cg_reduce)) (\<lambda>g.
     bind_sum (add_node ''processMath'' (processMathNode env) g) (\<lambda>g.
     bind_sum (add_node ''processText'' (processTextNode env) g) (\<lambda>g.
     bind_sum (add_node ''processData'' (processDataNode env) g) (\<lambda>g.
     bind_sum (add_node ''enrichData'' (enrichDataNode env) g) (\<lambda>g.
     bind_sum (add_node ''summarizeResults'' (summarizeResultsNode env) g) (\<lambda>g.
     bind_sum (add_edge START ''classifyInput'' g) (\<lambda>g.
     bind_sum (add_conditional_edges ''classifyInput'' routeByCategory
                 (path_list [''processMath'', ''processText'', ''processData'', ''enrichData'']) g) (\<lambda>g.
     bind_sum (add_edge ''processMath'' ''enrichData'' g) (\<lambda>g.
     bind_sum (add_edge ''processText'' ''enrichData'' g) (\<lambda>g.
     bind_sum (add_edge ''processData'' ''enrichData'' g) (\<lambda>g.
     bind_sum (add_edge ''enrichData'' ''summarizeResults'' g) (\<lambda>g.
     bind_sum (add_edge ''summarizeResults'' END g) compile))))))))))))"

definition classifier_graph :: "cg_env \<Rightarrow> classifier_graph" where
  "classifier_graph env =
     \<lparr>sg_reduce = cg_reduce,
      sg_nodes = [(''classifyInput'', classifyInputNode env), (''processMath'', processMathNode env),
                  (''processText'', processTextNode env), (''processData'', processDataNode env),
                  (''enrichData'', enrichDataNode env), (''summarizeResults'', summarizeResultsNode env)],
      sg_edges = [(START, Static ''classifyInput''),
                  (''classifyInput'', Conditional routeByCategory
                     (path_list [''processMath'', ''processText'', ''processData'', ''enrichData''])),
                  (''processMath'', Static ''enrichData''), (''processText'', Static ''enrichData''),
                  (''processData'', Static ''enrichData''), (''enrichData'', Static ''summarizeResults''),
                  (''summarizeResults'', Static END)]\<rparr>"

text \<open>\<open>runComplexGraph(input)\<close>: \<open>graph.invoke({input})\<close> with the default recursion limit.\<close>

definition runComplexGraph :: "cg_env \<Rightarrow> string \<Rightarrow> cg_state walk_result" where
  "runComplexGraph env input =
     (case cg_builder env of
        Inl e \<Rightarrow> Failed e []
      | Inr g \<Rightarrow> invoke g default_recursion_limit (cg_init input))"


subsection \<open>A concrete environment\<close>

text \<open>
  Collaborators for the worked examples: the classifier answers with the verdict
  \<open>{"category":"Math","confidence":0}\<close> (a capitalised category and a zero
  confidence), which the parser decodes; the tool model asks for no tool; the fan-out
  settles in the order tags, sentiment, complexity.
\<close>

definition demo_verdict :: string where
  "demo_verdict = ''{\"category\":\"Math\",\"confidence\":0}''"

definition demo_env :: cg_env where
  "demo_env =
     \<lparr>env_classifier = (\<lambda>msgs. Inr demo_verdict),
      env_parse = (\<lambda>s. if s = demo_verdict then Some (JObj [(''category'', JStr ''Math''), (''confidence'', JNum 0)]) else None),
      env_tool_model = (\<lambda>msgs. Inr ('''', [])),
      env_eval = (\<lambda>e. Inl ''unsupported''),
      env_random = 3/4,
      env_settle = [2, 0, 1],
      env_summarizer = (\<lambda>st. Inr ''summary''),
      env_now = ''2025-01-01T00:00:00.000Z''\<rparr>"

subsection \<open>Evaluating the compiled graph\<close>

lemma cg_builder_eq: "cg_builder env = Inr (classifier_graph env)"
  by (simp add: cg_builder_def classifier_graph_def new_graph_def add_node_def add_edge_def
      add_conditional_edges_def compile_def node_names_def path_list_def wf_graph_def)

lemma classifier_graph_wf: "wf_graph (classifier_graph env)"
  by (simp add: wf_graph_def classifier_graph_def node_names_def path_list_def)

lemma routeByCategory_cases:
  "routeByCategory st \<in> {''processMath'', ''processText'', ''processData'', ''enrichData''}"
  by (auto simp: routeByCategory_def split: option.splits json.splits)

lemma routeByCategory_not_END: "routeByCategory st \<noteq> END"
  using routeByCategory_cases [of st] by auto

lemma cg_nodes [simp]:
  "map_of (sg_nodes (classifier_graph env)) ''classifyInput'' = Some (classifyInputNode env)"
  "map_of (sg_nodes (classifier_graph env)) ''processMath'' = Some (processMathNode env)"
  "map_of (sg_nodes (classifier_graph env)) ''processText'' = Some (processTextNode env)"
  "map_of (sg_nodes (classifier_graph env)) ''processData'' = Some (processDataNode env)"
  "map_of (sg_nodes (classifier_graph env)) ''enrichData'' = Some (enrichDataNode env)"
  "map_of (sg_nodes (classifier_graph env)) ''summarizeResults'' = Some (summarizeResultsNode env)"
  "sg_reduce (classifier_graph env) = cg_reduce"
  by (simp_all add: classifier_graph_def)

lemma cg_route [simp]:
  "route (classifier_graph env) START s = Inr ''classifyInput''"
  "route (classifier_graph env) ''classifyInput'' s = Inr (routeByCategory s)"
  "route (classifier_graph env) ''processMath'' s = Inr ''enrichData''"
  "route (classifier_graph env) ''processText'' s = Inr ''enrichData''"
  "route (classifier_graph env) ''processData'' s = Inr ''enrichData''"
  "route (classifier_graph env) ''enrichData'' s = Inr ''summarizeResults''"
  "route (classifier_graph env) ''summarizeResults'' s = Inr END"
  using routeByCategory_cases [of s]
  by (auto simp: route_def classifier_graph_def path_list_def)

text \<open>One step of the walk at each node of the classifier graph.\<close>

lemma cg_walk_step:
  assumes "map_of (sg_nodes (classifier_graph env)) n = Some f" "route (classifier_graph env) n s' = Inr t"
    "s' = cg_reduce s u" "f s = Inr u"
  shows "walk (classifier_graph env) (Suc k) n s tr =
     (if t = END then Done s' (tr @ [n]) else walk (classifier_graph env) k t s' (tr @ [n]))"
  using assms by simp

lemma cg_walk_fail:
  "map_of (sg_nodes (classifier_graph env)) n = Some f \<Longrightarrow> f s = Inl e \<Longrightarrow>
     walk (classifier_graph env) (Suc k) n s tr = Failed (ExecutionError n e) tr"
  by simp

lemma cg_invoke: "invoke (classifier_graph env) k s = walk (classifier_graph env) k ''classifyInput'' s []"
  by (simp add: invoke_def)


lemma cg_walk_tail:
  "walk (classifier_graph env) (Suc (Suc k)) ''enrichData'' s tr =
     (case enrichDataNode env s of
        Inl e \<Rightarrow> Failed (ExecutionError ''enrichData'' e) tr
      | Inr u \<Rightarrow>
          (case summarizeResultsNode env (cg_reduce s u) of
             Inl e \<Rightarrow> Failed (ExecutionError ''summarizeResults'' e) (tr @ [''enrichData''])
           | Inr u' \<Rightarrow> Done (cg_reduce (cg_reduce s u) u') (tr @ [''enrichData'', ''summarizeResults''])))"
  by (simp split: sum.splits)

lemma cg_walk_process:
  assumes "n \<in> {''processMath'', ''processText'', ''processData''}"
    "map_of (sg_nodes (classifier_graph env)) n = Some f"
  shows "walk (classifier_graph env) (Suc k) n s tr =
     (case f s of
        Inl e \<Rightarrow> Failed (ExecutionError n e) tr
      | Inr u \<Rightarrow> walk (classifier_graph env) k ''enrichData'' (cg_reduce s u) (tr @ [n]))"
  using assms by (auto split: sum.splits)

lemma cg_walk_classify:
  "walk (classifier_graph env) (Suc k) ''classifyInput'' s tr =
     (case classifyInputNode env s of
        Inl e \<Rightarrow> Failed (ExecutionError ''classifyInput'' e) tr
      | Inr u \<Rightarrow> walk (classifier_graph env) k (routeByCategory (cg_reduce s u)) (cg_reduce s u) (tr @ [''classifyInput'']))"
  by (simp add: Let_def routeByCategory_not_END split: sum.splits)


subsection \<open>Node lemmas\<close>

lemma truthy_js_or: "truthy d \<Longrightarrow> truthy (js_or a d)"
  by (cases a) auto

lemma enrich_tasks_ok: "\<forall>r \<in> set (enrich_tasks rnd st). \<not> isl r"
  by (simp add: enrich_tasks_def)

lemma enrichDataNode_writes:
  "enrichDataNode env st = Inr u \<Longrightarrow>
     cu_category u = None \<and> cu_confidence u = None \<and> cu_processed u = None \<and> cu_path u = None \<and>
     cu_response u = None \<and> cu_summary u = None \<and> cu_timestamp u = None"
  by (auto simp: enrichDataNode_def cg_noop_def split: sum.splits)

lemma summarizeResultsNode_writes:
  "summarizeResultsNode env st = Inr u \<Longrightarrow>
     cu_category u = None \<and> cu_confidence u = None \<and> cu_processed u = None \<and> cu_path u = None \<and>
     cu_response u = None \<and> cu_enrichments u = None"
  by (auto simp: summarizeResultsNode_def cg_noop_def split: sum.splits)

lemma classifyInputNode_Inr:
  "env_classifier env [SystemMessage classify_prompt, HumanMessage (cs_input st)] = Inr content \<Longrightarrow>
     classifyInputNode env st =
       Inr (cg_noop\<lparr>cu_category := Some (fst (classify_parse (env_parse env content))),
                    cu_confidence := Some (snd (classify_parse (env_parse env content)))\<rparr>)"
  by (simp add: classifyInputNode_def split: prod.splits)

lemma routeByCategory_enrich:
  "cs_category st = Some c \<Longrightarrow> c \<notin> {JStr ''math'', JStr ''text'', JStr ''data''} \<Longrightarrow>
     routeByCategory st = ''enrichData''"
  by (auto simp: routeByCategory_def split: json.splits)

lemma cg_walk_short:
  "k \<le> 1 \<Longrightarrow> walk (classifier_graph env) k ''enrichData'' s tr \<noteq> Done s' tr'"
  by (cases k) (auto split: sum.splits)

subsection \<open>Properties of the classifier graph\<close>

text \<open>
  C12. The classifier graph of part_000 is acyclic and total: with a recursion limit
  of at least four, \<open>invoke\<close> either finishes after \<open>classifyInput\<close>, at most one
  processing node, \<open>enrichData\<close> and \<open>summarizeResults\<close>, or fails inside a node
  (an \<open>ExecutionError\<close>); it never fails with a configuration error, an invalid route
  or the step limit.
\<close>

theorem classifier_run_outcome:
  assumes "4 \<le> k"
  shows "(\<exists>s' xs. invoke (classifier_graph env) k s = Done s' (''classifyInput'' # xs @ [''enrichData'', ''summarizeResults'']) \<and>
             xs \<in> {[], [''processMath''], [''processText''], [''processData'']}) \<or>
         (\<exists>n e tr. invoke (classifier_graph env) k s = Failed (ExecutionError n e) tr)"
proof -
  obtain k' where k: "k = Suc (Suc (Suc (Suc k')))"
  proof -
    from assms obtain j where "k = 4 + j" using le_Suc_ex by blast
    then show ?thesis using that by (simp add: eval_nat_numeral)
  qed
  show ?thesis
  proof (cases "classifyInputNode env s")
    case (Inl e)
    then show ?thesis by (simp add: cg_invoke k cg_walk_classify)
  next
    case (Inr u)
    let ?s1 = "cg_reduce s u"
    have w: "invoke (classifier_graph env) k s =
        walk (classifier_graph env) (Suc (Suc (Suc k'))) (routeByCategory ?s1) ?s1 [''classifyInput'']"
      by (simp only: cg_invoke k cg_walk_classify Inr sum.case(2) append_Nil)
    consider (enrich) "routeByCategory ?s1 = ''enrichData''"
      | (proc) "routeByCategory ?s1 \<in> {''processMath'', ''processText'', ''processData''}"
      using routeByCategory_cases [of ?s1] by auto
    then show ?thesis
    proof cases
      case enrich
      then show ?thesis using w by (auto simp del: walk.simps simp: cg_walk_tail split: sum.splits)
    next
      case proc
      then obtain f where f: "map_of (sg_nodes (classifier_graph env)) (routeByCategory ?s1) = Some f"
        by auto
      have "[routeByCategory ?s1] \<in> {[], [''processMath''], [''processText''], [''processData'']}"
        using proc by auto
      then show ?thesis using w
        by (auto simp del: walk.simps simp: cg_walk_process [OF proc f] cg_walk_tail split: sum.splits)
    qed
  qed
qed


theorem classifier_run_outcome_witness:
  "(\<exists>s' xs. invoke (classifier_graph demo_env) 25 (cg_init ''Add 3 and 4.'') =
       Done s' (''classifyInput'' # xs @ [''enrichData'', ''summarizeResults'']) \<and>
       xs \<in> {[], [''processMath''], [''processText''], [''processData'']}) \<or>
   (\<exists>n e tr. invoke (classifier_graph demo_env) 25 (cg_init ''Add 3 and 4.'') = Failed (ExecutionError n e) tr)"
  by (rule classifier_run_outcome) simp

text \<open>
  The builder chain of part_000 (lines 507--526) compiles: every node is
  registered once, every edge and every destination of the router's path map names a
  registered node, and the compiled graph is \<open>classifier_graph\<close>.
\<close>

theorem classifier_compiles: "cg_builder env = Inr (classifier_graph env) \<and> wf_graph (classifier_graph env)"
  by (simp add: cg_builder_eq classifier_graph_wf)

text \<open>
  C14. Fan-out determinism (spec 4.3 and 5): whatever order the three sub-tasks of
  \<open>enrichData\<close> settle in, \<open>Promise.all\<close> returns them in declaration order and the
  merged enrichments are the sentiment, the complexity and the tags, in that order.
\<close>

theorem enrichData_order_independent:
  assumes "settle_order 3 (env_settle env)"
  shows "enrichDataNode env st =
    Inr (cg_noop\<lparr>cu_enrichments := Some (JObj
      [(''sentiment'', JStr (if 1/2 < env_random env then ''positive'' else ''neutral'')),
       (''complexity'', JStr (if 20 < length (cs_input st) then ''high'' else ''low'')),
       (''tags'', JArr [JStr ''processed'', case cs_category st of Some c \<Rightarrow> c | None \<Rightarrow> JNull, JStr ''v1''])])\<rparr>)"
proof -
  have "promise_all (enrich_tasks (env_random env) st) (env_settle env) =
      Inr (map projr (enrich_tasks (env_random env) st))"
  proof (rule promise_all_ok)
    have "length (enrich_tasks (env_random env) st) = 3" by (simp add: enrich_tasks_def)
    with assms show "settle_order (length (enrich_tasks (env_random env) st)) (env_settle env)" by simp
  qed (rule enrich_tasks_ok)
  then show ?thesis
    by (simp add: enrichDataNode_def enrich_tasks_def obj_assign_def obj_assign1_def)
qed

theorem enrichData_order_independent_witness:
  "enrichDataNode demo_env (cg_init ''Add 3 and 4.'') =
    Inr (cg_noop\<lparr>cu_enrichments := Some (JObj
      [(''sentiment'', JStr ''positive''), (''complexity'', JStr ''low''),
       (''tags'', JArr [JStr ''processed'', JNull, JStr ''v1''])])\<rparr>)"
proof -
  have "settle_order 3 (env_settle demo_env)"
    by (auto simp: settle_order_def demo_env_def)
  from enrichData_order_independent [OF this, of "cg_init ''Add 3 and 4.''"] show ?thesis
    by (simp add: demo_env_def cg_init_def)
qed

text \<open>
  The zod enum guards \<open>processText\<close>: an operation outside the four listed ones is
  rejected before the tool runs, so the \<open>default\<close> branch of its \<open>switch\<close> (return
  the text unchanged) is unreachable.
\<close>

theorem processText_operation_guard:
  "tool_fn processText_tool (JObj [(''text'', JStr t), (''operation'', JStr op)]) =
     (if op \<in> set text_ops then Inr (OStr (process_text t op))
      else Inl (ToolInputParsingException ''Invalid enum value at operation''))"
  by (simp add: processText_tool_def)

text \<open>
  Whatever the classifier answers, \<open>classifyInputNode\<close> stores a truthy category
  and a truthy confidence: \<open>||\<close> and the caught parse errors replace everything else by
  the defaults \<open>"unknown"\<close> and \<open>0.5\<close>.
\<close>

theorem classify_parse_truthy:
  "truthy (fst (classify_parse parsed)) \<and> truthy (snd (classify_parse parsed))"
  by (auto simp: classify_parse_def Let_def truthy_js_or split: option.splits sum.splits)

text \<open>
  C17. A falsy confidence is replaced by the default: a verdict with confidence \<open>0\<close>
  (or \<open>""\<close>, \<open>false\<close>, \<open>null\<close>) is stored with confidence \<open>0.5\<close>, because the
  code uses \<open>||\<close> rather than \<open>??\<close>.
\<close>

theorem classify_falsy_confidence:
  assumes "\<not> truthy cf"
  shows "classify_parse (Some (JObj [(''category'', c), (''confidence'', cf)])) =
     (js_or (Some c) (JStr ''unknown''), JNum (1/2))"
  using assms by (simp add: classify_parse_def)

theorem classify_falsy_confidence_witness:
  "classify_parse (Some (JObj [(''category'', JStr ''math''), (''confidence'', JNum 0)])) = (JStr ''math'', JNum (1/2))"
  using classify_falsy_confidence [of "JNum 0" "JStr ''math''"] by simp

text \<open>
  C15. A category that is not exactly \<open>"math"\<close>, \<open>"text"\<close> or \<open>"data"\<close> (a
  capitalised \<open>"Math"\<close>, a number, \<open>"unknown"\<close>) is stored as the classifier sent it
  and routed straight to \<open>enrichData\<close>: the run visits three nodes and leaves
  \<open>processed\<close>, \<open>path\<close> and \<open>response\<close> undefined.
\<close>

theorem unknown_category_skips_processing:
  assumes cls: "env_classifier env [SystemMessage classify_prompt, HumanMessage input] = Inr content"
    and cat: "fst (classify_parse (env_parse env content)) \<notin> {JStr ''math'', JStr ''text'', JStr ''data''}"
    and run: "invoke (classifier_graph env) k (cg_init input) = Done s tr"
  shows "tr = [''classifyInput'', ''enrichData'', ''summarizeResults''] \<and>
    cs_category s = Some (fst (classify_parse (env_parse env content))) \<and>
    cs_processed s = None \<and> cs_path s = None \<and> cs_response s = None"
proof -
  let ?u = "cg_noop\<lparr>cu_category := Some (fst (classify_parse (env_parse env content))),
                    cu_confidence := Some (snd (classify_parse (env_parse env content)))\<rparr>"
  let ?s1 = "cg_reduce (cg_init input) ?u"
  have u: "classifyInputNode env (cg_init input) = Inr ?u"
    using classifyInputNode_Inr [of env "cg_init input"] cls by (simp add: cg_init_def)
  have r: "routeByCategory ?s1 = ''enrichData''"
    by (rule routeByCategory_enrich [OF _ cat]) (simp add: cg_reduce_def replace_chan_def cg_noop_def)
  obtain k1 where k: "k = Suc k1" using run by (cases k) (auto simp: cg_invoke)
  have w: "walk (classifier_graph env) k1 ''enrichData'' ?s1 [''classifyInput''] = Done s tr"
    using run by (simp only: cg_invoke k cg_walk_classify u r sum.case(2) append_Nil)
  have "2 \<le> k1"
  proof (rule ccontr)
    assume "\<not> 2 \<le> k1"
    then have "k1 \<le> 1" by simp
    with w cg_walk_short show False by blast
  qed
  then obtain k2 where k1: "k1 = Suc (Suc k2)"
    using le_Suc_ex [of 2 k1] by auto
  from w obtain u3 u4 where u3: "enrichDataNode env ?s1 = Inr u3"
    and u4: "summarizeResultsNode env (cg_reduce ?s1 u3) = Inr u4"
    and s: "s = cg_reduce (cg_reduce ?s1 u3) u4" and tr: "tr = [''classifyInput'', ''enrichData'', ''summarizeResults'']"
    unfolding k1 cg_walk_tail by (auto split: sum.splits)
  from enrichDataNode_writes [OF u3] summarizeResultsNode_writes [OF u4] s tr show ?thesis
    by (simp add: cg_reduce_def replace_chan_def cg_noop_def cg_init_def)
qed

theorem unknown_category_skips_processing_witness:
  "\<exists>s. invoke (classifier_graph demo_env) 25 (cg_init ''Add 3 and 4.'') =
        Done s [''classifyInput'', ''enrichData'', ''summarizeResults''] \<and>
      cs_category s = Some (JStr ''Math'') \<and> cs_confidence s = Some (JNum (1/2)) \<and> cs_response s = None"
proof -
  let ?s0 = "cg_init ''Add 3 and 4.''"
  have cls: "env_classifier demo_env [SystemMessage classify_prompt, HumanMessage (cs_input ?s0)] = Inr demo_verdict"
    by (simp add: demo_env_def)
  have cp: "classify_parse (env_parse demo_env demo_verdict) = (JStr ''Math'', JNum (1/2))"
    by (simp add: demo_env_def classify_parse_def)
  let ?U = "cg_noop\<lparr>cu_category := Some (JStr ''Math''), cu_confidence := Some (JNum (1/2))\<rparr>"
  have u: "classifyInputNode demo_env ?s0 = Inr ?U"
    using classifyInputNode_Inr [OF cls] by (simp add: cp)
  have r: "routeByCategory (cg_reduce ?s0 ?U) = ''enrichData''"
    by (simp add: routeByCategory_def cg_reduce_def replace_chan_def cg_noop_def cg_init_def)
  have "\<exists>U3. enrichDataNode demo_env (cg_reduce ?s0 ?U) = Inr U3"
    by (simp add: enrichDataNode_def promise_all_def enrich_tasks_def demo_env_def)
  then obtain U3 where u3: "enrichDataNode demo_env (cg_reduce ?s0 ?U) = Inr U3" by blast
  let ?U4 = "cg_noop\<lparr>cu_summary := Some ''summary'', cu_timestamp := Some ''2025-01-01T00:00:00.000Z''\<rparr>"
  have u4: "summarizeResultsNode demo_env (cg_reduce (cg_reduce ?s0 ?U) U3) = Inr ?U4"
    by (simp add: summarizeResultsNode_def demo_env_def)
  have n: "(25::nat) = Suc (Suc (Suc 22))" by simp
  have run: "invoke (classifier_graph demo_env) 25 ?s0 =
      Done (cg_reduce (cg_reduce (cg_reduce ?s0 ?U) U3) ?U4) [''classifyInput'', ''enrichData'', ''summarizeResults'']"
    by (simp only: cg_invoke n cg_walk_classify u r sum.case(2) append_Nil cg_walk_tail u3 u4 append_Cons)
  have cat: "fst (classify_parse (env_parse demo_env demo_verdict)) \<notin> {JStr ''math'', JStr ''text'', JStr ''data''}"
    by (simp add: cp)
  have cls2: "env_classifier demo_env [SystemMessage classify_prompt, HumanMessage ''Add 3 and 4.''] = Inr demo_verdict"
    by (simp add: demo_env_def)
  from unknown_category_skips_processing [OF cls2 cat run]
  have "cs_response (cg_reduce (cg_reduce (cg_reduce ?s0 ?U) U3) ?U4) = None" by (simp add: cg_init_def)
  moreover have "cs_category (cg_reduce (cg_reduce (cg_reduce ?s0 ?U) U3) ?U4) = Some (JStr ''Math'')"
    "cs_confidence (cg_reduce (cg_reduce (cg_reduce ?s0 ?U) U3) ?U4) = Some (JNum (1/2))"
    using enrichDataNode_writes [OF u3] by (simp_all add: cg_reduce_def replace_chan_def cg_noop_def)
  ultimately show ?thesis using run by blast
qed


end
