(* ===== verification/Program_Output.thy ===== *)
theory Program_Output
  imports Functional_Logged Traced_Agent Classifier_Graph
begin

text \<open>
  The top levels of the programs: each invokes its agent and prints what it returns. A
  failing run makes the top-level \<open>await\<close> throw, so nothing after it is printed and the
  program ends with the error. \<open>src/graph.ts\<close> and the first half of
  \<open>src/unnamed/part_001\<close> print a title and one line \<open>[type]: content\<close> per message
  (kept as the message printed); the traced half of \<open>part_001\<close> prints the listing of
  \<open>functional.ts\<close> (\<open>Functional_Logged.print_results\<close>) and the Langfuse line; the
  demo of \<open>src/unnamed/part_000\<close> runs the classifier graph on three inputs in turn and
  prints four fields of each result. Fixed banner lines are not modelled.
\<close>

datatype listing_line = ResultsTitle | Listed message

definition results_listing :: "message list \<Rightarrow> listing_line list" where
  "results_listing result = ResultsTitle # map Listed result"

text \<open>\<open>src/graph.ts\<close>: \<open>agent.invoke({messages: [new HumanMessage("Add 3 and 4.")]})\<close> and the listing.\<close>

definition graph_main :: "chat_model \<Rightarrow> graph_error + listing_line list" where
  "graph_main llm =
     (case run_agent llm ''Add 3 and 4.'' of
        Done result tr \<Rightarrow> Inr (results_listing result)
      | Failed e tr \<Rightarrow> Inl e)"

text \<open>\<open>part_001\<close>, first half: \<open>agent.invoke([new HumanMessage("Add 3 and 4.")])\<close> and the listing.\<close>

definition functional_plain_main :: "chat_model \<Rightarrow> scheduler \<Rightarrow> (string + listing_line list) option" where
  "functional_plain_main llm sched =
     map_option (map_sum id results_listing) (functional_agent llm sched [HumanMessage ''Add 3 and 4.''])"

text \<open>
  \<open>part_001\<close>, second half: the run with its console log, then the final listing with
  the tool calls and the line pointing at Langfuse.
\<close>

definition traced_main :: "chat_model \<Rightarrow> graph_error + log_event list \<times> console_line list" where
  "traced_main llm =
     (case run_traced_agent llm ''Add 3 and 4.'' of
        Done (messages, console) tr \<Rightarrow> Inr (console, print_results messages @ [LangfuseNotice])
      | Failed e tr \<Rightarrow> Inl e)"

text \<open>
  The demo of \<open>part_000\<close>: \<open>JSON.stringify\<close> of the category, path, response and
  summary of a result (undefined fields are left out).
\<close>

record demo_view =
  dv_category :: "json option"
  dv_path :: "string option"
  dv_response :: "tool_output option"
  dv_summary :: "string option"

definition demo_view_of :: "cg_state \<Rightarrow> demo_view" where
  "demo_view_of result =
     \<lparr>dv_category = cs_category result, dv_path = cs_path result,
      dv_response = cs_response result, dv_summary = cs_summary result\<rparr>"

text \<open>
  The three examples, one after the other; each run has its own collaborators (model
  answers, clock, settle order). The inputs are ASCII stand-ins for the Japanese
  prompts: a calculation, an upper-casing request and a list of numbers to analyse.
\<close>

definition cg_demo_inputs :: "string list" where
  "cg_demo_inputs = [''Calculate 123 x 456 + 789'', ''Convert hello world to upper case'',
                     ''Analyse the numbers: 10, 20, 30, 40, 50'']"

definition cg_demo :: "cg_env list \<Rightarrow> graph_error + demo_view list" where
  "cg_demo envs =
     map_seq (\<lambda>(env, input).
               case runComplexGraph env input of
                 Done result tr \<Rightarrow> Inr (demo_view_of result)
               | Failed e tr \<Rightarrow> Inl e)
       (zip envs cg_demo_inputs)"

subsection \<open>What the programs print\<close>

text \<open>
  On the spec's scenario the two plain programs print different listings: \<open>graph.ts\<close>
  lists the four messages of the spec, the functional version only the first three.
\<close>

lemma graph_main_add_3_and_4:
  "graph_main (scripted [('''', [add_3_4]), (''7'', [])]) =
     Inr [ResultsTitle, Listed (HumanMessage ''Add 3 and 4.''), Listed (AIMessage '''' [add_3_4]),
          Listed (ToolMessage (ONum (Fin 7)) ''call_1''), Listed (AIMessage ''7'' [])]"
  by (simp add: graph_main_def run_agent_def agent_builder_eq invoke_agent default_recursion_limit_def
      add_messages_def add_3_4_walk results_listing_def)

lemma functional_plain_main_add_3_and_4:
  "sched_ok sched \<Longrightarrow> functional_plain_main (scripted [('''', [add_3_4]), (''7'', [])]) sched =
     Some (Inr [ResultsTitle, Listed (HumanMessage ''Add 3 and 4.''), Listed (AIMessage '''' [add_3_4]),
          Listed (ToolMessage (ONum (Fin 7)) ''call_1'')])"
  by (simp add: functional_plain_main_def results_listing_def functional_add_3_and_4)

text \<open>The traced program lists exactly the transcript the plain \<open>graph.ts\<close> run returns.\<close>

lemma traced_main_lists_graph_result:
  assumes "traced_main llm = Inr (console, out)"
  shows "\<exists>messages tr. run_agent llm ''Add 3 and 4.'' = Done messages tr \<and>
           out = print_results messages @ [LangfuseNotice]"
proof -
  from assms obtain messages tr where
    r: "run_traced_agent llm ''Add 3 and 4.'' = Done (messages, console) tr" and
    o: "out = print_results messages @ [LangfuseNotice]"
    by (auto simp: traced_main_def split: walk_result.splits prod.splits)
  have "map_walk_result fst (run_traced_agent llm ''Add 3 and 4.'') = run_agent llm ''Add 3 and 4.''"
    using traced_invoke_project [of llm default_recursion_limit "(add_messages [] [HumanMessage ''Add 3 and 4.''], [])"]
    by (simp add: run_traced_agent_def run_agent_def traced_builder_eq agent_builder_eq)
  with r have "run_agent llm ''Add 3 and 4.'' = Done messages tr" by simp
  with o show ?thesis by blast
qed

text \<open>The demo prints three results exactly when its three runs finish; the first failing run ends it.\<close>

lemma cg_demo_ok:
  "cg_demo [env1, env2, env3] = Inr vs \<Longrightarrow> length vs = 3"
  by (auto simp: cg_demo_def cg_demo_inputs_def split: walk_result.splits sum.splits)

end
