(* ===== verification/Classifier_Trace.thy ===== *)
theory Classifier_Trace
  imports Program_Output
begin

text \<open>
  The trace utilities of \<open>src/unnamed/part_000\<close> (lines 155--175) and the nodes that
  call them. \<open>traceDepth\<close> is a module-global counter: \<open>trace\<close> prints a line indented
  by \<open>"  ".repeat(traceDepth)\<close> (which throws a \<open>RangeError\<close> on a negative count) and,
  when its data is truthy, a second line with the data; \<open>traceEnter\<close> prints and then
  raises the depth, \<open>traceExit\<close> lowers it and then prints. The global is the record
  \<open>tracer\<close>, threaded through a state-and-exception type in which a throw keeps the
  mutations made before it, as in JavaScript. A line is kept as its indentation and
  the values it prints (the texts, the timestamp and the JSON layout are not modelled).
  Every node of the classifier graph becomes a traced node; the graph carries the
  tracer beside its state (the nodes run one at a time, so the global is a channel that
  each node replaces). The router prints too; the executor keeps only its label.
\<close>

datatype trace_msg =
    EnterMsg string
  | ExitMsg string
  | ToolCountMsg nat
  | CallMsg string
  | ResultMsg
  | TaskMsg nat
  | RouteMsg "json option"

text \<open>The data of a line: a JSON value, or the content of a tool message.\<close>

datatype trace_data = DJson json | DContent tool_output

datatype trace_line = TraceLine nat trace_msg | TraceData nat trace_data

record tracer =
  traceDepth :: int
  trace_out :: "trace_line list"

type_synonym 'a traced = "tracer \<Rightarrow> (string + 'a) \<times> tracer"

definition treturn :: "'a \<Rightarrow> 'a traced" where
  "treturn a tr = (Inr a, tr)"

definition traise :: "string \<Rightarrow> 'a traced" where
  "traise e tr = (Inl e, tr)"

definition tbind :: "'a traced \<Rightarrow> ('a \<Rightarrow> 'b traced) \<Rightarrow> 'b traced" where
  "tbind m f tr = (case m tr of (Inl e, tr') \<Rightarrow> (Inl e, tr') | (Inr a, tr') \<Rightarrow> f a tr')"

text \<open>\<open>if (data)\<close>: the content of a tool message is a string or a number.\<close>

fun data_truthy :: "trace_data \<Rightarrow> bool" where
  "data_truthy (DJson j) = truthy j"
| "data_truthy (DContent (OStr s)) = (s \<noteq> [])"
| "data_truthy (DContent (ONum (Fin r))) = (r \<noteq> 0)"
| "data_truthy (DContent (ONum NaN)) = False"
| "data_truthy (DContent (ONum v)) = True"
| "data_truthy (DContent (OJson j)) = True"

text \<open>The lines one call of \<open>trace\<close> prints at a given indentation.\<close>

definition trace_lines :: "nat \<Rightarrow> trace_msg \<Rightarrow> trace_data option \<Rightarrow> trace_line list" where
  "trace_lines indent message data =
     TraceLine indent message #
       (case data of Some d \<Rightarrow> if data_truthy d then [TraceData indent d] else [] | None \<Rightarrow> [])"

definition trace :: "trace_msg \<Rightarrow> trace_data option \<Rightarrow> unit traced" where
  "trace message data tr =
     (if traceDepth tr < 0 then (Inl ''RangeError: Invalid count value'', tr)
      else (Inr (), tr\<lparr>trace_out := trace_out tr @ trace_lines (nat (traceDepth tr)) message data\<rparr>))"

definition traceEnter :: "string \<Rightarrow> trace_data option \<Rightarrow> unit traced" where
  "traceEnter name input =
     tbind (trace (EnterMsg name) input) (\<lambda>_ tr. (Inr (), tr\<lparr>traceDepth := traceDepth tr + 1\<rparr>))"

definition traceExit :: "string \<Rightarrow> trace_data option \<Rightarrow> unit traced" where
  "traceExit name output tr = trace (ExitMsg name) output (tr\<lparr>traceDepth := traceDepth tr - 1\<rparr>)"

text \<open>An object literal with a field that may be \<open>undefined\<close> (\<open>JSON.stringify\<close> drops it).\<close>

definition opt_field :: "string \<Rightarrow> json option \<Rightarrow> (string \<times> json) list" where
  "opt_field k v = (case v of Some x \<Rightarrow> [(k, x)] | None \<Rightarrow> [])"

fun content_of :: "message \<Rightarrow> tool_output" where
  "content_of (ToolMessage out cid) = out"
| "content_of (AIMessage c calls) = OStr c"
| "content_of (HumanMessage c) = OStr c"
| "content_of (SystemMessage c) = OStr c"

fun line_indent :: "trace_line \<Rightarrow> nat" where
  "line_indent (TraceLine n m) = n"
| "line_indent (TraceData n d) = n"

text \<open>
  From \<open>tr\<close> to \<open>tr'\<close> the depth is unchanged and the output only grew, by lines
  indented at least \<open>d\<close>.
\<close>

definition trace_extends :: "nat \<Rightarrow> tracer \<Rightarrow> tracer \<Rightarrow> bool" where
  "trace_extends d tr tr' \<longleftrightarrow>
     traceDepth tr' = traceDepth tr \<and>
     (\<exists>new. trace_out tr' = trace_out tr @ new \<and> (\<forall>l \<in> set new. d \<le> line_indent l))"

subsection \<open>The traced nodes\<close>

definition classifyInputNode_t :: "cg_env \<Rightarrow> cg_state \<Rightarrow> cg_update traced" where
  "classifyInputNode_t env st =
     tbind (traceEnter ''classifyInput'' (Some (DJson (JObj [(''input'', JStr (cs_input st))])))) (\<lambda>_.
     (case env_classifier env [SystemMessage classify_prompt, HumanMessage (cs_input st)] of
        Inl e \<Rightarrow> traise e
      | Inr content \<Rightarrow>
          (let (category, confidence) = classify_parse (env_parse env content) in
           tbind (traceExit ''classifyInput'' (Some (DJson (JObj [(''category'', category), (''confidence'', confidence)]))))
             (\<lambda>_. treturn (cg_noop\<lparr>cu_category := Some category, cu_confidence := Some confidence\<rparr>)))))"

text \<open>The loop over the tool calls: the call line, the tool, the result line.\<close>

fun tool_loop_t :: "(string \<Rightarrow> string + string) \<Rightarrow> tool_call list \<Rightarrow> message list traced" where
  "tool_loop_t ev [] = treturn []"
| "tool_loop_t ev (toolCall # calls) =
     tbind (trace (CallMsg (tc_name toolCall)) (Some (DJson (tc_args toolCall)))) (\<lambda>_.
     (case cg_call_tool ev toolCall of
        Inl e \<Rightarrow> traise (tool_error_msg e)
      | Inr result \<Rightarrow>
          tbind (trace ResultMsg (Some (DContent (content_of result)))) (\<lambda>_.
          tbind (tool_loop_t ev calls) (\<lambda>results. treturn (result # results)))))"

definition process_with_tools_t :: "string \<Rightarrow> string \<Rightarrow> string \<Rightarrow> cg_env \<Rightarrow> cg_state \<Rightarrow> cg_update traced" where
  "process_with_tools_t name prompt path env st =
     tbind (traceEnter name (Some (DJson (JObj [(''input'', JStr (cs_input st))])))) (\<lambda>_.
     (case env_tool_model env [SystemMessage prompt, HumanMessage (cs_input st)] of
        Inl e \<Rightarrow> traise e
      | Inr (c, calls) \<Rightarrow>
          tbind (if calls \<noteq> [] then tbind (trace (ToolCountMsg (length calls)) None) (\<lambda>_. tool_loop_t (env_eval env) calls)
                 else treturn []) (\<lambda>results.
          tbind (traceExit name (Some (DJson (JObj [(''processed'', JBool True)])))) (\<lambda>_.
          treturn (cg_noop\<lparr>cu_processed := Some True, cu_path := Some path,
                           cu_response := Some (response_text results)\<rparr>)))))"

definition processMathNode_t :: "cg_env \<Rightarrow> cg_state \<Rightarrow> cg_update traced" where
  "processMathNode_t = process_with_tools_t ''processMath'' math_prompt ''math''"

definition processTextNode_t :: "cg_env \<Rightarrow> cg_state \<Rightarrow> cg_update traced" where
  "processTextNode_t = process_with_tools_t ''processTextPath'' text_prompt ''text''"

definition processDataNode_t :: "cg_env \<Rightarrow> cg_state \<Rightarrow> cg_update traced" where
  "processDataNode_t = process_with_tools_t ''processDataPath'' data_prompt ''data''"

text \<open>
  The three sub-tasks are \<open>async\<close> arrow functions called in declaration order: each
  prints its line before its first \<open>await\<close>, so the lines come in that order whatever
  the order in which the tasks settle.
\<close>

definition enrichDataNode_t :: "cg_env \<Rightarrow> cg_state \<Rightarrow> cg_update traced" where
  "enrichDataNode_t env st =
     tbind (traceEnter ''enrichData'' (Some (DJson (JObj (opt_field ''category'' (cs_category st)))))) (\<lambda>_.
     tbind (trace (TaskMsg 1) None) (\<lambda>_.
     tbind (trace (TaskMsg 2) None) (\<lambda>_.
     tbind (trace (TaskMsg 3) None) (\<lambda>_.
     (case promise_all (enrich_tasks (env_random env) st) (env_settle env) of
        Inl e \<Rightarrow> traise e
      | Inr enrichments \<Rightarrow>
          (let enrichmentData = JObj (obj_assign enrichments) in
           tbind (traceExit ''enrichData'' (Some (DJson enrichmentData)))
             (\<lambda>_. treturn (cg_noop\<lparr>cu_enrichments := Some enrichmentData\<rparr>))))))))"

definition summarizeResultsNode_t :: "cg_env \<Rightarrow> cg_state \<Rightarrow> cg_update traced" where
  "summarizeResultsNode_t env st =
     tbind (traceEnter ''summarizeResults'' (Some (DJson (JObj (opt_field ''path'' (map_option JStr (cs_path st))))))) (\<lambda>_.
     (case env_summarizer env (summary_view st) of
        Inl e \<Rightarrow> traise e
      | Inr content \<Rightarrow>
          tbind (traceExit ''summarizeResults'' (Some (DJson (JObj [(''hasSummary'', JBool True)]))))
            (\<lambda>_. treturn (cg_noop\<lparr>cu_summary := Some content, cu_timestamp := Some (env_now env)\<rparr>))))"

text \<open>\<open>routeByCategory\<close> with its trace line; the executor keeps only the label.\<close>

definition routeByCategory_t :: "cg_state \<Rightarrow> label traced" where
  "routeByCategory_t st = tbind (trace (RouteMsg (cs_category st)) None) (\<lambda>_. treturn (routeByCategory st))"

subsection \<open>The traced graph and run\<close>

type_synonym cg_traced_state = "cg_state \<times> tracer"

definition tnode :: "(cg_state \<Rightarrow> cg_update traced) \<Rightarrow> cg_traced_state \<Rightarrow> string + cg_update \<times> tracer" where
  "tnode f st = (case f (fst st) (snd st) of (Inl e, tr) \<Rightarrow> Inl e | (Inr u, tr) \<Rightarrow> Inr (u, tr))"

definition cg_traced_reduce :: "cg_traced_state \<Rightarrow> cg_update \<times> tracer \<Rightarrow> cg_traced_state" where
  "cg_traced_reduce st u = (cg_reduce (fst st) (fst u), snd u)"

definition cg_traced_graph :: "cg_env \<Rightarrow> (cg_traced_state, cg_update \<times> tracer) state_graph" where
  "cg_traced_graph env =
     \<lparr>sg_reduce = cg_traced_reduce,
      sg_nodes = [(''classifyInput'', tnode (classifyInputNode_t env)), (''processMath'', tnode (processMathNode_t env)),
                  (''processText'', tnode (processTextNode_t env)), (''processData'', tnode (processDataNode_t env)),
                  (''enrichData'', tnode (enrichDataNode_t env)), (''summarizeResults'', tnode (summarizeResultsNode_t env))],
      sg_edges = [(START, Static ''classifyInput''),
                  (''classifyInput'', Conditional (\<lambda>st. routeByCategory (fst st))
                     (path_list [''processMath'', ''processText'', ''processData'', ''enrichData''])),
                  (''processMath'', Static ''enrichData''), (''processText'', Static ''enrichData''),
                  (''processData'', Static ''enrichData''), (''enrichData'', Static ''summarizeResults''),
                  (''summarizeResults'', Static END)]\<rparr>"

datatype run_error = TraceError string | GraphError graph_error

text \<open>\<open>runComplexGraph\<close> with its \<open>traceEnter\<close>/\<open>traceExit\<close> around the invoke (the Langfuse trace id is not modelled).\<close>

definition runComplexGraph_t :: "cg_env \<Rightarrow> string \<Rightarrow> tracer \<Rightarrow> run_error + cg_state \<times> tracer" where
  "runComplexGraph_t env input tr =
     (case traceEnter ''complexAgent'' (Some (DJson (JObj [(''input'', JStr input)]))) tr of
        (Inl e, tr1) \<Rightarrow> Inl (TraceError e)
      | (Inr _, tr1) \<Rightarrow>
          (case invoke (cg_traced_graph env) default_recursion_limit (cg_init input, tr1) of
             Failed e nodes \<Rightarrow> Inl (GraphError e)
           | Done (result, tr2) nodes \<Rightarrow>
               (case traceExit ''complexAgent'' (Some (DJson (JObj (opt_field ''path'' (map_option JStr (cs_path result)))))) tr2 of
                  (Inl e, tr3) \<Rightarrow> Inl (TraceError e)
                | (Inr _, tr3) \<Rightarrow> Inr (result, tr3))))"

text \<open>The demo's three runs share the global counter.\<close>

fun demo_runs_t :: "(cg_env \<times> string) list \<Rightarrow> tracer \<Rightarrow> run_error + demo_view list \<times> tracer" where
  "demo_runs_t [] tr = Inr ([], tr)"
| "demo_runs_t ((env, input) # runs) tr =
     (case runComplexGraph_t env input tr of
        Inl e \<Rightarrow> Inl e
      | Inr (result, tr') \<Rightarrow>
          (case demo_runs_t runs tr' of
             Inl e \<Rightarrow> Inl e
           | Inr (views, tr'') \<Rightarrow> Inr (demo_view_of result # views, tr'')))"

definition cg_demo_t :: "cg_env list \<Rightarrow> tracer \<Rightarrow> run_error + demo_view list \<times> tracer" where
  "cg_demo_t envs tr = demo_runs_t (zip envs cg_demo_inputs) tr"

text \<open>
  A traced node is sound for a node when, from a non-negative depth, it computes what
  the node computes and, when it returns, leaves the depth as it found it and only
  appends lines at least that deep.
\<close>

definition node_sound :: "(cg_state \<Rightarrow> cg_update traced) \<Rightarrow> (cg_state \<Rightarrow> string + cg_update) \<Rightarrow> bool" where
  "node_sound f_t f \<longleftrightarrow>
     (\<forall>st tr. 0 \<le> traceDepth tr \<longrightarrow>
        fst (f_t st tr) = f st \<and>
        (\<forall>u tr'. f_t st tr = (Inr u, tr') \<longrightarrow> trace_extends (nat (traceDepth tr)) tr tr'))"

subsection \<open>The trace utilities\<close>

lemma tbind_simps [simp]:
  "tbind (treturn a) f = f a"
  "tbind (traise e) f = traise e"
  by (auto simp: tbind_def treturn_def traise_def fun_eq_iff)

lemma trace_lines_indent: "l \<in> set (trace_lines n m x) \<Longrightarrow> line_indent l = n"
  by (auto simp: trace_lines_def split: option.splits if_splits)

lemma trace_ok:
  "0 \<le> traceDepth tr \<Longrightarrow>
     trace m x tr = (Inr (), tr\<lparr>trace_out := trace_out tr @ trace_lines (nat (traceDepth tr)) m x\<rparr>)"
  by (simp add: trace_def)

lemma traceEnter_ok:
  "0 \<le> traceDepth tr \<Longrightarrow>
     traceEnter name x tr =
       (Inr (), tr\<lparr>traceDepth := traceDepth tr + 1,
                   trace_out := trace_out tr @ trace_lines (nat (traceDepth tr)) (EnterMsg name) x\<rparr>)"
  by (simp add: traceEnter_def tbind_def trace_ok)

lemma traceExit_ok:
  "1 \<le> traceDepth tr \<Longrightarrow>
     traceExit name x tr =
       (Inr (), tr\<lparr>traceDepth := traceDepth tr - 1,
                   trace_out := trace_out tr @ trace_lines (nat (traceDepth tr - 1)) (ExitMsg name) x\<rparr>)"
  by (simp add: traceExit_def trace_ok)

lemma trace_extends_refl: "trace_extends d tr tr"
  by (auto simp: trace_extends_def)

lemma trace_extends_trans:
  "trace_extends d tr1 tr2 \<Longrightarrow> trace_extends d tr2 tr3 \<Longrightarrow> trace_extends d tr1 tr3"
  by (auto simp: trace_extends_def)

lemma trace_extends_mono: "trace_extends d tr tr' \<Longrightarrow> d' \<le> d \<Longrightarrow> trace_extends d' tr tr'"
  by (fastforce simp: trace_extends_def)

lemma trace_extends_lines:
  "trace_extends d tr (tr\<lparr>trace_out := trace_out tr @ trace_lines d m x\<rparr>)"
  by (auto simp: trace_extends_def dest: trace_lines_indent)

subsection \<open>The traced nodes compute the nodes\<close>

text \<open>
  At a non-negative depth the traced loop returns what the loop of
  \<open>process_with_tools\<close> returns, and when it returns it leaves the depth as it found it
  and only appends lines at that depth.
\<close>

lemma tool_loop_t_ok:
  "0 \<le> traceDepth tr \<Longrightarrow>
     fst (tool_loop_t ev calls tr) = map_sum tool_error_msg id (map_seq (cg_call_tool ev) calls) \<and>
     (\<forall>rs tr'. tool_loop_t ev calls tr = (Inr rs, tr') \<longrightarrow> trace_extends (nat (traceDepth tr)) tr tr')"
proof (induction calls arbitrary: tr)
  case Nil
  then show ?case by (simp add: treturn_def trace_extends_refl)
next
  case (Cons c calls)
  let ?d = "nat (traceDepth tr)"
  define tr1 where "tr1 = tr\<lparr>trace_out := trace_out tr @ trace_lines ?d (CallMsg (tc_name c)) (Some (DJson (tc_args c)))\<rparr>"
  have t1: "trace (CallMsg (tc_name c)) (Some (DJson (tc_args c))) tr = (Inr (), tr1)"
    using Cons.prems by (simp add: trace_ok tr1_def)
  have e1: "trace_extends ?d tr tr1" unfolding tr1_def by (rule trace_extends_lines)
  show ?case
  proof (cases "cg_call_tool ev c")
    case (Inl e)
    then show ?thesis by (simp add: tbind_def t1 traise_def)
  next
    case (Inr m)
    note call = Inr
    define tr2 where "tr2 = tr1\<lparr>trace_out := trace_out tr1 @ trace_lines ?d ResultMsg (Some (DContent (content_of m)))\<rparr>"
    have t2: "trace ResultMsg (Some (DContent (content_of m))) tr1 = (Inr (), tr2)"
      using Cons.prems by (simp add: trace_ok tr1_def tr2_def)
    have e2: "trace_extends ?d tr1 tr2" unfolding tr2_def by (rule trace_extends_lines)
    have d2: "traceDepth tr2 = traceDepth tr" by (simp add: tr1_def tr2_def)
    with Cons.IH [of tr2] Cons.prems have IH:
      "fst (tool_loop_t ev calls tr2) = map_sum tool_error_msg id (map_seq (cg_call_tool ev) calls)"
      "\<And>rs tr'. tool_loop_t ev calls tr2 = (Inr rs, tr') \<Longrightarrow> trace_extends ?d tr2 tr'"
      by (simp_all add: id_def)
    show ?thesis
    proof (cases "map_seq (cg_call_tool ev) calls")
      case (Inl e)
      with IH(1) obtain tr3 where "tool_loop_t ev calls tr2 = (Inl (tool_error_msg e), tr3)"
        by (cases "tool_loop_t ev calls tr2") auto
      with Inl show ?thesis by (simp add: tbind_def t1 t2 call)
    next
      case (Inr rs)
      with IH(1) obtain tr3 where l: "tool_loop_t ev calls tr2 = (Inr rs, tr3)"
        by (cases "tool_loop_t ev calls tr2") auto
      have "trace_extends ?d tr tr3"
        by (rule trace_extends_trans [OF trace_extends_trans [OF e1 e2] IH(2) [OF l]])
      with l Inr show ?thesis by (simp add: tbind_def t1 t2 call treturn_def)
    qed
  qed
qed

lemma trace_extends_append:
  "traceDepth tr' = traceDepth tr \<Longrightarrow> trace_out tr' = trace_out tr @ xs \<Longrightarrow>
     \<forall>l \<in> set xs. d \<le> line_indent l \<Longrightarrow> trace_extends d tr tr'"
  by (auto simp: trace_extends_def)

lemma classifyInputNode_t_sound: "node_sound (classifyInputNode_t env) (classifyInputNode env)"
  unfolding node_sound_def
proof (intro allI impI)
  fix st tr
  assume d: "0 \<le> traceDepth (tr :: tracer)"
  show "fst (classifyInputNode_t env st tr) = classifyInputNode env st \<and>
        (\<forall>u tr'. classifyInputNode_t env st tr = (Inr u, tr') \<longrightarrow> trace_extends (nat (traceDepth tr)) tr tr')"
    using d
    by (auto simp: classifyInputNode_t_def classifyInputNode_def tbind_def traceEnter_ok traceExit_ok traise_def
        treturn_def Let_def trace_lines_indent split: sum.splits prod.splits
        intro!: trace_extends_append)
qed

text \<open>A \<open>traceEnter\<close>/\<open>traceExit\<close> pair around work that stays one level deeper.\<close>

lemma trace_bracket:
  assumes d: "0 \<le> traceDepth tr"
    and enter: "traceEnter name x tr = (Inr (), tr1)"
    and mid: "trace_extends (nat (traceDepth tr1)) tr1 tr2"
    and exit: "traceExit name y tr2 = (Inr (), tr3)"
  shows "trace_extends (nat (traceDepth tr)) tr tr3"
proof -
  from enter d have tr1: "traceDepth tr1 = traceDepth tr + 1"
    "trace_out tr1 = trace_out tr @ trace_lines (nat (traceDepth tr)) (EnterMsg name) x"
    by (auto simp: traceEnter_ok)
  from mid obtain new where tr2: "traceDepth tr2 = traceDepth tr + 1" "trace_out tr2 = trace_out tr1 @ new"
    and new: "\<forall>l \<in> set new. nat (traceDepth tr + 1) \<le> line_indent l"
    using tr1 by (auto simp: trace_extends_def)
  from exit tr2 d have tr3: "traceDepth tr3 = traceDepth tr"
    "trace_out tr3 = trace_out tr2 @ trace_lines (nat (traceDepth tr)) (ExitMsg name) y"
    by (auto simp: traceExit_ok)
  have "\<forall>l \<in> set new. nat (traceDepth tr) \<le> line_indent l"
    using new d by force
  then show ?thesis
    using tr1 tr2 tr3 by (intro trace_extends_append [where xs = "trace_lines (nat (traceDepth tr)) (EnterMsg name) x @ new @
        trace_lines (nat (traceDepth tr)) (ExitMsg name) y"]) (auto simp: trace_lines_indent)
qed

lemma trace_extends_step:
  "0 \<le> traceDepth tr \<Longrightarrow> trace m x tr = (Inr (), tr') \<Longrightarrow> trace_extends (nat (traceDepth tr)) tr tr'"
  by (auto simp: trace_ok intro: trace_extends_lines)

lemma process_with_tools_t_sound:
  "node_sound (process_with_tools_t name prompt path env) (process_with_tools prompt path env)"
  unfolding node_sound_def
proof (intro allI impI)
  fix st :: cg_state and tr :: tracer
  assume d: "0 \<le> traceDepth tr"
  let ?x = "Some (DJson (JObj [(''input'', JStr (cs_input st))]))"
  let ?y = "Some (DJson (JObj [(''processed'', JBool True)]))"
  obtain tr1 where enter: "traceEnter name ?x tr = (Inr (), tr1)" using traceEnter_ok [OF d] by blast
  have d1: "traceDepth tr1 = traceDepth tr + 1" using enter d by (auto simp: traceEnter_ok)
  show "fst (process_with_tools_t name prompt path env st tr) = process_with_tools prompt path env st \<and>
        (\<forall>u tr'. process_with_tools_t name prompt path env st tr = (Inr u, tr') \<longrightarrow>
                  trace_extends (nat (traceDepth tr)) tr tr')"
  proof (cases "env_tool_model env [SystemMessage prompt, HumanMessage (cs_input st)]")
    case (Inl e)
    then show ?thesis
      by (simp add: process_with_tools_t_def process_with_tools_def tbind_def enter traise_def)
  next
    case (Inr r)
    obtain c calls where r: "r = (c, calls)" by fastforce
    let ?body = "if calls \<noteq> [] then tbind (trace (ToolCountMsg (length calls)) None) (\<lambda>_. tool_loop_t (env_eval env) calls)
                 else treturn []"
    obtain b tr2 where body: "?body tr1 = (b, tr2)" by fastforce
    have body_ok: "b = map_sum tool_error_msg id (map_seq (cg_call_tool (env_eval env)) calls) \<and>
                   (\<forall>rs. b = Inr rs \<longrightarrow> trace_extends (nat (traceDepth tr1)) tr1 tr2)"
    proof (cases "calls = []")
      case True
      with body show ?thesis by (auto simp: treturn_def trace_extends_refl)
    next
      case False
      have d1': "0 \<le> traceDepth tr1" using d d1 by simp
      obtain trc where tc: "trace (ToolCountMsg (length calls)) None tr1 = (Inr (), trc)"
        using trace_ok [OF d1'] by blast
      have ec: "trace_extends (nat (traceDepth tr1)) tr1 trc" by (rule trace_extends_step [OF d1' tc])
      then have dc: "traceDepth trc = traceDepth tr1" by (simp add: trace_extends_def)
      from False body tc have loop: "tool_loop_t (env_eval env) calls trc = (b, tr2)" by (simp add: tbind_def)
      from tool_loop_t_ok [of trc "env_eval env" calls] d1' dc have
        "fst (tool_loop_t (env_eval env) calls trc) = map_sum tool_error_msg id (map_seq (cg_call_tool (env_eval env)) calls)"
        "\<And>rs tr'. tool_loop_t (env_eval env) calls trc = (Inr rs, tr') \<Longrightarrow> trace_extends (nat (traceDepth tr1)) trc tr'"
        by simp_all
      with loop show ?thesis
        using trace_extends_trans [OF ec] by auto
    qed
    show ?thesis
    proof (cases "map_seq (cg_call_tool (env_eval env)) calls")
      case (Inl e)
      with body_ok have "b = Inl (tool_error_msg e)" by simp
      with body Inl \<open>env_tool_model env [SystemMessage prompt, HumanMessage (cs_input st)] = Inr r\<close> r
      show ?thesis by (simp add: process_with_tools_t_def process_with_tools_def tbind_def enter)
    next
      case (Inr rs)
      note ok = this
      with body_ok have b: "b = Inr rs" and mid: "trace_extends (nat (traceDepth tr1)) tr1 tr2" by simp_all
      then have d2: "traceDepth tr2 = traceDepth tr + 1" using d1 by (simp add: trace_extends_def)
      obtain tr3 where exit: "traceExit name ?y tr2 = (Inr (), tr3)"
        using traceExit_ok [of tr2] d d2 by auto
      have "trace_extends (nat (traceDepth tr)) tr tr3" by (rule trace_bracket [OF d enter mid exit])
      with body b ok exit \<open>env_tool_model env [SystemMessage prompt, HumanMessage (cs_input st)] = Inr r\<close> r
      show ?thesis
        by (simp add: process_with_tools_t_def process_with_tools_def tbind_def enter treturn_def)
    qed
  qed
qed

lemma summarizeResultsNode_t_sound: "node_sound (summarizeResultsNode_t env) (summarizeResultsNode env)"
  unfolding node_sound_def
  by (auto simp: summarizeResultsNode_t_def summarizeResultsNode_def tbind_def traceEnter_ok traceExit_ok traise_def
      treturn_def trace_lines_indent split: sum.splits prod.splits intro!: trace_extends_append)

lemma enrichDataNode_t_sound: "node_sound (enrichDataNode_t env) (enrichDataNode env)"
  unfolding node_sound_def
  by (auto simp: enrichDataNode_t_def enrichDataNode_def tbind_def traceEnter_ok traceExit_ok trace_ok traise_def
      treturn_def Let_def trace_lines_indent split: sum.splits prod.splits intro!: trace_extends_append)

lemma processNodes_t_sound:
  "node_sound (processMathNode_t env) (processMathNode env)"
  "node_sound (processTextNode_t env) (processTextNode env)"
  "node_sound (processDataNode_t env) (processDataNode env)"
  by (simp_all add: processMathNode_t_def processMathNode_def processTextNode_t_def processTextNode_def
      processDataNode_t_def processDataNode_def process_with_tools_t_sound)

subsection \<open>The traced graph computes the classifier graph\<close>

lemma cg_traced_nodes:
  "map_of (sg_nodes (cg_traced_graph env)) n = Some f' \<Longrightarrow>
     \<exists>f_t f. f' = tnode f_t \<and> map_of (sg_nodes (classifier_graph env)) n = Some f \<and> node_sound f_t f"
  by (auto simp: cg_traced_graph_def classifier_graph_def classifyInputNode_t_sound processNodes_t_sound
      enrichDataNode_t_sound summarizeResultsNode_t_sound split: if_splits)

lemma tnode_sound:
  assumes "node_sound f_t f" "0 \<le> traceDepth (snd st)"
  shows "map_sum id fst (tnode f_t st) = f (fst st)"
    and "tnode f_t st = Inr u \<Longrightarrow> trace_extends (nat (traceDepth (snd st))) (snd st) (snd u)"
proof -
  from assms have f: "fst (f_t (fst st) (snd st)) = f (fst st)"
    and e: "\<And>u tr'. f_t (fst st) (snd st) = (Inr u, tr') \<Longrightarrow> trace_extends (nat (traceDepth (snd st))) (snd st) tr'"
    unfolding node_sound_def by blast+
  show "map_sum id fst (tnode f_t st) = f (fst st)"
    using f by (cases "f_t (fst st) (snd st)") (auto simp: tnode_def split: sum.splits)
  show "tnode f_t st = Inr u \<Longrightarrow> trace_extends (nat (traceDepth (snd st))) (snd st) (snd u)"
    using e by (cases "f_t (fst st) (snd st)") (auto simp: tnode_def split: sum.splits)
qed

lemma cg_traced_route: "route (cg_traced_graph env) n st = route (classifier_graph env) n (fst st)"
  by (simp add: route_def cg_traced_graph_def classifier_graph_def)

text \<open>
  Started at a non-negative depth, the traced graph runs as the classifier graph does,
  and a finished run leaves the depth as it found it, only appending lines at least
  that deep.
\<close>

lemma cg_traced_invoke:
  assumes d: "0 \<le> traceDepth tr"
  shows "map_walk_result fst (invoke (cg_traced_graph env) k (s, tr)) = invoke (classifier_graph env) k s"
    and "invoke (cg_traced_graph env) k (s, tr) = Done (s', tr') nodes \<Longrightarrow> trace_extends (nat (traceDepth tr)) tr tr'"
proof -
  let ?I = "\<lambda>st :: cg_traced_state. trace_extends (nat (traceDepth tr)) tr (snd st)"
  have depth: "?I st \<Longrightarrow> 0 \<le> traceDepth (snd st) \<and> nat (traceDepth (snd st)) = nat (traceDepth tr)" for st
    using d by (simp add: trace_extends_def)
  have inv: "?I (sg_reduce (cg_traced_graph env) st u)"
    if "?I st" "map_of (sg_nodes (cg_traced_graph env)) n = Some f'" "f' st = Inr u" for n f' st u
  proof -
    from cg_traced_nodes [OF that(2)] obtain f_t f where "f' = tnode f_t" "node_sound f_t f" by blast
    with tnode_sound(2) [of f_t f st u] that depth [OF that(1)]
    have "trace_extends (nat (traceDepth tr)) (snd st) (snd u)" by simp
    with that(1) show ?thesis
      by (simp add: cg_traced_graph_def cg_traced_reduce_def trace_extends_trans)
  qed
  have "map_walk_result fst (invoke (cg_traced_graph env) k (s, tr)) = invoke (classifier_graph env) k (fst (s, tr))"
  proof (rule invoke_project_inv [where I = ?I and \<rho> = fst])
    show "map_of (sg_nodes (cg_traced_graph env)) n = None \<longleftrightarrow> map_of (sg_nodes (classifier_graph env)) n = None" for n
      by (simp add: cg_traced_graph_def classifier_graph_def)
    show "map_sum id fst (f' st) = f (fst st)"
      if "?I st" "map_of (sg_nodes (cg_traced_graph env)) n = Some f'" "map_of (sg_nodes (classifier_graph env)) n = Some f"
      for n f' f st
    proof -
      from cg_traced_nodes [OF that(2)] that(3) obtain f_t where "f' = tnode f_t" "node_sound f_t f" by auto
      with tnode_sound(1) [of f_t f st] depth [OF that(1)] show ?thesis by simp
    qed
    show "?I (sg_reduce (cg_traced_graph env) st u)"
      if "?I st" "map_of (sg_nodes (cg_traced_graph env)) n = Some f'" "f' st = Inr u" for n f' st u
      using inv that by blast
    show "fst (sg_reduce (cg_traced_graph env) st u) = sg_reduce (classifier_graph env) (fst st) (fst u)" for st u
      by (simp add: cg_traced_graph_def classifier_graph_def cg_traced_reduce_def)
    show "route (cg_traced_graph env) n st = route (classifier_graph env) n (fst st)" for n st
      by (rule cg_traced_route)
    show "?I (s, tr)" by (simp add: trace_extends_refl)
  qed
  then show "map_walk_result fst (invoke (cg_traced_graph env) k (s, tr)) = invoke (classifier_graph env) k s"
    by simp
  show "invoke (cg_traced_graph env) k (s, tr) = Done (s', tr') nodes \<Longrightarrow> trace_extends (nat (traceDepth tr)) tr tr'"
    using invoke_inv [where I = ?I, OF inv _ ] trace_extends_refl [of _ tr] by fastforce
qed

subsection \<open>Runs and the demo\<close>

lemma runComplexGraph_invoke:
  "runComplexGraph env input = invoke (classifier_graph env) default_recursion_limit (cg_init input)"
  by (simp add: runComplexGraph_def cg_builder_eq)

text \<open>
  A traced run from a non-negative depth: either the run of the graph fails and the
  traced run reports its error, or both finish with the same state, the graph's lines
  sitting one level below the \<open>complexAgent\<close> lines that open and close the run.
\<close>

lemma runComplexGraph_t_cases:
  assumes d: "0 \<le> traceDepth tr"
  obtains (failed) e nodes where "runComplexGraph env input = Failed e nodes"
      "runComplexGraph_t env input tr = Inl (GraphError e)"
    | (finished) s nodes tr2 where "runComplexGraph env input = Done s nodes"
      "trace_extends (Suc (nat (traceDepth tr)))
         (tr\<lparr>traceDepth := traceDepth tr + 1,
             trace_out := trace_out tr @ trace_lines (nat (traceDepth tr)) (EnterMsg ''complexAgent'')
                                          (Some (DJson (JObj [(''input'', JStr input)])))\<rparr>) tr2"
      "runComplexGraph_t env input tr =
         Inr (s, tr2\<lparr>traceDepth := traceDepth tr2 - 1,
                     trace_out := trace_out tr2 @ trace_lines (nat (traceDepth tr)) (ExitMsg ''complexAgent'')
                                    (Some (DJson (JObj (opt_field ''path'' (map_option JStr (cs_path s))))))\<rparr>)"
proof -
  define tr1 where "tr1 = tr\<lparr>traceDepth := traceDepth tr + 1,
      trace_out := trace_out tr @ trace_lines (nat (traceDepth tr)) (EnterMsg ''complexAgent'')
                                   (Some (DJson (JObj [(''input'', JStr input)])))\<rparr>"
  have enter: "traceEnter ''complexAgent'' (Some (DJson (JObj [(''input'', JStr input)]))) tr = (Inr (), tr1)"
    using d by (simp add: traceEnter_ok tr1_def)
  have d1: "0 \<le> traceDepth tr1" "nat (traceDepth tr1) = Suc (nat (traceDepth tr))"
    using d by (simp_all add: tr1_def)
  have proj: "map_walk_result fst (invoke (cg_traced_graph env) default_recursion_limit (cg_init input, tr1)) =
      runComplexGraph env input"
    using cg_traced_invoke(1) [OF d1(1)] by (simp add: runComplexGraph_invoke)
  show ?thesis
  proof (cases "invoke (cg_traced_graph env) default_recursion_limit (cg_init input, tr1)")
    case (Failed e nodes)
    with proj enter show ?thesis by (intro failed [of e nodes]) (simp_all add: runComplexGraph_t_def)
  next
    case (Done st nodes)
    obtain s tr2 where st: "st = (s, tr2)" by fastforce
    have ext: "trace_extends (Suc (nat (traceDepth tr))) tr1 tr2"
      using cg_traced_invoke(2) [OF d1(1)] Done st d1(2) by simp
    then have "traceDepth tr2 = traceDepth tr + 1" by (simp add: trace_extends_def tr1_def)
    with d have exit: "traceExit ''complexAgent'' (Some (DJson (JObj (opt_field ''path'' (map_option JStr (cs_path s)))))) tr2 =
        (Inr (), tr2\<lparr>traceDepth := traceDepth tr2 - 1,
                     trace_out := trace_out tr2 @ trace_lines (nat (traceDepth tr)) (ExitMsg ''complexAgent'')
                                    (Some (DJson (JObj (opt_field ''path'' (map_option JStr (cs_path s))))))\<rparr>)"
      by (simp add: traceExit_ok)
    from proj Done st have rd: "runComplexGraph env input = Done s nodes" by simp
    have r: "runComplexGraph_t env input tr =
         Inr (s, tr2\<lparr>traceDepth := traceDepth tr2 - 1,
                     trace_out := trace_out tr2 @ trace_lines (nat (traceDepth tr)) (ExitMsg ''complexAgent'')
                                    (Some (DJson (JObj (opt_field ''path'' (map_option JStr (cs_path s))))))\<rparr>)"
      by (simp add: runComplexGraph_t_def enter Done st exit)
    show ?thesis by (rule finished [OF rd ext [unfolded tr1_def] r])
  qed
qed

text \<open>
  The traced demo from a non-negative depth: each run starts where the previous one
  left the depth, so the runs compute what the untraced runs compute.
\<close>

lemma demo_runs_t_proj:
  "0 \<le> traceDepth tr \<Longrightarrow>
     map_sum id fst (demo_runs_t runs tr) =
     map_sum GraphError id
       (map_seq (\<lambda>(env, input). case runComplexGraph env input of
                                  Done result nodes \<Rightarrow> Inr (demo_view_of result)
                                | Failed e nodes \<Rightarrow> Inl e) runs)"
proof (induction runs arbitrary: tr)
  case Nil
  then show ?case by simp
next
  case (Cons run runs)
  obtain env input where run: "run = (env, input)" by fastforce
  show ?case
  proof (cases rule: runComplexGraph_t_cases [OF Cons.prems, of env input, case_names failed finished])
    case (failed e nodes)
    then show ?thesis by (simp add: run)
  next
    case (finished s nodes tr2)
    let ?tr3 = "tr2\<lparr>traceDepth := traceDepth tr2 - 1,
                     trace_out := trace_out tr2 @ trace_lines (nat (traceDepth tr)) (ExitMsg ''complexAgent'')
                                    (Some (DJson (JObj (opt_field ''path'' (map_option JStr (cs_path s))))))\<rparr>"
    from finished(2) have "traceDepth ?tr3 = traceDepth tr" by (simp add: trace_extends_def)
    with Cons.prems Cons.IH [of ?tr3] have IH:
      "map_sum id fst (demo_runs_t runs ?tr3) =
       map_sum GraphError id (map_seq (\<lambda>(env, input). case runComplexGraph env input of
                                  Done result nodes \<Rightarrow> Inr (demo_view_of result)
                                | Failed e nodes \<Rightarrow> Inl e) runs)" by (simp add: id_def)
    show ?thesis
      using IH finished(1,3) run
      by (cases "demo_runs_t runs ?tr3") (auto split: sum.splits prod.splits)
  qed
qed

text \<open>The worked environment of \<open>Classifier_Graph\<close> finishes its run.\<close>

lemma demo_env_finishes: "\<exists>s nodes. runComplexGraph demo_env ''Add 3 and 4.'' = Done s nodes"
proof -
  let ?s0 = "cg_init ''Add 3 and 4.''"
  have cls: "env_classifier demo_env [SystemMessage classify_prompt, HumanMessage (cs_input ?s0)] = Inr demo_verdict"
    by (simp add: demo_env_def)
  have cp: "classify_parse (env_parse demo_env demo_verdict) = (JStr ''Math'', JNum (1/2))"
    by (simp add: demo_env_def classify_parse_def)
  let ?U = "cg_noop\<lparr>cu_category := Some (JStr ''Math''), cu_confidence := Some (JNum (1/2))\<rparr>"
  have u: "classifyInputNode demo_env ?s0 = Inr ?U"
    using classifyInputNode_Inr [OF cls] by (simp add: cp)
  have r: "routeByCategory (cg_reduce ?s0 ?U) = ''enrichData''"
    by (simp add: routeByCategory_def cg_reduce_def replace_chan_def cg_noop_def cg_init_def)
  have "\<exists>U3. enrichDataNode demo_env (cg_reduce ?s0 ?U) = Inr U3"
    by (simp add: enrichDataNode_def promise_all_def enrich_tasks_def demo_env_def)
  then obtain U3 where u3: "enrichDataNode demo_env (cg_reduce ?s0 ?U) = Inr U3" by blast
  let ?U4 = "cg_noop\<lparr>cu_summary := Some ''summary'', cu_timestamp := Some ''2025-01-01T00:00:00.000Z''\<rparr>"
  have u4: "summarizeResultsNode demo_env (cg_reduce (cg_reduce ?s0 ?U) U3) = Inr ?U4"
    by (simp add: summarizeResultsNode_def demo_env_def)
  have n: "default_recursion_limit = Suc (Suc (Suc 22))" by (simp add: default_recursion_limit_def)
  have "invoke (classifier_graph demo_env) default_recursion_limit ?s0 =
      Done (cg_reduce (cg_reduce (cg_reduce ?s0 ?U) U3) ?U4) [''classifyInput'', ''enrichData'', ''summarizeResults'']"
    by (simp only: cg_invoke n cg_walk_classify u r sum.case(2) append_Nil cg_walk_tail u3 u4 append_Cons)
  then show ?thesis by (auto simp: runComplexGraph_invoke)
qed

text \<open>
  C16. The trace output does not change the demo of \<open>part_000\<close>: from any
  non-negative starting depth of the global \<open>traceDepth\<close>, the demo with its trace
  calls (every node, the router and \<open>runComplexGraph\<close> printing through the shared
  counter) returns the views the demo without tracing returns, and fails with the same
  graph error when a run fails. The trace utilities never throw on the way.
\<close>

theorem cg_demo_t_refines:
  "0 \<le> traceDepth tr \<Longrightarrow> map_sum id fst (cg_demo_t envs tr) = map_sum GraphError id (cg_demo envs)"
  by (simp add: cg_demo_t_def cg_demo_def demo_runs_t_proj)

theorem cg_demo_t_refines_witness:
  "map_sum id fst (cg_demo_t [demo_env, demo_env, demo_env] \<lparr>traceDepth = 0, trace_out = []\<rparr>) =
     map_sum GraphError id (cg_demo [demo_env, demo_env, demo_env])"
  by (rule cg_demo_t_refines) simp

text \<open>
  C18. The indentation of a traced run nests: a run of \<open>runComplexGraph\<close> that
  returns, started at a non-negative depth \<open>d\<close>, leaves the global depth at \<open>d\<close>,
  and prints exactly its \<open>complexAgent\<close> entry lines at indentation \<open>d\<close>, then lines
  all indented more deeply than \<open>d\<close> (the nodes and their tool calls), then its exit
  lines at \<open>d\<close> carrying the path of the result.
\<close>

theorem runComplexGraph_t_nesting:
  assumes d: "0 \<le> traceDepth tr"
    and run: "runComplexGraph_t env input tr = Inr (s, tr')"
  shows "traceDepth tr' = traceDepth tr \<and>
    (\<exists>inner. trace_out tr' =
        trace_out tr @
        trace_lines (nat (traceDepth tr)) (EnterMsg ''complexAgent'') (Some (DJson (JObj [(''input'', JStr input)]))) @
        inner @
        trace_lines (nat (traceDepth tr)) (ExitMsg ''complexAgent'')
          (Some (DJson (JObj (opt_field ''path'' (map_option JStr (cs_path s)))))) \<and>
      (\<forall>l \<in> set inner. Suc (nat (traceDepth tr)) \<le> line_indent l))"
proof (cases rule: runComplexGraph_t_cases [OF d, of env input, case_names failed finished])
  case (failed e nodes)
  with run show ?thesis by simp
next
  case (finished s0 nodes tr2)
  from finished(2) obtain inner where
    tr2: "traceDepth tr2 = traceDepth tr + 1"
         "trace_out tr2 = trace_out tr @
            trace_lines (nat (traceDepth tr)) (EnterMsg ''complexAgent'') (Some (DJson (JObj [(''input'', JStr input)]))) @ inner"
    and inner: "\<forall>l \<in> set inner. Suc (nat (traceDepth tr)) \<le> line_indent l"
    by (auto simp: trace_extends_def)
  from finished(3) run have "s = s0" and tr': "tr' = tr2\<lparr>traceDepth := traceDepth tr2 - 1,
      trace_out := trace_out tr2 @ trace_lines (nat (traceDepth tr)) (ExitMsg ''complexAgent'')
                     (Some (DJson (JObj (opt_field ''path'' (map_option JStr (cs_path s0))))))\<rparr>" by auto
  with tr2 inner show ?thesis by auto
qed

theorem runComplexGraph_t_nesting_witness:
  "\<exists>s tr'. runComplexGraph_t demo_env ''Add 3 and 4.'' \<lparr>traceDepth = 0, trace_out = []\<rparr> = Inr (s, tr') \<and>
     traceDepth tr' = 0 \<and>
     (\<exists>inner. trace_out tr' =
        trace_lines 0 (EnterMsg ''complexAgent'') (Some (DJson (JObj [(''input'', JStr ''Add 3 and 4.'')]))) @
        inner @
        trace_lines 0 (ExitMsg ''complexAgent'') (Some (DJson (JObj (opt_field ''path'' (map_option JStr (cs_path s)))))) \<and>
      (\<forall>l \<in> set inner. 1 \<le> line_indent l))"
proof -
  let ?t0 = "\<lparr>traceDepth = 0, trace_out = []\<rparr> :: tracer"
  have d0: "0 \<le> traceDepth ?t0" by simp
  obtain s tr' where r: "runComplexGraph_t demo_env ''Add 3 and 4.'' ?t0 = Inr (s, tr')"
  proof (cases rule: runComplexGraph_t_cases [OF d0, of demo_env "''Add 3 and 4.''", case_names failed finished])
    case (failed e nodes)
    with demo_env_finishes show ?thesis by auto
  next
    case (finished s nodes tr2)
    then show ?thesis using that by blast
  qed
  from runComplexGraph_t_nesting [OF d0 r] r show ?thesis by auto
qed

end
