(* ===== verification/Devin_Graph.thy ===== *)
theory Devin_Graph
  imports Graph_Engine Js_Values "HOL-Library.Product_Lexorder"
begin

text \<open>
  The DeepWiki document-analysis graph of \<open>src/devin-mcp-graph.ts\<close>: five nodes over a
  state of eight replace channels, two routers (\<open>checkError\<close>,
  \<open>shouldAnswerQuestion\<close>), and three of the nodes reading the DeepWiki MCP server through
  the module-global client \<open>mcpClient\<close>. The server is a parameter (the outcome of each
  connection attempt, tool listing and tool call); the client and its connections are an
  explicit world carried in the graph state, so that \<open>initMCPClient\<close>'s caching and its
  leak on a failed \<open>listTools\<close> are visible. \<open>parseTopicList\<close> is the regular
  expression under JavaScript's backtracking semantics, and a one-pass matcher is proved to
  compute the same match.
\<close>

subsection \<open>\<open>parseTopicList\<close> (lines 154--167)\<close>

definition is_numdot :: "char \<Rightarrow> bool" where
  "is_numdot x \<longleftrightarrow> x = CHR ''.'' \<or> (48 \<le> (of_char x :: nat) \<and> (of_char x :: nat) \<le> 57)"

text \<open>
  The regular expression \<open>/^\s*-\s+[\d.]+\s+(.+)$/\<close> matched against one line. A match
  splits the line into \<open>a\<close> white-space characters, the dash, \<open>b \<ge> 1\<close> white-space
  characters, \<open>c \<ge> 1\<close> digits or dots, \<open>d \<ge> 1\<close> white-space characters and the
  captured rest, which is non-empty and holds no line terminator (\<open>.\<close> does not match
  one, and \<open>$\<close> without the \<open>m\<close> flag is the end of the input).
\<close>

definition topic_rx_valid :: "string \<Rightarrow> nat \<times> nat \<times> nat \<times> nat \<Rightarrow> bool" where
  "topic_rx_valid line v =
     (case v of (a, b, c, d) \<Rightarrow>
        a + 1 + b + c + d < length line \<and>
        list_all js_is_space (take a line) \<and> line ! a = CHR ''-'' \<and>
        0 < b \<and> list_all js_is_space (take b (drop (a + 1) line)) \<and>
        0 < c \<and> list_all is_numdot (take c (drop (a + 1 + b) line)) \<and>
        0 < d \<and> list_all js_is_space (take d (drop (a + 1 + b + c) line)) \<and>
        list_all (\<lambda>x. \<not> js_is_line_term x) (drop (a + 1 + b + c + d) line))"

text \<open>
  The backtracking matcher tries the greedy quantifiers from the most repetitions down,
  left to right, and returns the first split that matches: the split whose counts
  \<open>(a, b, c, d)\<close> are lexicographically greatest. \<open>match[1]\<close> is the rest.
\<close>

definition topic_rx_match :: "string \<Rightarrow> string option" where
  "topic_rx_match line =
     (let n = length line;
          vs = filter (topic_rx_valid line) [(a, b, c, d). a \<leftarrow> [0..<n], b \<leftarrow> [0..<n], c \<leftarrow> [0..<n], d \<leftarrow> [0..<n]]
      in if vs = [] then None
         else (case Max (set vs) of (a, b, c, d) \<Rightarrow> Some (drop (a + 1 + b + c + d) line)))"

text \<open>
  The same match computed in one pass: the first three runs are forced (each is followed
  by a character its class excludes); only the last white-space run backtracks.
\<close>

definition topic_match :: "string \<Rightarrow> string option" where
  "topic_match line =
     (let r1 = dropWhile js_is_space line in
      if r1 = [] \<or> hd r1 \<noteq> CHR ''-'' then None
      else
        (let r2 = tl r1; b = length (takeWhile js_is_space r2); r3 = drop b r2;
             c = length (takeWhile is_numdot r3); r4 = drop c r3;
             k = length (takeWhile js_is_space r4)
         in if b = 0 \<or> c = 0 then None
            else (case filter (\<lambda>d. drop d r4 \<noteq> [] \<and> list_all (\<lambda>x. \<not> js_is_line_term x) (drop d r4))
                          (rev [1..<Suc k]) of
                    [] \<Rightarrow> None
                  | d # ds \<Rightarrow> Some (drop d r4))))"

text \<open>The three forced runs of a line: leading white space, white space after the dash, the number.\<close>

definition topic_runs :: "string \<Rightarrow> nat \<times> nat \<times> nat" where
  "topic_runs line =
     (let a = length (takeWhile js_is_space line); r2 = drop (Suc a) line;
          b = length (takeWhile js_is_space r2); c = length (takeWhile is_numdot (drop b r2))
      in (a, b, c))"

definition parseTopicList :: "string \<Rightarrow> string list" where
  "parseTopicList text =
     concat (map (\<lambda>line. case topic_rx_match line of None \<Rightarrow> [] | Some g \<Rightarrow> [js_trim g])
                 (js_split (CHR 0x0A) text))"

text \<open>
  The list printed the way DeepWiki prints a table of contents, one topic per line
  (\<open>- 1 Overview\<close>, the format the comment of line 159 names).
\<close>

definition topic_line :: "nat \<Rightarrow> string \<Rightarrow> string" where
  "topic_line i t = CHR ''-'' # CHR '' '' # nat_to_dec i @ CHR '' '' # t"

definition topic_listing :: "string list \<Rightarrow> string" where
  "topic_listing ts = js_join (CHR 0x0A) (map (\<lambda>(i, t). topic_line i t) (zip [1..<Suc (length ts)] ts))"

subsection \<open>The MCP server and the module's client (lines 70--151)\<close>

text \<open>
  An item of a tool result's \<open>content\<close> array: one with a \<open>text\<close> field, or any other
  item (an image or an embedded resource). A result whose \<open>content\<close> is missing is
  \<open>MNoContent\<close> (the SDK's compatibility result shape).
\<close>

datatype mcp_item = TextItem string | OtherItem

datatype mcp_result = MContent "mcp_item list" | MNoContent

text \<open>
  The DeepWiki server as the client sees it, through \<open>MCPClient.connect\<close>,
  \<open>listTools\<close> and \<open>callTool\<close>: the outcome of the \<open>n\<close>-th connection attempt and of
  the tool listing on that connection (the thrown error's message, or success), and the
  result of a tool call by name and arguments.
\<close>

record mcp_server =
  srv_connect :: "nat \<Rightarrow> string + unit"
  srv_list_tools :: "nat \<Rightarrow> string + unit"
  srv_call :: "string \<Rightarrow> (string \<times> string) list \<Rightarrow> string + mcp_result"

text \<open>
  The module-global \<open>mcpClient\<close> (line 119) and the connections behind it:
  \<open>mw_client\<close> is \<open>mcpClient !== null\<close>; \<open>mw_attempts\<close> counts the \<open>MCPClient\<close>
  objects created (each attempts one connection); \<open>mw_open\<close> counts the connections
  that were established and not closed.
\<close>

record mcp_world =
  mw_client :: bool
  mw_attempts :: nat
  mw_open :: nat

text \<open>
  \<open>initMCPClient\<close>: reuse the cached client, or create one, connect and list the tools;
  on a failure the variable is reset to \<open>null\<close> and the error rethrown. A connection
  established before \<open>listTools\<close> fails is not closed.
\<close>

definition initMCPClient :: "mcp_server \<Rightarrow> mcp_world \<Rightarrow> (string + unit) \<times> mcp_world" where
  "initMCPClient srv w =
     (if mw_client w then (Inr (), w)
      else
        (let n = mw_attempts w; w1 = w\<lparr>mw_attempts := Suc n\<rparr> in
         case srv_connect srv n of
           Inl e \<Rightarrow> (Inl e, w1)
         | Inr u \<Rightarrow>
             (let w2 = w1\<lparr>mw_open := Suc (mw_open w1)\<rparr> in
              case srv_list_tools srv n of
                Inl e \<Rightarrow> (Inl e, w2)
              | Inr v \<Rightarrow> (Inr (), w2\<lparr>mw_client := True\<rparr>))))"

text \<open>
  The common head of \<open>readWikiStructure\<close>, \<open>readWikiContents\<close> and
  \<open>askQuestion\<close>: obtain the client (the \<open>!client\<close> check never fires, since
  \<open>initMCPClient\<close> returns a client or throws) and call the tool.
\<close>

definition mcp_call_tool ::
  "mcp_server \<Rightarrow> string \<Rightarrow> (string \<times> string) list \<Rightarrow> mcp_world \<Rightarrow> (string + mcp_result) \<times> mcp_world" where
  "mcp_call_tool srv name args w =
     (case initMCPClient srv w of
        (Inl e, w') \<Rightarrow> (Inl e, w')
      | (Inr u, w') \<Rightarrow> (srv_call srv name args, w'))"

subsection \<open>Reading the wiki (lines 169--234)\<close>

text \<open>
  What \<open>readWikiStructure\<close> resolves to: the parsed listing \<open>{raw, topics}\<close> when the
  first content item has a \<open>text\<close> field; that first item itself otherwise; the empty
  \<open>content\<close> array; or \<open>undefined\<close>. \<open>WSNull\<close> is the \<open>null\<close> the node stores on
  an error.
\<close>

datatype wiki_structure = WSTopics string "string list" | WSItem | WSEmptyArray | WSUndefined | WSNull

fun wiki_structure_of :: "mcp_result \<Rightarrow> wiki_structure" where
  "wiki_structure_of (MContent (TextItem t # cs)) = WSTopics t (parseTopicList t)"
| "wiki_structure_of (MContent (OtherItem # cs)) = WSItem"
| "wiki_structure_of (MContent []) = WSEmptyArray"
| "wiki_structure_of MNoContent = WSUndefined"

text \<open>
  The text \<open>readWikiContents\<close> and \<open>askQuestion\<close> resolve to: the first item's text,
  \<open>String(item)\<close> of another item, \<open>String([])\<close> or \<open>String(undefined)\<close>.
\<close>

fun content_text :: "mcp_result \<Rightarrow> string" where
  "content_text (MContent (TextItem t # cs)) = t"
| "content_text (MContent (OtherItem # cs)) = ''[object Object]''"
| "content_text (MContent []) = ''''"
| "content_text MNoContent = ''undefined''"

definition readWikiStructure ::
  "mcp_server \<Rightarrow> string \<Rightarrow> mcp_world \<Rightarrow> (string + wiki_structure) \<times> mcp_world" where
  "readWikiStructure srv repoName w =
     (case mcp_call_tool srv ''read_wiki_structure'' [(''repoName'', repoName)] w of
        (r, w') \<Rightarrow> (map_sum id wiki_structure_of r, w'))"

definition readWikiContents :: "mcp_server \<Rightarrow> string \<Rightarrow> mcp_world \<Rightarrow> (string + string) \<times> mcp_world" where
  "readWikiContents srv repoName w =
     (case mcp_call_tool srv ''read_wiki_contents'' [(''repoName'', repoName)] w of
        (r, w') \<Rightarrow> (map_sum id content_text r, w'))"

definition askQuestion :: "mcp_server \<Rightarrow> string \<Rightarrow> string \<Rightarrow> mcp_world \<Rightarrow> (string + string) \<times> mcp_world" where
  "askQuestion srv repoName question w =
     (case mcp_call_tool srv ''ask_question'' [(''repoName'', repoName), (''question'', question)] w of
        (r, w') \<Rightarrow> (map_sum id content_text r, w'))"

subsection \<open>State (lines 42--55)\<close>

record dw_insights =
  in_topicCount :: nat
  in_documentLength :: nat
  in_hasWiki :: bool

text \<open>
  One field per channel of \<open>GraphState\<close>; a channel no node has written is \<open>None\<close>
  (\<open>undefined\<close>). \<open>runDocumentAnalysis\<close> always passes a repository name and a question
  (\<open>userQuestion || ""\<close>), and no node writes them. The last field is the module's
  MCP world, which the nodes that call the server thread through the walk.
\<close>

record dw_state =
  ds_repoName :: string
  ds_userQuestion :: string
  ds_wikiStructure :: "wiki_structure option"
  ds_wikiContents :: "string option"
  ds_answer :: "string option"
  ds_insights :: "dw_insights option"
  ds_summary :: "string option"
  ds_error :: "string option"
  ds_world :: mcp_world

record dw_update =
  du_wikiStructure :: "wiki_structure option"
  du_wikiContents :: "string option"
  du_answer :: "string option"
  du_insights :: "dw_insights option"
  du_summary :: "string option"
  du_error :: "string option"
  du_world :: "mcp_world option"

definition dw_noop :: dw_update where
  "dw_noop = \<lparr>du_wikiStructure = None, du_wikiContents = None, du_answer = None, du_insights = None,
     du_summary = None, du_error = None, du_world = None\<rparr>"

definition dw_reduce :: "dw_state \<Rightarrow> dw_update \<Rightarrow> dw_state" where
  "dw_reduce s u =
     s\<lparr>ds_wikiStructure := replace_chan (ds_wikiStructure s) (du_wikiStructure u),
       ds_wikiContents := replace_chan (ds_wikiContents s) (du_wikiContents u),
       ds_answer := replace_chan (ds_answer s) (du_answer u),
       ds_insights := replace_chan (ds_insights s) (du_insights u),
       ds_summary := replace_chan (ds_summary s) (du_summary u),
       ds_error := replace_chan (ds_error s) (du_error u),
       ds_world := (case du_world u of None \<Rightarrow> ds_world s | Some w \<Rightarrow> w)\<rparr>"

text \<open>
  The collaborators: the DeepWiki server, and the chat model of \<open>generateSummary\<close>,
  which sees a fixed system prompt and the \<open>data\<close> object printed with
  \<open>JSON.stringify\<close>, and answers with a text or throws.
\<close>

record dw_env =
  dw_server :: mcp_server
  dw_model :: "json \<Rightarrow> string + string"

subsection \<open>Nodes (lines 241--347)\<close>

text \<open>
  Every node catches what it calls, so each is a total function from the state to an
  update; a caught error becomes the \<open>error\<close> channel. In \<open>fetchWikiStructure\<close> the
  trace line reads \<open>wikiStructure.topics?.length\<close> inside the \<open>try\<close>, which throws a
  \<open>TypeError\<close> when the structure is \<open>undefined\<close>.
\<close>

fun ws_topics :: "wiki_structure \<Rightarrow> js_error + string list option" where
  "ws_topics (WSTopics raw ts) = Inr (Some ts)"
| "ws_topics WSUndefined = Inl (TypeError ''Cannot read properties of undefined (reading 'topics')'')"
| "ws_topics WSNull = Inl (TypeError ''Cannot read properties of null (reading 'topics')'')"
| "ws_topics WSItem = Inr None"
| "ws_topics WSEmptyArray = Inr None"

fun js_error_msg :: "js_error \<Rightarrow> string" where
  "js_error_msg (TypeError m) = m"

definition fetchWikiStructureNode :: "dw_env \<Rightarrow> dw_state \<Rightarrow> dw_update" where
  "fetchWikiStructureNode env st =
     (case readWikiStructure (dw_server env) (ds_repoName st) (ds_world st) of
        (Inl e, w) \<Rightarrow> dw_noop\<lparr>du_wikiStructure := Some WSNull, du_error := Some e, du_world := Some w\<rparr>
      | (Inr ws, w) \<Rightarrow>
          (case ws_topics ws of
             Inl te \<Rightarrow> dw_noop\<lparr>du_wikiStructure := Some WSNull, du_error := Some (js_error_msg te),
                                du_world := Some w\<rparr>
           | Inr t \<Rightarrow> dw_noop\<lparr>du_wikiStructure := Some ws, du_world := Some w\<rparr>))"

definition fetchWikiContentsNode :: "dw_env \<Rightarrow> dw_state \<Rightarrow> dw_update" where
  "fetchWikiContentsNode env st =
     (case readWikiContents (dw_server env) (ds_repoName st) (ds_world st) of
        (Inl e, w) \<Rightarrow> dw_noop\<lparr>du_wikiContents := Some [], du_error := Some e, du_world := Some w\<rparr>
      | (Inr c, w) \<Rightarrow> dw_noop\<lparr>du_wikiContents := Some c, du_world := Some w\<rparr>)"

definition answerQuestionNode :: "dw_env \<Rightarrow> dw_state \<Rightarrow> dw_update" where
  "answerQuestionNode env st =
     (case askQuestion (dw_server env) (ds_repoName st) (ds_userQuestion st) (ds_world st) of
        (Inl e, w) \<Rightarrow> dw_noop\<lparr>du_answer := Some [], du_error := Some e, du_world := Some w\<rparr>
      | (Inr a, w) \<Rightarrow> dw_noop\<lparr>du_answer := Some a, du_world := Some w\<rparr>)"

text \<open>\<open>state.wikiStructure?.topics || []\<close>, and \<open>state.wikiContents?.length || 0\<close>.\<close>

definition state_topics :: "dw_state \<Rightarrow> string list" where
  "state_topics st = (case ds_wikiStructure st of Some (WSTopics raw ts) \<Rightarrow> ts | _ \<Rightarrow> [])"

definition state_doc_length :: "dw_state \<Rightarrow> nat" where
  "state_doc_length st = (case ds_wikiContents st of Some c \<Rightarrow> length c | None \<Rightarrow> 0)"

definition analyzeInsightsNode :: "dw_state \<Rightarrow> dw_update" where
  "analyzeInsightsNode st =
     dw_noop\<lparr>du_insights := Some
       \<lparr>in_topicCount = length (state_topics st),
        in_documentLength = state_doc_length st,
        in_hasWiki = (case ds_wikiContents st of Some c \<Rightarrow> 0 < length c | None \<Rightarrow> False)\<rparr>\<rparr>"

text \<open>The \<open>data\<close> object of \<open>generateSummary\<close>; \<open>JSON.stringify\<close> drops the undefined fields.\<close>

definition insights_json :: "dw_insights \<Rightarrow> json" where
  "insights_json i = JObj [(''topicCount'', JNum (of_nat (in_topicCount i))),
     (''documentLength'', JNum (of_nat (in_documentLength i))), (''hasWiki'', JBool (in_hasWiki i))]"

definition summary_data :: "dw_state \<Rightarrow> json" where
  "summary_data st =
     JObj ([(''repository'', JStr (ds_repoName st)), (''question'', JStr (ds_userQuestion st)),
            (''wikiTopics'', JArr (map JStr (state_topics st))),
            (''documentLength'', JNum (of_nat (state_doc_length st)))]
           @ (case ds_answer st of Some a \<Rightarrow> [(''answer'', JStr a)] | None \<Rightarrow> [])
           @ (case ds_insights st of Some i \<Rightarrow> [(''insights'', insights_json i)] | None \<Rightarrow> []))"

text \<open>An ASCII stand-in for the Japanese prefix of the failure summary (line 345).\<close>

definition summary_error_prefix :: string where
  "summary_error_prefix = ''Error while generating the summary: ''"

definition generateSummaryNode :: "dw_env \<Rightarrow> dw_state \<Rightarrow> dw_update" where
  "generateSummaryNode env st =
     (case dw_model env (summary_data st) of
        Inl e \<Rightarrow> dw_noop\<lparr>du_summary := Some (summary_error_prefix @ e)\<rparr>
      | Inr content \<Rightarrow> dw_noop\<lparr>du_summary := Some content\<rparr>)"

subsection \<open>Routers and graph (lines 352--395)\<close>

text \<open>JavaScript truthiness of a string channel.\<close>

definition str_truthy :: "string option \<Rightarrow> bool" where
  "str_truthy v = (case v of Some s \<Rightarrow> s \<noteq> [] | None \<Rightarrow> False)"

definition checkError :: "dw_state \<Rightarrow> label" where
  "checkError st = (if str_truthy (ds_error st) then ''end'' else ''continue'')"

definition shouldAnswerQuestion :: "dw_state \<Rightarrow> label" where
  "shouldAnswerQuestion st =
     (if str_truthy (ds_error st) then ''skip''
      else if ds_userQuestion st \<noteq> [] \<and> js_trim (ds_userQuestion st) \<noteq> [] then ''answer''
      else ''skip'')"

type_synonym document_graph = "(dw_state, dw_update) state_graph"

definition dw_builder :: "dw_env \<Rightarrow> graph_error + document_graph" where
  "dw_builder env =
     bind_sum (add_node ''fetchWikiStructure'' (Inr \<circ> fetchWikiStructureNode env) (new_graph dw_reduce)) (\<lambda>g.
     bind_sum (add_node ''fetchWikiContents'' (Inr \<circ> fetchWikiContentsNode env) g) (\<lambda>g.
     bind_sum (add_node ''answerQuestion'' (Inr \<circ> answerQuestionNode env) g) (\<lambda>g.
     bind_sum (add_node ''analyzeInsights'' (Inr \<circ> analyzeInsightsNode) g) (\<lambda>g.
     bind_sum (add_node ''generateSummary'' (Inr \<circ> generateSummaryNode env) g) (\<lambda>g.
     bind_sum (add_edge START ''fetchWikiStructure'' g) (\<lambda>g.
     bind_sum (add_conditional_edges ''fetchWikiStructure'' checkError
                 [(''continue'', ''fetchWikiContents''), (''end'', END)] g) (\<lambda>g.
     bind_sum (add_edge ''fetchWikiContents'' ''analyzeInsights'' g) (\<lambda>g.
     bind_sum (add_conditional_edges ''analyzeInsights'' shouldAnswerQuestion
                 [(''answer'', ''answerQuestion''), (''skip'', ''generateSummary'')] g) (\<lambda>g.
     bind_sum (add_edge ''answerQuestion'' ''generateSummary'' g) (\<lambda>g.
     bind_sum (add_edge ''generateSummary'' END g) compile))))))))))"

definition dw_graph :: "dw_env \<Rightarrow> document_graph" where
  "dw_graph env =
     \<lparr>sg_reduce = dw_reduce,
      sg_nodes = [(''fetchWikiStructure'', Inr \<circ> fetchWikiStructureNode env),
                  (''fetchWikiContents'', Inr \<circ> fetchWikiContentsNode env),
                  (''answerQuestion'', Inr \<circ> answerQuestionNode env),
                  (''analyzeInsights'', Inr \<circ> analyzeInsightsNode),
                  (''generateSummary'', Inr \<circ> generateSummaryNode env)],
      sg_edges = [(START, Static ''fetchWikiStructure''),
                  (''fetchWikiStructure'', Conditional checkError [(''continue'', ''fetchWikiContents''), (''end'', END)]),
                  (''fetchWikiContents'', Static ''analyzeInsights''),
                  (''analyzeInsights'', Conditional shouldAnswerQuestion
                     [(''answer'', ''answerQuestion''), (''skip'', ''generateSummary'')]),
                  (''answerQuestion'', Static ''generateSummary''), (''generateSummary'', Static END)]\<rparr>"

subsection \<open>Specification of a run\<close>

text \<open>
  The flow the diagram of \<open>src/graphs.md\<close> draws, as straight-line code: the final state
  and the nodes run.
\<close>

definition document_flow :: "dw_env \<Rightarrow> dw_state \<Rightarrow> dw_state \<times> node_name list" where
  "document_flow env s0 =
     (let s1 = dw_reduce s0 (fetchWikiStructureNode env s0) in
      if str_truthy (ds_error s1) then (s1, [''fetchWikiStructure''])
      else
        (let s2 = dw_reduce s1 (fetchWikiContentsNode env s1);
             s3 = dw_reduce s2 (analyzeInsightsNode s2) in
         if shouldAnswerQuestion s3 = ''answer'' then
           (let s4 = dw_reduce s3 (answerQuestionNode env s3) in
            (dw_reduce s4 (generateSummaryNode env s4),
             [''fetchWikiStructure'', ''fetchWikiContents'', ''analyzeInsights'', ''answerQuestion'', ''generateSummary'']))
         else (dw_reduce s3 (generateSummaryNode env s3),
               [''fetchWikiStructure'', ''fetchWikiContents'', ''analyzeInsights'', ''generateSummary''])))"

text \<open>
  The bookkeeping of the MCP world: no more connections are open than were attempted,
  and a cached client has its connection open.
\<close>

definition mcp_inv :: "mcp_world \<Rightarrow> bool" where
  "mcp_inv w \<longleftrightarrow> mw_open w \<le> mw_attempts w \<and> (mw_client w \<longrightarrow> 0 < mw_open w)"

text \<open>A server with which \<open>initMCPClient\<close> succeeds from world \<open>w\<close>.\<close>

definition mcp_ready :: "mcp_server \<Rightarrow> mcp_world \<Rightarrow> bool" where
  "mcp_ready srv w \<longleftrightarrow>
     mw_client w \<or> (srv_connect srv (mw_attempts w) = Inr () \<and> srv_list_tools srv (mw_attempts w) = Inr ())"

text \<open>The structure channel as the later nodes may read it: never \<open>undefined\<close>, and a listing's topics are its parse.\<close>

fun structure_ok :: "wiki_structure \<Rightarrow> bool" where
  "structure_ok (WSTopics raw ts) = (ts = parseTopicList raw)"
| "structure_ok WSUndefined = False"
| "structure_ok ws = True"

text \<open>
  \<open>runDocumentAnalysis(repoName, userQuestion)\<close>: \<open>graph.invoke\<close> with
  \<open>{repoName, userQuestion: userQuestion || ""}\<close> and the default recursion limit, in
  the MCP world the previous runs left behind.
\<close>

definition dw_init :: "mcp_world \<Rightarrow> string \<Rightarrow> string option \<Rightarrow> dw_state" where
  "dw_init w repoName userQuestion =
     \<lparr>ds_repoName = repoName, ds_userQuestion = (case userQuestion of Some q \<Rightarrow> q | None \<Rightarrow> []),
      ds_wikiStructure = None, ds_wikiContents = None, ds_answer = None, ds_insights = None,
      ds_summary = None, ds_error = None, ds_world = w\<rparr>"

definition runDocumentAnalysis ::
  "dw_env \<Rightarrow> mcp_world \<Rightarrow> string \<Rightarrow> string option \<Rightarrow> dw_state walk_result" where
  "runDocumentAnalysis env w repoName userQuestion =
     (case dw_builder env of
        Inl e \<Rightarrow> Failed e []
      | Inr g \<Rightarrow> invoke g default_recursion_limit (dw_init w repoName userQuestion))"

text \<open>
  \<open>main\<close>: two runs in one MCP world, then \<open>mcpClient.disconnect()\<close> in the
  \<open>finally\<close>, which closes the cached client's connection and no other. The Japanese
  question of the second run is replaced by an ASCII stand-in.
\<close>

definition result_world :: "mcp_world \<Rightarrow> dw_state walk_result \<Rightarrow> mcp_world" where
  "result_world w r = (case r of Done s tr \<Rightarrow> ds_world s | Failed e tr \<Rightarrow> w)"

definition mcp_disconnect :: "mcp_world \<Rightarrow> mcp_world" where
  "mcp_disconnect w = (if mw_client w then w\<lparr>mw_open := mw_open w - 1\<rparr> else w)"

definition dw_main ::
  "dw_env \<Rightarrow> mcp_world \<Rightarrow> dw_state walk_result \<times> dw_state walk_result \<times> mcp_world" where
  "dw_main env w0 =
     (let r1 = runDocumentAnalysis env w0 ''facebook/react'' None;
          w1 = result_world w0 r1;
          r2 = runDocumentAnalysis env w1 ''vercel/next.js'' (Some ''What are the main features of this project?'');
          w2 = result_world w1 r2
      in (r1, r2, mcp_disconnect w2))"

subsection \<open>Example servers\<close>

definition fresh_world :: mcp_world where
  "fresh_world = \<lparr>mw_client = False, mw_attempts = 0, mw_open = 0\<rparr>"

definition failing_env :: "string \<Rightarrow> dw_env" where
  "failing_env msg = \<lparr>dw_server = \<lparr>srv_connect = (\<lambda>n. Inl msg), srv_list_tools = (\<lambda>n. Inr ()),
     srv_call = (\<lambda>name args. Inr MNoContent)\<rparr>, dw_model = (\<lambda>d. Inr ''summary'')\<rparr>"

definition leaky_env :: dw_env where
  "leaky_env = \<lparr>dw_server = \<lparr>srv_connect = (\<lambda>n. Inr ()), srv_list_tools = (\<lambda>n. Inl ''listTools failed''),
     srv_call = (\<lambda>name args. Inr MNoContent)\<rparr>, dw_model = (\<lambda>d. Inr ''summary'')\<rparr>"

definition demo_server :: mcp_server where
  "demo_server = \<lparr>srv_connect = (\<lambda>n. Inr ()), srv_list_tools = (\<lambda>n. Inr ()),
     srv_call = (\<lambda>name args.
        if name = ''read_wiki_structure'' then Inr (MContent [TextItem (topic_listing [''Overview'', ''Hooks''])])
        else if name = ''read_wiki_contents'' then Inr (MContent [TextItem ''React docs''])
        else Inr (MContent [TextItem ''Components'']))\<rparr>"

definition demo_dw_env :: dw_env where
  "demo_dw_env = \<lparr>dw_server = demo_server, dw_model = (\<lambda>d. Inr ''summary'')\<rparr>"

subsection \<open>The one-pass matcher computes the regular expression's match\<close>

lemma list_all_take_nth: "list_all P (take a xs) \<Longrightarrow> i < a \<Longrightarrow> i < length xs \<Longrightarrow> P (xs ! i)"
  by (simp add: list_all_length)

lemma takeWhile_length_eq:
  assumes "list_all P (take a xs)" "a < length xs" "\<not> P (xs ! a)"
  shows "length (takeWhile P xs) = a"
proof -
  have "takeWhile P xs = take a xs"
    by (rule takeWhile_eq_take_P_nth) (use assms in \<open>auto intro: list_all_take_nth [OF assms(1)]\<close>)
  with assms(2) show ?thesis by simp
qed

lemma takeWhile_length_ge:
  assumes "list_all P (take d xs)" "d \<le> length xs"
  shows "d \<le> length (takeWhile P xs)"
proof (rule ccontr)
  assume "\<not> d \<le> length (takeWhile P xs)"
  then have lt: "length (takeWhile P xs) < d" by simp
  with assms(2) have "\<not> P (xs ! length (takeWhile P xs))" by (simp add: nth_length_takeWhile)
  moreover have "P (xs ! length (takeWhile P xs))"
    using list_all_take_nth [OF assms(1) lt] lt assms(2) by simp
  ultimately show False by simp
qed

lemma list_all_take_takeWhile: "d \<le> length (takeWhile P xs) \<Longrightarrow> list_all P (take d xs)"
proof -
  assume d: "d \<le> length (takeWhile P xs)"
  have "take d xs = take d (takeWhile P xs)"
    using d by (metis append_eq_conv_conj min.absorb1 take_take takeWhile_dropWhile_id)
  then show ?thesis by (auto simp: list_all_iff dest: set_take_subset [THEN subsetD] set_takeWhileD)
qed

lemma nth_takeWhile_stop: "length (takeWhile P xs) < length xs \<Longrightarrow> \<not> P (xs ! length (takeWhile P xs))"
  by (simp add: nth_length_takeWhile)

lemma char_classes:
  "\<not> js_is_space CHR ''-''" "is_numdot x \<Longrightarrow> \<not> js_is_space x" "js_is_space x \<Longrightarrow> \<not> is_numdot x"
  by (auto simp: js_is_space_def is_numdot_def)

lemma hd_take_drop: "0 < c \<Longrightarrow> list_all P (take c (drop i xs)) \<Longrightarrow> i < length xs \<Longrightarrow> P (xs ! i)"
  using list_all_take_nth [of P c "drop i xs" 0] by simp


lemma topic_rx_valid_D:
  assumes v: "topic_rx_valid line (a, b, c, d)"
  shows "topic_runs line = (a, b, c) \<and> line ! a = CHR ''-'' \<and> 0 < b \<and> 0 < c \<and> 0 < d \<and>
    d \<le> length (takeWhile js_is_space (drop (a + 1 + b + c) line)) \<and>
    drop (a + 1 + b + c + d) line \<noteq> [] \<and> list_all (\<lambda>x. \<not> js_is_line_term x) (drop (a + 1 + b + c + d) line)"
proof -
  from v have n: "a + 1 + b + c + d < length line" and sa: "list_all js_is_space (take a line)"
    and dash: "line ! a = CHR ''-''" and b: "0 < b" "list_all js_is_space (take b (drop (a + 1) line))"
    and c: "0 < c" "list_all is_numdot (take c (drop (a + 1 + b) line))"
    and d: "0 < d" "list_all js_is_space (take d (drop (a + 1 + b + c) line))"
    and rest: "list_all (\<lambda>x. \<not> js_is_line_term x) (drop (a + 1 + b + c + d) line)"
    by (auto simp: topic_rx_valid_def)
  have la: "length (takeWhile js_is_space line) = a"
    using takeWhile_length_eq [OF sa] n dash char_classes(1) by simp
  have "is_numdot (line ! (a + 1 + b))" using hd_take_drop [OF c] n by simp
  then have lb: "length (takeWhile js_is_space (drop (Suc a) line)) = b"
    using takeWhile_length_eq [OF b(2)] n char_classes(2) by simp
  have "js_is_space (line ! (a + 1 + b + c))" using hd_take_drop [OF d] n by simp
  then have lc: "length (takeWhile is_numdot (drop b (drop (Suc a) line))) = c"
    using takeWhile_length_eq [of is_numdot c "drop (a + 1 + b) line"] c n char_classes(3)
    by (simp add: add.commute add.left_commute)
  have ld: "d \<le> length (takeWhile js_is_space (drop (a + 1 + b + c) line))"
    by (rule takeWhile_length_ge [OF d(2)]) (use n in simp)
  show ?thesis
    using la lb lc ld dash b c d rest n by (simp add: topic_runs_def Let_def)
qed

lemma topic_rx_valid_I:
  assumes runs: "topic_runs line = (a, b, c)" and dash: "a < length line" "line ! a = CHR ''-''"
    and bc: "0 < b" "0 < c" and d: "0 < d" "d \<le> length (takeWhile js_is_space (drop (a + 1 + b + c) line))"
    and rest: "drop (a + 1 + b + c + d) line \<noteq> []" "list_all (\<lambda>x. \<not> js_is_line_term x) (drop (a + 1 + b + c + d) line)"
  shows "topic_rx_valid line (a, b, c, d)"
proof -
  from runs have la: "a = length (takeWhile js_is_space line)"
    and lb: "b = length (takeWhile js_is_space (drop (Suc a) line))"
    and lc: "c = length (takeWhile is_numdot (drop (a + 1 + b) line))"
    by (auto simp: topic_runs_def Let_def add.commute add.left_commute)
  have "list_all js_is_space (take a line)"
    by (rule list_all_take_takeWhile) (simp add: la)
  moreover have "list_all js_is_space (take b (drop (a + 1) line))"
    by (rule list_all_take_takeWhile) (simp add: lb)
  moreover have "list_all is_numdot (take c (drop (a + 1 + b) line))"
    by (rule list_all_take_takeWhile) (simp add: lc)
  moreover have "list_all js_is_space (take d (drop (a + 1 + b + c) line))"
    by (rule list_all_take_takeWhile [OF d(2)])
  moreover have "a + 1 + b + c + d < length line" using rest(1) by simp
  ultimately show ?thesis using dash bc d rest by (simp add: topic_rx_valid_def)
qed


lemma set_tuples4:
  "set [(a, b, c, d). a \<leftarrow> xs, b \<leftarrow> ys, c \<leftarrow> zs, d \<leftarrow> ws] = set xs \<times> set ys \<times> set zs \<times> set ws"
  by auto

lemma topic_rx_candidates:
  "set (filter (topic_rx_valid line)
      [(a, b, c, d). a \<leftarrow> [0..<length line], b \<leftarrow> [0..<length line], c \<leftarrow> [0..<length line], d \<leftarrow> [0..<length line]])
   = {v. topic_rx_valid line v}"
proof
  show "{v. topic_rx_valid line v} \<subseteq> set (filter (topic_rx_valid line)
      [(a, b, c, d). a \<leftarrow> [0..<length line], b \<leftarrow> [0..<length line], c \<leftarrow> [0..<length line], d \<leftarrow> [0..<length line]])"
  proof
    fix v assume "v \<in> {v. topic_rx_valid line v}"
    moreover obtain a b c d where "v = (a, b, c, d)" by (cases v) auto
    ultimately have v: "topic_rx_valid line v" "v = (a, b, c, d)" by auto
    then have "a < length line" "b < length line" "c < length line" "d < length line"
      by (auto simp: topic_rx_valid_def)
    with v show "v \<in> set (filter (topic_rx_valid line)
      [(a, b, c, d). a \<leftarrow> [0..<length line], b \<leftarrow> [0..<length line], c \<leftarrow> [0..<length line], d \<leftarrow> [0..<length line]])"
      by (simp only: set_filter set_tuples4) simp
  qed
qed auto

lemma filter_rev_upt_hd:
  assumes "filter Q (rev [1..<Suc k]) = d # ds"
  shows "d = Max {x \<in> {1..k}. Q x}"
proof -
  have s: "set (filter Q (rev [1..<Suc k])) = {x \<in> {1..k}. Q x}" by auto
  have "sorted_wrt (>) (filter Q (rev [1..<Suc k]))"
    by (rule sorted_wrt_filter) (simp only: sorted_wrt_rev sorted_wrt_upt)
  with assms have lt: "\<forall>x \<in> set ds. x < d" by simp
  have d: "d \<in> {x \<in> {1..k}. Q x}" using assms s by (metis list.set_intros(1))
  have "x \<le> d" if "x \<in> {x \<in> {1..k}. Q x}" for x
  proof -
    from that assms s have "x \<in> set (d # ds)" by simp
    with lt show ?thesis by auto
  qed
  with d show ?thesis by (intro Max_eqI [symmetric]) auto
qed

lemma filter_rev_upt_Nil: "filter Q (rev [1..<Suc k]) = [] \<longleftrightarrow> {x \<in> {1..k}. Q x} = {}"
  by (auto simp: filter_empty_conv)

lemma Max_last_component:
  assumes "finite D" "D \<noteq> {}"
  shows "Max ((\<lambda>d. (a, b, c, d :: nat)) ` D) = (a, b, c, Max D)"
proof -
  have "mono (\<lambda>d. (a, b, c, d :: nat))" by (auto simp: mono_def less_eq_prod_def)
  then show ?thesis using mono_Max_commute [of "\<lambda>d. (a, b, c, d :: nat)" D] assms by simp
qed

lemma drop_tail_split: "drop (a + 1 + b + c + d) line = drop d (drop (a + 1 + b + c) line)"
  by (simp add: add.commute)

lemma topic_rx_valid_iff:
  assumes runs: "topic_runs line = (a, b, c)"
  shows "topic_rx_valid line v \<longleftrightarrow>
    (a < length line \<and> line ! a = CHR ''-'' \<and> 0 < b \<and> 0 < c) \<and>
    (\<exists>d \<in> {x \<in> {1..length (takeWhile js_is_space (drop (a + 1 + b + c) line))}.
              drop x (drop (a + 1 + b + c) line) \<noteq> [] \<and>
              list_all (\<lambda>y. \<not> js_is_line_term y) (drop x (drop (a + 1 + b + c) line))}.
       v = (a, b, c, d))" (is "_ \<longleftrightarrow> ?pre \<and> (\<exists>d \<in> ?D. v = (a, b, c, d))")
proof
  assume v: "topic_rx_valid line v"
  obtain a' b' c' d where vv: "v = (a', b', c', d)" by (cases v) auto
  from v vv have n: "a' + 1 + b' + c' + d < length line" by (simp add: topic_rx_valid_def)
  from topic_rx_valid_D [of line a' b' c' d] v vv runs
  have eq: "a' = a" "b' = b" "c' = c" and facts: "line ! a = CHR ''-''" "0 < b" "0 < c" "0 < d"
    "d \<le> length (takeWhile js_is_space (drop (a + 1 + b + c) line))"
    "drop d (drop (a + 1 + b + c) line) \<noteq> []"
    "list_all (\<lambda>y. \<not> js_is_line_term y) (drop d (drop (a + 1 + b + c) line))"
    by (auto simp only: drop_tail_split prod.inject)
  from n eq have "a < length line" by simp
  with facts have "?pre" by simp
  moreover have "d \<in> ?D" using facts by simp
  ultimately show "?pre \<and> (\<exists>d \<in> ?D. v = (a, b, c, d))" using vv eq by blast
next
  assume "?pre \<and> (\<exists>d \<in> ?D. v = (a, b, c, d))"
  then obtain d where pre: "?pre" and d: "d \<in> ?D" and vv: "v = (a, b, c, d)" by blast
  from d have "0 < d" "d \<le> length (takeWhile js_is_space (drop (a + 1 + b + c) line))"
    "drop (a + 1 + b + c + d) line \<noteq> []"
    "list_all (\<lambda>y. \<not> js_is_line_term y) (drop (a + 1 + b + c + d) line)"
    by (simp_all only: drop_tail_split) auto
  with pre vv show "topic_rx_valid line v" by (simp add: topic_rx_valid_I [OF runs])
qed


lemma topic_match_runs:
  assumes runs: "topic_runs line = (a, b, c)"
  shows "topic_match line =
    (if a < length line \<and> line ! a = CHR ''-'' \<and> 0 < b \<and> 0 < c then
       (case filter (\<lambda>x. drop x (drop (a + 1 + b + c) line) \<noteq> [] \<and>
                          list_all (\<lambda>y. \<not> js_is_line_term y) (drop x (drop (a + 1 + b + c) line)))
                    (rev [1..<Suc (length (takeWhile js_is_space (drop (a + 1 + b + c) line)))]) of
          [] \<Rightarrow> None
        | d # ds \<Rightarrow> Some (drop d (drop (a + 1 + b + c) line)))
     else None)"
proof -
  from runs have la: "length (takeWhile js_is_space line) = a"
    and lb: "length (takeWhile js_is_space (drop (Suc a) line)) = b"
    and lc: "length (takeWhile is_numdot (drop b (drop (Suc a) line))) = c"
    by (auto simp: topic_runs_def Let_def)
  have r1: "dropWhile js_is_space line = drop a line" using la by (simp add: dropWhile_eq_drop)
  have tl: "tl (drop a line) = drop (Suc a) line" by (simp add: drop_Suc tl_drop)
  have r4: "drop c (drop b (drop (Suc a) line)) = drop (a + 1 + b + c) line" by (simp add: add.commute add.left_commute)
  have e1: "(drop a line = [] \<or> hd (drop a line) \<noteq> CHR ''-'') \<longleftrightarrow> \<not> (a < length line \<and> line ! a = CHR ''-'')"
    by (auto simp: hd_drop_conv_nth)
  have e2: "(b = 0 \<or> c = 0) \<longleftrightarrow> \<not> (0 < b \<and> 0 < c)" by auto
  define C where "C = (case filter (\<lambda>x. drop x (drop (a + 1 + b + c) line) \<noteq> [] \<and>
                          list_all (\<lambda>y. \<not> js_is_line_term y) (drop x (drop (a + 1 + b + c) line)))
                    (rev [1..<Suc (length (takeWhile js_is_space (drop (a + 1 + b + c) line)))]) of
          [] \<Rightarrow> None
        | d # ds \<Rightarrow> Some (drop d (drop (a + 1 + b + c) line)))"
  show ?thesis
    unfolding topic_match_def Let_def r1 tl lb lc r4 e1 e2 C_def [symmetric] by simp
qed

lemma topic_rx_match_runs:
  assumes runs: "topic_runs line = (a, b, c)"
    and D_def: "D = {x \<in> {1..length (takeWhile js_is_space (drop (a + 1 + b + c) line))}.
              drop x (drop (a + 1 + b + c) line) \<noteq> [] \<and>
              list_all (\<lambda>y. \<not> js_is_line_term y) (drop x (drop (a + 1 + b + c) line))}"
  shows "topic_rx_match line =
    (if (a < length line \<and> line ! a = CHR ''-'' \<and> 0 < b \<and> 0 < c) \<and> D \<noteq> {}
     then Some (drop (Max D) (drop (a + 1 + b + c) line)) else None)"
proof -
  let ?cands = "[(a, b, c, d). a \<leftarrow> [0..<length line], b \<leftarrow> [0..<length line], c \<leftarrow> [0..<length line], d \<leftarrow> [0..<length line]]"
  define pre where "pre \<longleftrightarrow> a < length line \<and> line ! a = CHR ''-'' \<and> 0 < b \<and> 0 < c"
  have set_vs: "set (filter (topic_rx_valid line) ?cands) = (if pre then (\<lambda>d. (a, b, c, d)) ` D else {})"
    unfolding topic_rx_candidates using topic_rx_valid_iff [OF runs]
    by (auto simp: D_def pre_def)
  have fin: "finite D" by (simp add: D_def)
  show ?thesis
  proof (cases "pre \<and> D \<noteq> {}")
    case True
    have img: "set (filter (topic_rx_valid line) ?cands) = (\<lambda>d. (a, b, c, d)) ` D"
      using True by (simp only: set_vs) simp
    have ne: "(filter (topic_rx_valid line) ?cands = []) = False"
    proof -
      have "filter (topic_rx_valid line) ?cands \<noteq> []"
      proof
        assume "filter (topic_rx_valid line) ?cands = []"
        then have "set (filter (topic_rx_valid line) ?cands) = {}" by (simp only: list.set(1))
        with img True show False by simp
      qed
      then show ?thesis by simp
    qed
    have mx: "Max (set (filter (topic_rx_valid line) ?cands)) = (a, b, c, Max D)"
      unfolding img using Max_last_component [OF fin] True by simp
    show ?thesis
      unfolding topic_rx_match_def Let_def
      using True by (simp only: ne mx if_False prod.case drop_tail_split pre_def [symmetric] if_True) simp
  next
    case False
    then have "set (filter (topic_rx_valid line) ?cands) = {}" using set_vs by auto
    then have nil: "filter (topic_rx_valid line) ?cands = []" by (simp only: set_empty)
    show ?thesis
      unfolding topic_rx_match_def Let_def
      using False by (simp only: nil if_True pre_def [symmetric] if_False) simp
  qed
qed


text \<open>The one-pass matcher computes the regular expression's capture group.\<close>

lemma topic_match_eq: "topic_match line = topic_rx_match line"
proof -
  obtain a b c where runs: "topic_runs line = (a, b, c)" by (metis prod_cases3)
  define Q where "Q = (\<lambda>x. drop x (drop (a + 1 + b + c) line) \<noteq> [] \<and>
                          list_all (\<lambda>y. \<not> js_is_line_term y) (drop x (drop (a + 1 + b + c) line)))"
  define k where "k = length (takeWhile js_is_space (drop (a + 1 + b + c) line))"
  define D where "D = {x \<in> {1..k}. Q x}"
  have fast: "topic_match line =
      (if a < length line \<and> line ! a = CHR ''-'' \<and> 0 < b \<and> 0 < c then
         (case filter Q (rev [1..<Suc k]) of [] \<Rightarrow> None | d # ds \<Rightarrow> Some (drop d (drop (a + 1 + b + c) line)))
       else None)"
    using topic_match_runs [OF runs] by (simp only: Q_def k_def)
  have ref: "topic_rx_match line =
      (if (a < length line \<and> line ! a = CHR ''-'' \<and> 0 < b \<and> 0 < c) \<and> D \<noteq> {}
       then Some (drop (Max D) (drop (a + 1 + b + c) line)) else None)"
    by (rule topic_rx_match_runs [OF runs]) (simp add: D_def Q_def k_def)
  show ?thesis
  proof (cases "filter Q (rev [1..<Suc k])")
    case Nil
    then have "D = {}" using filter_rev_upt_Nil [of Q k] by (simp add: D_def)
    with Nil show ?thesis by (simp add: fast ref)
  next
    case (Cons d ds)
    then have "d = Max D" "D \<noteq> {}" using filter_rev_upt_hd [OF Cons] filter_rev_upt_Nil [of Q k]
      by (simp_all add: D_def)
    with Cons show ?thesis by (simp add: fast ref)
  qed
qed


subsection \<open>The graph's wiring\<close>

lemma dw_builder_eq: "dw_builder env = Inr (dw_graph env)"
  by (simp add: dw_builder_def dw_graph_def new_graph_def add_node_def add_edge_def
      add_conditional_edges_def compile_def node_names_def wf_graph_def)

lemma dw_nodes [simp, walk_simps]:
  "map_of (sg_nodes (dw_graph env)) ''fetchWikiStructure'' = Some (Inr \<circ> fetchWikiStructureNode env)"
  "map_of (sg_nodes (dw_graph env)) ''fetchWikiContents'' = Some (Inr \<circ> fetchWikiContentsNode env)"
  "map_of (sg_nodes (dw_graph env)) ''answerQuestion'' = Some (Inr \<circ> answerQuestionNode env)"
  "map_of (sg_nodes (dw_graph env)) ''analyzeInsights'' = Some (Inr \<circ> analyzeInsightsNode)"
  "map_of (sg_nodes (dw_graph env)) ''generateSummary'' = Some (Inr \<circ> generateSummaryNode env)"
  "sg_reduce (dw_graph env) = dw_reduce"
  by (simp_all add: dw_graph_def)

lemma dw_route [simp, walk_simps]:
  "route (dw_graph env) START s = Inr ''fetchWikiStructure''"
  "route (dw_graph env) ''fetchWikiStructure'' s =
     Inr (if str_truthy (ds_error s) then END else ''fetchWikiContents'')"
  "route (dw_graph env) ''fetchWikiContents'' s = Inr ''analyzeInsights''"
  "route (dw_graph env) ''analyzeInsights'' s =
     Inr (if shouldAnswerQuestion s = ''answer'' then ''answerQuestion'' else ''generateSummary'')"
  "route (dw_graph env) ''answerQuestion'' s = Inr ''generateSummary''"
  "route (dw_graph env) ''generateSummary'' s = Inr END"
  by (simp_all add: route_def dw_graph_def checkError_def shouldAnswerQuestion_def)

text \<open>Five steps run the graph to the end on every path.\<close>

lemma dw_invoke_flow:
  "invoke (dw_graph env) (k + 5) s0 = (case document_flow env s0 of (s, tr) \<Rightarrow> Done s tr)"
  by (simp add: invoke_def document_flow_def Let_def eval_nat_numeral)

lemma run_flow:
  "runDocumentAnalysis env w repoName q = (case document_flow env (dw_init w repoName q) of (s, tr) \<Rightarrow> Done s tr)"
  using dw_invoke_flow [of env 20] by (simp add: runDocumentAnalysis_def dw_builder_eq default_recursion_limit_def)


subsection \<open>The MCP world\<close>

lemma initMCPClient_cached [simp]: "mw_client w \<Longrightarrow> initMCPClient srv w = (Inr (), w)"
  by (simp add: initMCPClient_def)

lemma initMCPClient_inv: "mcp_inv w \<Longrightarrow> mcp_inv (snd (initMCPClient srv w))"
  by (auto simp: initMCPClient_def mcp_inv_def Let_def split: sum.splits)

lemma initMCPClient_attempts: "mw_attempts (snd (initMCPClient srv w)) \<le> Suc (mw_attempts w)"
  by (auto simp: initMCPClient_def Let_def split: sum.splits)

lemma initMCPClient_ready:
  "mcp_ready srv w \<Longrightarrow> \<exists>w'. initMCPClient srv w = (Inr (), w') \<and> mw_client w'"
  by (auto simp: mcp_ready_def initMCPClient_def)

lemma mcp_call_tool_world: "snd (mcp_call_tool srv name args w) = snd (initMCPClient srv w)"
  by (simp add: mcp_call_tool_def split: prod.split sum.split)

lemma mcp_call_tool_ready:
  "initMCPClient srv w = (Inr (), w') \<Longrightarrow> mcp_call_tool srv name args w = (srv_call srv name args, w')"
  by (simp add: mcp_call_tool_def)

lemma mcp_call_tool_fail:
  "initMCPClient srv w = (Inl e, w') \<Longrightarrow> mcp_call_tool srv name args w = (Inl e, w')"
  by (simp add: mcp_call_tool_def)

lemma read_worlds:
  "snd (readWikiStructure srv r w) = snd (initMCPClient srv w)"
  "snd (readWikiContents srv r w) = snd (initMCPClient srv w)"
  "snd (askQuestion srv r q w) = snd (initMCPClient srv w)"
  by (simp_all add: readWikiStructure_def readWikiContents_def askQuestion_def split_beta mcp_call_tool_world)

lemma node_worlds [simp]:
  "du_world (fetchWikiStructureNode env st) = Some (snd (initMCPClient (dw_server env) (ds_world st)))"
  "du_world (fetchWikiContentsNode env st) = Some (snd (initMCPClient (dw_server env) (ds_world st)))"
  "du_world (answerQuestionNode env st) = Some (snd (initMCPClient (dw_server env) (ds_world st)))"
  "du_world (analyzeInsightsNode st) = None"
  "du_world (generateSummaryNode env st) = None"
  by (simp_all add: fetchWikiStructureNode_def fetchWikiContentsNode_def answerQuestionNode_def
      analyzeInsightsNode_def generateSummaryNode_def dw_noop_def split_beta read_worlds split: sum.split)

lemma dw_reduce_fields [simp]:
  "ds_world (dw_reduce s u) = (case du_world u of None \<Rightarrow> ds_world s | Some w \<Rightarrow> w)"
  "ds_repoName (dw_reduce s u) = ds_repoName s"
  "ds_userQuestion (dw_reduce s u) = ds_userQuestion s"
  "ds_error (dw_reduce s u) = replace_chan (ds_error s) (du_error u)"
  by (simp_all add: dw_reduce_def)

text \<open>A run changes the MCP world as \<open>initMCPClient\<close> run once per node that calls the server.\<close>

lemma flow_world_iter:
  "\<exists>k \<le> 3. ds_world (fst (document_flow env s0)) = ((\<lambda>w. snd (initMCPClient (dw_server env) w)) ^^ k) (ds_world s0)"
proof -
  let ?i = "\<lambda>w. snd (initMCPClient (dw_server env) w)"
  let ?w = "ds_world (fst (document_flow env s0))"
  have "?w = (?i ^^ 1) (ds_world s0) \<or> ?w = (?i ^^ 2) (ds_world s0) \<or> ?w = (?i ^^ 3) (ds_world s0)"
    by (simp add: document_flow_def Let_def eval_nat_numeral)
  moreover have "(1::nat) \<le> 3" "(2::nat) \<le> 3" "(3::nat) \<le> 3" by simp_all
  ultimately show ?thesis by blast
qed

subsection \<open>Parsing the topic list\<close>

lemma digits_numdot: "x \<in> set (nat_to_dec i) \<Longrightarrow> is_numdot x \<and> \<not> js_is_space x \<and> \<not> js_is_line_term x"
  using nat_to_dec_digits [of x i] by (auto simp: is_numdot_def js_is_space_def js_is_line_term_def)

lemma topic_match_line:
  assumes t: "t = y # ys" "\<not> js_is_space y" "list_all (\<lambda>x. \<not> js_is_line_term x) t"
  shows "topic_match (topic_line i t) = Some t"
proof -
  obtain d ds where dd: "nat_to_dec i = d # ds" by (cases "nat_to_dec i") auto
  have d: "\<not> js_is_space d" using digits_numdot [of d i] dd by simp
  have sp: "js_is_space CHR '' ''" "\<not> is_numdot CHR '' ''" by (simp_all add: js_is_space_def is_numdot_def)
  have tw2: "takeWhile is_numdot (nat_to_dec i @ CHR '' '' # t) = nat_to_dec i"
    using digits_numdot [of _ i] sp by (simp add: takeWhile_append2)
  show ?thesis
    using t d sp tw2 unfolding topic_match_def topic_line_def dd by (simp add: char_classes)
qed

lemma js_trim_hd: "js_trim t = t \<Longrightarrow> t = y # ys \<Longrightarrow> \<not> js_is_space y"
proof
  assume "js_trim t = t" "t = y # ys" "js_is_space y"
  then have "length (js_trim t) \<le> length ys"
    using length_dropWhile_le [of js_is_space "rev (dropWhile js_is_space ys)"] length_dropWhile_le [of js_is_space ys]
    by (simp add: js_trim_def)
  with \<open>js_trim t = t\<close> \<open>t = y # ys\<close> show False by simp
qed

lemma concat_map_singleton_snd: "concat (map (\<lambda>(i, t). [t]) zs) = map snd zs"
  by (induction zs) auto

lemma line_terms [simp]: "js_is_line_term (CHR 0x0A)" "js_is_line_term (CHR 0x0D)"
  by (simp_all add: js_is_line_term_def)

lemma topic_rx_match_CR: "topic_rx_match (l @ [CHR 0x0D]) = None"
proof -
  have "\<not> topic_rx_valid (l @ [CHR 0x0D]) v" for v
  proof
    assume v: "topic_rx_valid (l @ [CHR 0x0D]) v"
    obtain a b c d where abcd: "v = (a, b, c, d)" by (cases v) auto
    let ?m = "a + 1 + b + c + d"
    have m: "?m < Suc (length l)" and la: "list_all (\<lambda>x. \<not> js_is_line_term x) (drop ?m (l @ [CHR 0x0D]))"
      using v abcd by (simp_all only: topic_rx_valid_def prod.case length_append_singleton)
    from m have "drop ?m (l @ [CHR 0x0D]) = drop ?m l @ [CHR 0x0D]" by simp
    with la show False by simp
  qed
  then show ?thesis by (simp add: topic_rx_match_def)
qed


lemma topic_line_no_term:
  "list_all (\<lambda>x. \<not> js_is_line_term x) t \<Longrightarrow> list_all (\<lambda>x. \<not> js_is_line_term x) (topic_line i t)"
  using digits_numdot [of _ i] by (auto simp: topic_line_def js_is_line_term_def list_all_iff)

text \<open>
  C19. Printing a list of topics as a numbered listing (\<open>- 1 Overview\<close>, one per line)
  and parsing it back with \<open>parseTopicList\<close> gives the list again, for topics that are
  non-empty, already trimmed and free of line terminators.
\<close>

theorem parseTopicList_listing:
  assumes "\<forall>t \<in> set ts. t \<noteq> [] \<and> js_trim t = t \<and> list_all (\<lambda>x. \<not> js_is_line_term x) t"
  shows "parseTopicList (topic_listing ts) = ts"
proof (cases "ts = []")
  case True
  then show ?thesis by (simp add: parseTopicList_def topic_listing_def topic_rx_match_def)
next
  case False
  let ?zs = "zip [1..<Suc (length ts)] ts"
  have line: "topic_rx_match (topic_line i t) = Some t"
    and nl: "CHR 0x0A \<notin> set (topic_line i t)" if "t \<in> set ts" for i t
  proof -
    from assms that obtain y ys where t: "t = y # ys" "js_trim t = t" "list_all (\<lambda>x. \<not> js_is_line_term x) t"
      by (cases t) auto
    show "topic_rx_match (topic_line i t) = Some t"
      using topic_match_line [OF t(1) js_trim_hd [OF t(2) t(1)] t(3)] by (simp add: topic_match_eq)
    show "CHR 0x0A \<notin> set (topic_line i t)"
      using topic_line_no_term [OF t(3), of i] by (auto simp: list_all_iff)
  qed
  have split: "js_split (CHR 0x0A) (topic_listing ts) = map (\<lambda>(i, t). topic_line i t) ?zs"
    unfolding topic_listing_def using False nl by (intro js_split_join) (auto simp: Suc_le_eq dest: set_zip_rightD)
  have "map (\<lambda>line. case topic_rx_match line of None \<Rightarrow> [] | Some g \<Rightarrow> [js_trim g]) (map (\<lambda>(i, t). topic_line i t) ?zs)
        = map (\<lambda>(i, t). [t]) ?zs"
    unfolding map_map by (rule map_cong [OF refl]) (use assms line in \<open>auto dest: set_zip_rightD\<close>)
  then have "parseTopicList (topic_listing ts) = concat (map (\<lambda>(i, t). [t]) ?zs)"
    by (simp only: parseTopicList_def split)
  also have "\<dots> = ts" by (simp only: concat_map_singleton_snd map_snd_zip length_upt diff_Suc_1)
  finally show ?thesis .
qed

theorem parseTopicList_listing_witness:
  "parseTopicList (topic_listing [''Overview'', ''Getting Started'']) = [''Overview'', ''Getting Started'']"
  by (rule parseTopicList_listing)
     (simp add: js_trim_def js_is_space_def js_is_line_term_def)

text \<open>
  C20. A listing with Windows line ends is not parsed: when every line ends in a carriage
  return, \<open>parseTopicList\<close> finds no topic, because \<open>.\<close> does not match the
  carriage return and \<open>$\<close> only matches at the end of the line.
\<close>

theorem parseTopicList_crlf:
  assumes "\<forall>l \<in> set ls. CHR 0x0A \<notin> set l"
  shows "parseTopicList (js_join (CHR 0x0A) (map (\<lambda>l. l @ [CHR 0x0D]) ls)) = []"
proof (cases "ls = []")
  case True
  then show ?thesis by (simp add: parseTopicList_def topic_rx_match_def)
next
  case False
  have "js_split (CHR 0x0A) (js_join (CHR 0x0A) (map (\<lambda>l. l @ [CHR 0x0D]) ls))
        = map (\<lambda>l. l @ [CHR 0x0D]) ls"
    using False assms by (intro js_split_join) auto
  then show ?thesis by (simp add: parseTopicList_def topic_rx_match_CR)
qed

theorem parseTopicList_crlf_witness:
  "parseTopicList (js_join (CHR 0x0A) (map (\<lambda>l. l @ [CHR 0x0D]) [''- 1 Overview'', ''- 2 Usage''])) = []"
  by (rule parseTopicList_crlf) simp


subsection \<open>Runs of the document graph\<close>

lemma dw_reduce_more [simp]:
  "ds_wikiStructure (dw_reduce s u) = replace_chan (ds_wikiStructure s) (du_wikiStructure u)"
  "ds_wikiContents (dw_reduce s u) = replace_chan (ds_wikiContents s) (du_wikiContents u)"
  "ds_answer (dw_reduce s u) = replace_chan (ds_answer s) (du_answer u)"
  "ds_insights (dw_reduce s u) = replace_chan (ds_insights s) (du_insights u)"
  "ds_summary (dw_reduce s u) = replace_chan (ds_summary s) (du_summary u)"
  by (simp_all add: dw_reduce_def)

lemma replace_chan_simps [simp]: "replace_chan old None = old" "replace_chan old (Some v) = Some v"
  by (simp_all add: replace_chan_def)

text \<open>The channels each node leaves alone.\<close>

lemma node_untouched [simp]:
  "du_wikiContents (fetchWikiStructureNode env st) = None" "du_answer (fetchWikiStructureNode env st) = None"
  "du_insights (fetchWikiStructureNode env st) = None" "du_summary (fetchWikiStructureNode env st) = None"
  "du_wikiStructure (fetchWikiContentsNode env st) = None" "du_answer (fetchWikiContentsNode env st) = None"
  "du_insights (fetchWikiContentsNode env st) = None" "du_summary (fetchWikiContentsNode env st) = None"
  "du_wikiStructure (answerQuestionNode env st) = None" "du_wikiContents (answerQuestionNode env st) = None"
  "du_insights (answerQuestionNode env st) = None" "du_summary (answerQuestionNode env st) = None"
  "du_wikiStructure (analyzeInsightsNode st) = None" "du_wikiContents (analyzeInsightsNode st) = None"
  "du_answer (analyzeInsightsNode st) = None" "du_summary (analyzeInsightsNode st) = None"
  "du_error (analyzeInsightsNode st) = None"
  "du_wikiStructure (generateSummaryNode env st) = None" "du_wikiContents (generateSummaryNode env st) = None"
  "du_answer (generateSummaryNode env st) = None" "du_insights (generateSummaryNode env st) = None"
  "du_error (generateSummaryNode env st) = None"
  by (simp_all add: fetchWikiStructureNode_def fetchWikiContentsNode_def answerQuestionNode_def
      analyzeInsightsNode_def generateSummaryNode_def dw_noop_def split_beta split: sum.split)

lemma dw_init_fields [simp]:
  "ds_world (dw_init w r q) = w" "ds_repoName (dw_init w r q) = r"
  "ds_userQuestion (dw_init w r q) = (case q of Some x \<Rightarrow> x | None \<Rightarrow> [])"
  "ds_wikiStructure (dw_init w r q) = None" "ds_wikiContents (dw_init w r q) = None"
  "ds_answer (dw_init w r q) = None" "ds_insights (dw_init w r q) = None"
  "ds_summary (dw_init w r q) = None" "ds_error (dw_init w r q) = None"
  by (simp_all add: dw_init_def)

lemma run_Done_iff:
  "runDocumentAnalysis env w r q = Done s tr \<longleftrightarrow> document_flow env (dw_init w r q) = (s, tr)"
  using dw_invoke_flow [of env 20]
  by (auto simp: runDocumentAnalysis_def dw_builder_eq default_recursion_limit_def split: prod.split)

lemma run_world:
  "result_world w (runDocumentAnalysis env w r q) = ds_world (fst (document_flow env (dw_init w r q)))"
proof -
  obtain s tr where "document_flow env (dw_init w r q) = (s, tr)" by fastforce
  then show ?thesis using run_Done_iff [of env w r q s tr] by (simp add: result_world_def)
qed

lemma js_trim_Nil [simp]: "js_trim [] = []"
  by (simp add: js_trim_def)

text \<open>\<open>initMCPClient\<close> run \<open>k\<close> times.\<close>

lemma init_iter_inv: "mcp_inv w \<Longrightarrow> mcp_inv (((\<lambda>w. snd (initMCPClient srv w)) ^^ k) w)"
  by (induction k) (simp_all add: initMCPClient_inv)

lemma init_iter_cached: "mw_client w \<Longrightarrow> ((\<lambda>w. snd (initMCPClient srv w)) ^^ k) w = w"
  by (induction k) simp_all

lemma initMCPClient_open: "mw_open (snd (initMCPClient srv w)) \<le> Suc (mw_open w)"
  by (auto simp: initMCPClient_def Let_def split: sum.splits)

lemma init_iter_counts:
  "mw_attempts (((\<lambda>w. snd (initMCPClient srv w)) ^^ k) w) \<le> mw_attempts w + k \<and>
   mw_open (((\<lambda>w. snd (initMCPClient srv w)) ^^ k) w) \<le> mw_open w + k"
proof (induction k)
  case (Suc k)
  then show ?case
    using initMCPClient_attempts [of srv "((\<lambda>w. snd (initMCPClient srv w)) ^^ k) w"]
      initMCPClient_open [of srv "((\<lambda>w. snd (initMCPClient srv w)) ^^ k) w"] by simp
qed simp

text \<open>With a server ready, every call goes through one client, cached by the first call.\<close>

lemma ready_calls:
  assumes "mcp_ready srv w"
  obtains w' where "mw_client w'" "mcp_call_tool srv name args w = (srv_call srv name args, w')"
    "\<And>name args. mcp_call_tool srv name args w' = (srv_call srv name args, w')"
  using initMCPClient_ready [OF assms] mcp_call_tool_ready initMCPClient_cached by metis


lemma structure_error_flow:
  assumes "readWikiStructure (dw_server env) r w = (Inl e, w')" "e \<noteq> []"
  shows "document_flow env (dw_init w r q) =
    (dw_reduce (dw_init w r q) (dw_noop\<lparr>du_wikiStructure := Some WSNull, du_error := Some e, du_world := Some w'\<rparr>),
     [''fetchWikiStructure''])"
proof -
  have "fetchWikiStructureNode env (dw_init w r q) =
      dw_noop\<lparr>du_wikiStructure := Some WSNull, du_error := Some e, du_world := Some w'\<rparr>"
    using assms(1) by (simp add: fetchWikiStructureNode_def)
  with assms(2) show ?thesis by (simp add: document_flow_def Let_def str_truthy_def dw_noop_def)
qed

lemma structure_of_read: "fst (readWikiStructure srv r w) = Inr ws \<Longrightarrow> \<exists>x. ws = wiki_structure_of x"
  by (cases "fst (mcp_call_tool srv ''read_wiki_structure'' [(''repoName'', r)] w)")
     (auto simp: readWikiStructure_def split_beta)

lemma structure_ok_of: "ws_topics (wiki_structure_of x) = Inr t \<Longrightarrow> structure_ok (wiki_structure_of x)"
  by (cases x rule: wiki_structure_of.cases) auto

lemma fetch_structure_ok: "\<exists>ws. du_wikiStructure (fetchWikiStructureNode env st) = Some ws \<and> structure_ok ws"
proof (cases "readWikiStructure (dw_server env) (ds_repoName st) (ds_world st)")
  case (Pair res w')
  show ?thesis
  proof (cases res)
    case (Inl e)
    with Pair show ?thesis by (simp add: fetchWikiStructureNode_def dw_noop_def)
  next
    case (Inr ws)
    with Pair obtain x where x: "ws = wiki_structure_of x" using structure_of_read by (metis fst_conv)
    show ?thesis
    proof (cases "ws_topics ws")
      case (Inl te)
      with Pair Inr show ?thesis by (simp add: fetchWikiStructureNode_def dw_noop_def)
    next
      case (Inr t)
      with Pair \<open>res = Inr ws\<close> x structure_ok_of [of x t] show ?thesis
        by (simp add: fetchWikiStructureNode_def dw_noop_def)
    qed
  qed
qed

text \<open>
  C21. The compiled graph runs exactly the flow of the diagram: \<open>runDocumentAnalysis\<close>
  never fails (every node catches its errors, both routers return a mapped label, and no
  path is longer than five steps, well within the recursion limit), and its final state
  and the nodes it runs are those of \<open>document_flow\<close>.
\<close>

theorem runDocumentAnalysis_refines_flow:
  "runDocumentAnalysis env w r q = (case document_flow env (dw_init w r q) of (s, tr) \<Rightarrow> Done s tr)"
  using run_Done_iff [of env w r q] by (cases "document_flow env (dw_init w r q)") simp

text \<open>
  C22. When reading the wiki structure fails with a non-empty message, the run stops after
  \<open>fetchWikiStructure\<close>: the error channel holds the message, the structure is \<open>null\<close>,
  and no summary is written.
\<close>

theorem structure_error_ends_run:
  assumes "fst (readWikiStructure (dw_server env) r w) = Inl e" "e \<noteq> []"
  shows "\<exists>s. runDocumentAnalysis env w r q = Done s [''fetchWikiStructure''] \<and>
             ds_error s = Some e \<and> ds_wikiStructure s = Some WSNull \<and> ds_summary s = None"
proof -
  obtain w' where "readWikiStructure (dw_server env) r w = (Inl e, w')" using assms(1) by (metis prod.collapse)
  from structure_error_flow [OF this assms(2), of q] show ?thesis by (simp add: run_Done_iff dw_noop_def)
qed

theorem structure_error_ends_run_witness:
  "\<exists>s. runDocumentAnalysis (failing_env ''fetch failed'') fresh_world ''facebook/react'' None
         = Done s [''fetchWikiStructure''] \<and> ds_error s = Some ''fetch failed'' \<and>
       ds_wikiStructure s = Some WSNull \<and> ds_summary s = None"
  by (rule structure_error_ends_run)
     (simp_all add: failing_env_def fresh_world_def readWikiStructure_def mcp_call_tool_def initMCPClient_def)

text \<open>
  C23. \<open>checkError\<close> tests the truthiness of the message, not whether an error was
  caught: when reading the structure fails with an empty message, the run goes on to
  \<open>fetchWikiContents\<close> and \<open>analyzeInsights\<close> with the structure \<open>null\<close>.
\<close>

theorem empty_error_message_continues:
  assumes "fst (readWikiStructure (dw_server env) r w) = Inl []"
  shows "\<exists>s tr. runDocumentAnalysis env w r q = Done s tr \<and>
           take 3 tr = [''fetchWikiStructure'', ''fetchWikiContents'', ''analyzeInsights''] \<and>
           ds_wikiStructure s = Some WSNull"
proof -
  obtain w' where rd: "readWikiStructure (dw_server env) r w = (Inl [], w')" using assms by (metis prod.collapse)
  let ?s0 = "dw_init w r q"
  have u: "fetchWikiStructureNode env ?s0 = dw_noop\<lparr>du_wikiStructure := Some WSNull, du_error := Some [], du_world := Some w'\<rparr>"
    using rd by (simp add: fetchWikiStructureNode_def)
  have "take 3 (snd (document_flow env ?s0)) = [''fetchWikiStructure'', ''fetchWikiContents'', ''analyzeInsights''] \<and>
        ds_wikiStructure (fst (document_flow env ?s0)) = Some WSNull"
    using u by (simp add: document_flow_def Let_def str_truthy_def dw_noop_def)
  then show ?thesis using run_Done_iff [of env w r q "fst (document_flow env ?s0)" "snd (document_flow env ?s0)"] by auto
qed

theorem empty_error_message_continues_witness:
  "\<exists>s tr. runDocumentAnalysis (failing_env []) fresh_world ''facebook/react'' None = Done s tr \<and>
     take 3 tr = [''fetchWikiStructure'', ''fetchWikiContents'', ''analyzeInsights''] \<and>
     ds_wikiStructure s = Some WSNull"
  by (rule empty_error_message_continues)
     (simp add: failing_env_def fresh_world_def readWikiStructure_def mcp_call_tool_def initMCPClient_def)

text \<open>
  C24. Without a question, or with one that is only white space, \<open>answerQuestion\<close> never
  runs and the answer channel stays unset.
\<close>

theorem blank_question_skips_answer:
  assumes "js_trim (case q of None \<Rightarrow> [] | Some x \<Rightarrow> x) = []"
  shows "\<exists>s tr. runDocumentAnalysis env w r q = Done s tr \<and> ''answerQuestion'' \<notin> set tr \<and> ds_answer s = None"
proof -
  let ?s0 = "dw_init w r q"
  have sq: "shouldAnswerQuestion st \<noteq> ''answer''" if "ds_userQuestion st = (case q of None \<Rightarrow> [] | Some x \<Rightarrow> x)" for st
    using that assms by (simp add: shouldAnswerQuestion_def)
  have "''answerQuestion'' \<notin> set (snd (document_flow env ?s0)) \<and> ds_answer (fst (document_flow env ?s0)) = None"
    by (simp add: document_flow_def Let_def sq)
  then show ?thesis using run_Done_iff [of env w r q "fst (document_flow env ?s0)" "snd (document_flow env ?s0)"] by auto
qed

theorem blank_question_skips_answer_witness:
  "\<exists>s tr. runDocumentAnalysis demo_dw_env fresh_world ''facebook/react'' (Some ''  '') = Done s tr \<and>
     ''answerQuestion'' \<notin> set tr \<and> ds_answer s = None"
  by (rule blank_question_skips_answer) (simp add: js_trim_def js_is_space_def)


text \<open>
  C25. With a server that accepts the connection and a question that is not blank, the
  run takes the full path, stores the parsed topic list, the contents and the answer the
  server returned, computes the insights from them, records no error, and leaves the
  client cached.
\<close>

theorem full_path_with_question:
  assumes ready: "mcp_ready (dw_server env) w"
    and ws: "srv_call (dw_server env) ''read_wiki_structure'' [(''repoName'', r)] = Inr (MContent (TextItem raw # cs))"
    and wc: "srv_call (dw_server env) ''read_wiki_contents'' [(''repoName'', r)] = Inr rc"
    and aq: "srv_call (dw_server env) ''ask_question'' [(''repoName'', r), (''question'', q)] = Inr ra"
    and q: "js_trim q \<noteq> []"
  shows "\<exists>s. runDocumentAnalysis env w r (Some q) =
             Done s [''fetchWikiStructure'', ''fetchWikiContents'', ''analyzeInsights'', ''answerQuestion'', ''generateSummary''] \<and>
           ds_wikiStructure s = Some (WSTopics raw (parseTopicList raw)) \<and>
           ds_wikiContents s = Some (content_text rc) \<and> ds_answer s = Some (content_text ra) \<and>
           ds_insights s = Some \<lparr>in_topicCount = length (parseTopicList raw),
             in_documentLength = length (content_text rc), in_hasWiki = (content_text rc \<noteq> [])\<rparr> \<and>
           ds_error s = None \<and> mw_client (ds_world s)"
proof -
  obtain w' where c: "mw_client w'" "mcp_call_tool (dw_server env) ''read_wiki_structure'' [(''repoName'', r)] w =
      (srv_call (dw_server env) ''read_wiki_structure'' [(''repoName'', r)], w')"
    "\<And>name args. mcp_call_tool (dw_server env) name args w' = (srv_call (dw_server env) name args, w')"
    using ready_calls [OF ready] by metis
  define s0 where "s0 = dw_init w r (Some q)"
  define s1 where "s1 = dw_reduce s0 (fetchWikiStructureNode env s0)"
  define s2 where "s2 = dw_reduce s1 (fetchWikiContentsNode env s1)"
  define s3 where "s3 = dw_reduce s2 (analyzeInsightsNode s2)"
  define s4 where "s4 = dw_reduce s3 (answerQuestionNode env s3)"
  define s5 where "s5 = dw_reduce s4 (generateSummaryNode env s4)"
  have s0: "ds_error s0 = None" "ds_repoName s0 = r" "ds_userQuestion s0 = q"
    by (simp_all add: s0_def)
  have u1: "fetchWikiStructureNode env s0 = dw_noop\<lparr>du_wikiStructure := Some (WSTopics raw (parseTopicList raw)), du_world := Some w'\<rparr>"
    using c(2) ws by (simp add: s0_def fetchWikiStructureNode_def readWikiStructure_def)
  have s1: "ds_world s1 = w'" "ds_error s1 = None" "ds_repoName s1 = r" "ds_userQuestion s1 = q"
    "ds_wikiStructure s1 = Some (WSTopics raw (parseTopicList raw))"
    using s0 by (simp_all add: s1_def u1 dw_noop_def)
  have u2: "fetchWikiContentsNode env s1 = dw_noop\<lparr>du_wikiContents := Some (content_text rc), du_world := Some w'\<rparr>"
    using c(3) wc s1 by (simp add: fetchWikiContentsNode_def readWikiContents_def)
  have s2: "ds_world s2 = w'" "ds_error s2 = None" "ds_repoName s2 = r" "ds_userQuestion s2 = q"
    "ds_wikiStructure s2 = Some (WSTopics raw (parseTopicList raw))" "ds_wikiContents s2 = Some (content_text rc)"
    by (simp_all add: s2_def u2 s1 dw_noop_def)
  have s3: "ds_world s3 = w'" "ds_error s3 = None" "ds_repoName s3 = r" "ds_userQuestion s3 = q"
    "ds_wikiStructure s3 = Some (WSTopics raw (parseTopicList raw))" "ds_wikiContents s3 = Some (content_text rc)"
    "ds_insights s3 = Some \<lparr>in_topicCount = length (parseTopicList raw),
       in_documentLength = length (content_text rc), in_hasWiki = (content_text rc \<noteq> [])\<rparr>"
    by (simp_all add: s3_def s2 analyzeInsightsNode_def state_topics_def state_doc_length_def dw_noop_def)
  have route: "shouldAnswerQuestion s3 = ''answer''"
    using q s3 by (auto simp: shouldAnswerQuestion_def str_truthy_def)
  have u4: "answerQuestionNode env s3 = dw_noop\<lparr>du_answer := Some (content_text ra), du_world := Some w'\<rparr>"
    using c(3) aq s3 by (simp add: answerQuestionNode_def askQuestion_def)
  have s5: "ds_world s5 = w'" "ds_error s5 = None"
    "ds_wikiStructure s5 = Some (WSTopics raw (parseTopicList raw))" "ds_wikiContents s5 = Some (content_text rc)"
    "ds_answer s5 = Some (content_text ra)"
    "ds_insights s5 = Some \<lparr>in_topicCount = length (parseTopicList raw),
       in_documentLength = length (content_text rc), in_hasWiki = (content_text rc \<noteq> [])\<rparr>"
    by (simp_all add: s5_def s4_def u4 s3 dw_noop_def)
  have "document_flow env s0 =
      (s5, [''fetchWikiStructure'', ''fetchWikiContents'', ''analyzeInsights'', ''answerQuestion'', ''generateSummary''])"
    unfolding document_flow_def Let_def s1_def [symmetric] s2_def [symmetric] s3_def [symmetric]
      s4_def [symmetric] s5_def [symmetric]
    using s1 route by (simp add: str_truthy_def)
  then show ?thesis using s5 c(1) by (simp add: run_Done_iff s0_def)
qed

theorem full_path_with_question_witness:
  "\<exists>s. runDocumentAnalysis demo_dw_env fresh_world ''facebook/react'' (Some ''What is React?'') =
       Done s [''fetchWikiStructure'', ''fetchWikiContents'', ''analyzeInsights'', ''answerQuestion'', ''generateSummary''] \<and>
     ds_wikiStructure s = Some (WSTopics (topic_listing [''Overview'', ''Hooks'']) (parseTopicList (topic_listing [''Overview'', ''Hooks'']))) \<and>
     ds_wikiContents s = Some (content_text (MContent [TextItem ''React docs''])) \<and>
     ds_answer s = Some (content_text (MContent [TextItem ''Components''])) \<and>
     ds_insights s = Some \<lparr>in_topicCount = length (parseTopicList (topic_listing [''Overview'', ''Hooks''])),
       in_documentLength = length (content_text (MContent [TextItem ''React docs''])),
       in_hasWiki = (content_text (MContent [TextItem ''React docs'']) \<noteq> [])\<rparr> \<and>
     ds_error s = None \<and> mw_client (ds_world s)"
  by (rule full_path_with_question)
     (simp_all add: demo_dw_env_def demo_server_def fresh_world_def mcp_ready_def js_trim_def js_is_space_def)

text \<open>
  C26. A run keeps the MCP bookkeeping consistent: if no more connections are open than
  were attempted and a cached client has an open connection, the same holds after the run.
\<close>

theorem run_keeps_mcp_inv:
  assumes "mcp_inv w"
  shows "mcp_inv (result_world w (runDocumentAnalysis env w r q))"
  using flow_world_iter [of env "dw_init w r q"] init_iter_inv [OF assms]
  by (auto simp: run_world)

theorem run_keeps_mcp_inv_witness:
  "mcp_inv (result_world fresh_world (runDocumentAnalysis leaky_env fresh_world ''facebook/react'' None))"
  by (rule run_keeps_mcp_inv) (simp add: mcp_inv_def fresh_world_def)

text \<open>
  C27. Once \<open>initMCPClient\<close> has cached a client, a run reuses it: it attempts no new
  connection and leaves the MCP world as it was.
\<close>

theorem cached_client_reused:
  assumes "mw_client w"
  shows "result_world w (runDocumentAnalysis env w r q) = w"
  using flow_world_iter [of env "dw_init w r q"] init_iter_cached [OF assms]
  by (auto simp: run_world)

theorem cached_client_reused_witness:
  "result_world (fresh_world\<lparr>mw_client := True, mw_attempts := 1, mw_open := 1\<rparr>)
     (runDocumentAnalysis leaky_env (fresh_world\<lparr>mw_client := True, mw_attempts := 1, mw_open := 1\<rparr>) ''vercel/next.js'' None)
   = fresh_world\<lparr>mw_client := True, mw_attempts := 1, mw_open := 1\<rparr>"
  by (rule cached_client_reused) simp

text \<open>
  C28. A run attempts at most three connections and leaves at most three more open: one
  per node that calls the server.
\<close>

theorem run_connection_bound:
  "mw_attempts (result_world w (runDocumentAnalysis env w r q)) \<le> mw_attempts w + 3 \<and>
   mw_open (result_world w (runDocumentAnalysis env w r q)) \<le> mw_open w + 3"
proof -
  obtain k where k: "k \<le> 3" "ds_world (fst (document_flow env (dw_init w r q))) =
      ((\<lambda>w. snd (initMCPClient (dw_server env) w)) ^^ k) w"
    using flow_world_iter [of env "dw_init w r q"] by auto
  then show ?thesis using init_iter_counts [where srv = "dw_server env" and k = k and w = w] by (simp add: run_world)
qed


text \<open>
  C29. \<open>main\<close> leaks connections: against a server that accepts connections but fails
  \<open>listTools\<close>, each of the two runs stops after \<open>fetchWikiStructure\<close> and leaves the
  connection it opened behind; no client is cached, so the \<open>finally\<close> closes nothing and
  two more connections are open at the end.
\<close>

theorem main_leaks_connections:
  assumes conn: "\<forall>n. srv_connect (dw_server env) n = Inr ()"
    and lt: "\<forall>n. srv_list_tools (dw_server env) n = Inl e" and e: "e \<noteq> []" and w0: "\<not> mw_client w0"
  shows "case dw_main env w0 of (r1, r2, w) \<Rightarrow>
           trace_of r1 = [''fetchWikiStructure''] \<and> trace_of r2 = [''fetchWikiStructure''] \<and>
           \<not> mw_client w \<and> mw_open w = mw_open w0 + 2"
proof -
  have run: "\<exists>s. runDocumentAnalysis env w r q = Done s [''fetchWikiStructure''] \<and>
               \<not> mw_client (ds_world s) \<and> mw_open (ds_world s) = Suc (mw_open w)"
    if "\<not> mw_client w" for w r q
  proof -
    let ?w' = "w\<lparr>mw_attempts := Suc (mw_attempts w), mw_open := Suc (mw_open w)\<rparr>"
    have "initMCPClient (dw_server env) w = (Inl e, ?w')"
      using that conn lt by (simp add: initMCPClient_def)
    then have "readWikiStructure (dw_server env) r w = (Inl e, ?w')"
      by (simp add: readWikiStructure_def mcp_call_tool_fail)
    from structure_error_flow [OF this e, of q] that show ?thesis by (simp add: run_Done_iff dw_noop_def)
  qed
  obtain s1 where r1: "runDocumentAnalysis env w0 ''facebook/react'' None = Done s1 [''fetchWikiStructure'']"
    "\<not> mw_client (ds_world s1)" "mw_open (ds_world s1) = Suc (mw_open w0)"
    using run [OF w0] by blast
  obtain s2 where r2: "runDocumentAnalysis env (ds_world s1) ''vercel/next.js'' (Some ''What are the main features of this project?'')
      = Done s2 [''fetchWikiStructure'']" "\<not> mw_client (ds_world s2)" "mw_open (ds_world s2) = Suc (mw_open (ds_world s1))"
    using run [OF r1(2)] by blast
  show ?thesis using r1 r2 by (simp add: dw_main_def Let_def result_world_def mcp_disconnect_def)
qed

theorem main_leaks_connections_witness:
  "case dw_main leaky_env fresh_world of (r1, r2, w) \<Rightarrow>
     trace_of r1 = [''fetchWikiStructure''] \<and> trace_of r2 = [''fetchWikiStructure''] \<and>
     \<not> mw_client w \<and> mw_open w = mw_open fresh_world + 2"
  by (rule main_leaks_connections [where e = "''listTools failed''"]) (simp_all add: leaky_env_def fresh_world_def)

text \<open>
  C30. The structure channel is well typed after every run: it is set, it is never
  \<open>undefined\<close> (a missing \<open>content\<close> becomes the \<open>TypeError\<close> caught in
  \<open>fetchWikiStructure\<close> and the channel \<open>null\<close>), and a parsed listing's topics are
  exactly \<open>parseTopicList\<close> of its raw text.
\<close>

theorem run_structure_ok:
  "\<exists>s tr ws. runDocumentAnalysis env w r q = Done s tr \<and> ds_wikiStructure s = Some ws \<and> structure_ok ws"
proof -
  let ?s0 = "dw_init w r q"
  obtain ws where ws: "du_wikiStructure (fetchWikiStructureNode env ?s0) = Some ws" "structure_ok ws"
    using fetch_structure_ok by blast
  have "ds_wikiStructure (fst (document_flow env ?s0)) = Some ws"
    using ws(1) by (simp add: document_flow_def Let_def)
  then show ?thesis
    using ws(2) run_Done_iff [of env w r q "fst (document_flow env ?s0)" "snd (document_flow env ?s0)"] by auto
qed


end
