(* ===== verification/Weather_Agent.thy ===== *)
theory Weather_Agent
  imports Messages Graph_Engine "HOL-Library.Mapping"
begin

text \<open>
  The two examples built on langchain's prebuilt \<open>createAgent\<close>: the weather forecaster
  of \<open>src/real-world.ts\<close>, which has a system prompt, two tools (one reads the user id
  from the run's \<open>context\<close>) and a \<open>MemorySaver\<close> checkpointer that carries the
  conversation of a thread from one \<open>invoke\<close> to the next; and the single-tool agent of
  \<open>src/unnamed/part_002\<close>. \<open>createAgent\<close> and \<open>MemorySaver\<close> are library code, not
  under \<open>src/\<close>: the agent is the tool-calling loop of spec section 4.2 (a model node and
  a tool node that turns a failed call into a tool message), the checkpointer the memory
  interface of spec sections 5 and 6 (read once when a walk starts, written once when it
  ends, keyed by the thread id).
\<close>

subsection \<open>The prebuilt agent (spec 4.2)\<close>

text \<open>
  One tool call in the agent's tool node: the tool's message, or, when the tool is unknown
  or the arguments fail its schema, a tool message that carries the error and answers the
  same call id, so the model can correct itself.
\<close>

definition react_call_tool :: "tool list \<Rightarrow> tool_call \<Rightarrow> message" where
  "react_call_tool tools c =
     (case map_of (rev (map (\<lambda>t. (tool_name t, t)) tools)) (tc_name c) of
        None \<Rightarrow> ToolMessage (OStr (''Error: Tool '' @ tc_name c @ '' not found'')) (tc_id c)
      | Some t \<Rightarrow>
          (case tool_invoke t c of
             Inl e \<Rightarrow> ToolMessage (OStr (''Error: '' @ tool_error_msg e)) (tc_id c)
           | Inr m \<Rightarrow> m))"

definition react_model_node :: "chat_model \<Rightarrow> string option \<Rightarrow> message list \<Rightarrow> string + message list" where
  "react_model_node llm prompt msgs =
     (case llm ((case prompt of None \<Rightarrow> [] | Some p \<Rightarrow> [SystemMessage p]) @ msgs) of
        Inl e \<Rightarrow> Inl e
      | Inr (c, calls) \<Rightarrow> Inr [AIMessage c calls])"

definition react_tools_node :: "tool list \<Rightarrow> message list \<Rightarrow> string + message list" where
  "react_tools_node tools msgs =
     Inr (case last_opt msgs of
            Some (AIMessage c calls) \<Rightarrow> map (react_call_tool tools) calls
          | _ \<Rightarrow> [])"

definition react_route :: "message list \<Rightarrow> label" where
  "react_route msgs =
     (case last_opt msgs of
        Some (AIMessage c calls) \<Rightarrow> if calls \<noteq> [] then ''tools'' else END
      | _ \<Rightarrow> END)"

type_synonym react_graph = "(message list, message list) state_graph"

definition create_agent :: "chat_model \<Rightarrow> string option \<Rightarrow> tool list \<Rightarrow> react_graph" where
  "create_agent llm prompt tools =
     \<lparr>sg_reduce = add_messages,
      sg_nodes = [(''model_request'', react_model_node llm prompt), (''tools'', react_tools_node tools)],
      sg_edges = [(START, Static ''model_request''),
                  (''model_request'', Conditional react_route (path_list [''tools'', END])),
                  (''tools'', Static ''model_request'')]\<rparr>"

subsection \<open>The checkpointer (spec 5 and 6)\<close>

text \<open>
  \<open>MemorySaver\<close>: the last state saved for each thread id. An \<open>invoke\<close> with a
  \<open>thread_id\<close> merges its input into the saved transcript, runs the graph, and saves the
  final state when the walk ends; a failed walk saves nothing.
\<close>

type_synonym checkpointer = "(string, message list) mapping"

definition saved :: "checkpointer \<Rightarrow> string \<Rightarrow> message list" where
  "saved cp tid = (case Mapping.lookup cp tid of None \<Rightarrow> [] | Some s \<Rightarrow> s)"

definition invoke_thread ::
  "react_graph \<Rightarrow> checkpointer \<Rightarrow> string \<Rightarrow> message list \<Rightarrow> message list walk_result \<times> checkpointer" where
  "invoke_thread g cp tid input =
     (case invoke g default_recursion_limit (add_messages (saved cp tid) input) of
        Done s tr \<Rightarrow> (Done s tr, Mapping.update tid s cp)
      | Failed e tr \<Rightarrow> (Failed e tr, cp))"

subsection \<open>The weather forecaster (real-world.ts)\<close>

text \<open>The system prompt of lines 8--15, line by line.\<close>

definition weather_prompt :: string where
  "weather_prompt = js_join (CHR 0x0A)
     [''You are an expert weather forecaster, who speaks in puns.'', [],
      ''You have access to two tools:'', [],
      ''- get_weather_for_location: use this to get the weather for a specific location'',
      ''- get_user_location: use this to get the user's location'', [],
      ''If a user asks you for the weather, make sure you know the location. If you can tell from the question that they mean wherever they are, use the get_user_location tool to find their location.'']"

text \<open>The body \<open>({ city }) => `It's always sunny in ${city}!`\<close> with schema \<open>{city: string}\<close>.\<close>

definition weather_tool :: "string \<Rightarrow> tool" where
  "weather_tool nm =
     \<lparr>tool_name = nm,
      tool_fn = (\<lambda>args. case zod_string args ''city'' of
                   Inl e \<Rightarrow> Inl e
                 | Inr city \<Rightarrow> Inr (OStr (''It's always sunny in '' @ city @ ''!'')))\<rparr>"

definition getWeather :: tool where
  "getWeather = weather_tool ''get_weather_for_location''"

text \<open>
  \<open>config?.context?.user_id\<close>: the run's context is an optional JSON value; a missing
  context, a context that is not an object, or one without the field give \<open>undefined\<close>.
\<close>

definition ctx_user_id :: "json option \<Rightarrow> json option" where
  "ctx_user_id ctx = (case ctx of Some (JObj kvs) \<Rightarrow> map_of (rev kvs) ''user_id'' | _ \<Rightarrow> None)"

text \<open>\<open>z.object({})\<close>: any object passes (unknown keys are stripped).\<close>

fun zod_empty_object :: "json \<Rightarrow> tool_error + unit" where
  "zod_empty_object (JObj kvs) = Inr ()"
| "zod_empty_object v = Inl (ToolInputParsingException ''Expected object'')"

definition getUserLocation :: "json option \<Rightarrow> tool" where
  "getUserLocation ctx =
     \<lparr>tool_name = ''get_user_location'',
      tool_fn = (\<lambda>args. case zod_empty_object args of
                   Inl e \<Rightarrow> Inl e
                 | Inr u \<Rightarrow> Inr (OStr (if ctx_user_id ctx = Some (JStr ''1'') then ''Florida'' else ''SF'')))\<rparr>"

text \<open>\<open>createAgent({model, systemPrompt, tools: [getUserLocation, getWeather], checkpointer})\<close>, run in context \<open>ctx\<close>.\<close>

definition weather_agent :: "chat_model \<Rightarrow> json option \<Rightarrow> react_graph" where
  "weather_agent llm ctx = create_agent llm (Some weather_prompt) [getUserLocation ctx, getWeather]"

definition weather_config_context :: "json option" where
  "weather_config_context = Some (JObj [(''user_id'', JStr ''1'')])"

text \<open>
  \<open>main\<close>: two questions on thread \<open>"1"\<close> with user \<open>"1"\<close>, through one checkpointer
  that starts empty. \<open>await agent.invoke(...)\<close> throws when the walk fails, and the
  throw leaves \<open>main\<close> (to \<open>main().catch(console.error)\<close>): the second question is
  only asked when the first turn ends, \<open>None\<close> standing for the turn never run.
\<close>

definition weather_main ::
  "chat_model \<Rightarrow> (message list walk_result \<times> message list walk_result option) \<times> checkpointer" where
  "weather_main llm =
     (let g = weather_agent llm weather_config_context;
          (r1, cp1) = invoke_thread g Mapping.empty ''1'' [HumanMessage ''what is the weather outside?'']
      in case r1 of
           Failed e tr \<Rightarrow> ((r1, None), cp1)
         | Done s tr \<Rightarrow>
             (let (r2, cp2) = invoke_thread g cp1 ''1'' [HumanMessage ''thank you!'']
              in ((r1, Some r2), cp2)))"

subsection \<open>The single-tool agent (part_002)\<close>

definition get_weather :: tool where
  "get_weather = weather_tool ''get_weather''"

definition tokyo_agent :: "chat_model \<Rightarrow> react_graph" where
  "tokyo_agent llm = create_agent llm None [get_weather]"

definition tokyo_run :: "chat_model \<Rightarrow> message list walk_result" where
  "tokyo_run llm = invoke (tokyo_agent llm) default_recursion_limit [HumanMessage ''What's the weather in Tokyo?'']"

subsection \<open>The prebuilt agent's walk\<close>

declare weather_main_def [agent_simps] weather_agent_def [agent_simps] invoke_thread_def [agent_simps]
  react_model_node_def [agent_simps] react_tools_node_def [agent_simps] react_route_def [agent_simps]
  react_call_tool_def [agent_simps]

lemma react_route_cases: "react_route msgs \<in> {''tools'', END}"
  by (auto simp: react_route_def split: option.split message.split)

lemma create_agent_route [simp, walk_simps]:
  "route (create_agent llm p ts) START s = Inr ''model_request''"
  "route (create_agent llm p ts) ''model_request'' s = Inr (react_route s)"
  "route (create_agent llm p ts) ''tools'' s = Inr ''model_request''"
  using react_route_cases [of s] by (auto simp: route_def create_agent_def path_list_def)

lemma create_agent_nodes [simp, walk_simps]:
  "map_of (sg_nodes (create_agent llm p ts)) ''model_request'' = Some (react_model_node llm p)"
  "map_of (sg_nodes (create_agent llm p ts)) ''tools'' = Some (react_tools_node ts)"
  "sg_reduce (create_agent llm p ts) = add_messages"
  by (simp_all add: create_agent_def)

text \<open>The agent only appends to the transcript it starts from.\<close>

lemma create_agent_prefix:
  "invoke (create_agent llm p ts) k s0 = Done s tr \<Longrightarrow> prefix s0 s"
  unfolding invoke_def
  by (auto elim!: walk_invariant [where P = "prefix s0"] simp: add_messages_def intro: prefix_order.trans)

lemma invoke_thread_Done:
  "invoke_thread g cp tid input = (Done s tr, cp') \<Longrightarrow>
     invoke g default_recursion_limit (saved cp tid @ input) = Done s tr \<and> cp' = Mapping.update tid s cp"
  by (auto simp: invoke_thread_def add_messages_def split: walk_result.splits)

lemma saved_update [simp]: "saved (Mapping.update tid s cp) tid = s"
  by (simp add: saved_def lookup_update)

lemma saved_empty [simp]: "saved Mapping.empty tid = []"
  by (simp add: saved_def lookup_empty)

text \<open>
  C31. The checkpointer carries the conversation: when both turns of the forecaster's
  \<open>main\<close> end, the second turn's transcript starts with the whole first-turn transcript
  followed by the user's \<open>thank you!\<close>, the first starts with the first question, and
  thread \<open>"1"\<close> holds the second transcript.
\<close>

theorem weather_second_turn_remembers:
  assumes "weather_main llm = ((Done s1 tr1, Some (Done s2 tr2)), cp)"
  shows "prefix [HumanMessage ''what is the weather outside?''] s1 \<and>
         prefix (s1 @ [HumanMessage ''thank you!'']) s2 \<and> Mapping.lookup cp ''1'' = Some s2"
proof -
  let ?g = "weather_agent llm weather_config_context"
  obtain r1 cp1 where t1: "invoke_thread ?g Mapping.empty ''1'' [HumanMessage ''what is the weather outside?''] = (r1, cp1)"
    by fastforce
  obtain r2 cp2 where t2: "invoke_thread ?g cp1 ''1'' [HumanMessage ''thank you!''] = (r2, cp2)" by fastforce
  from assms t1 have r1: "r1 = Done s1 tr1"
    by (cases r1) (simp_all add: weather_main_def split: prod.splits)
  from assms t1 t2 r1 have r: "r1 = Done s1 tr1" "r2 = Done s2 tr2" "cp2 = cp" by (simp_all add: weather_main_def)
  from invoke_thread_Done [OF t1 [unfolded r]] have
    i1: "invoke ?g default_recursion_limit [HumanMessage ''what is the weather outside?''] = Done s1 tr1"
    and c1: "cp1 = Mapping.update ''1'' s1 Mapping.empty" by simp_all
  from invoke_thread_Done [OF t2 [unfolded r]] c1 have
    i2: "invoke ?g default_recursion_limit (s1 @ [HumanMessage ''thank you!'']) = Done s2 tr2"
    and c2: "cp = Mapping.update ''1'' s2 cp1" by simp_all
  show ?thesis
    using create_agent_prefix [OF i1 [unfolded weather_agent_def]] create_agent_prefix [OF i2 [unfolded weather_agent_def]]
      c2 by (simp add: lookup_update)
qed

theorem weather_second_turn_remembers_witness:
  "weather_main (\<lambda>msgs. Inr (''Sunny'', [])) =
     ((Done [HumanMessage ''what is the weather outside?'', AIMessage ''Sunny'' []] [''model_request''],
       Some (Done [HumanMessage ''what is the weather outside?'', AIMessage ''Sunny'' [], HumanMessage ''thank you!'', AIMessage ''Sunny'' []]
            [''model_request''])),
      Mapping.update ''1'' [HumanMessage ''what is the weather outside?'', AIMessage ''Sunny'' [], HumanMessage ''thank you!'', AIMessage ''Sunny'' []]
        (Mapping.update ''1'' [HumanMessage ''what is the weather outside?'', AIMessage ''Sunny'' []] Mapping.empty)) \<and>
   prefix [HumanMessage ''what is the weather outside?''] [HumanMessage ''what is the weather outside?'', AIMessage ''Sunny'' []] \<and>
   prefix ([HumanMessage ''what is the weather outside?'', AIMessage ''Sunny'' []] @ [HumanMessage ''thank you!''])
     [HumanMessage ''what is the weather outside?'', AIMessage ''Sunny'' [], HumanMessage ''thank you!'', AIMessage ''Sunny'' []] \<and>
   Mapping.lookup (Mapping.update ''1'' [HumanMessage ''what is the weather outside?'', AIMessage ''Sunny'' [], HumanMessage ''thank you!'', AIMessage ''Sunny'' []]
        (Mapping.update ''1'' [HumanMessage ''what is the weather outside?'', AIMessage ''Sunny'' []] Mapping.empty)) ''1''
     = Some [HumanMessage ''what is the weather outside?'', AIMessage ''Sunny'' [], HumanMessage ''thank you!'', AIMessage ''Sunny'' []]"
proof -
  have run: "weather_main (\<lambda>msgs. Inr (''Sunny'', [])) =
     ((Done [HumanMessage ''what is the weather outside?'', AIMessage ''Sunny'' []] [''model_request''],
       Some (Done [HumanMessage ''what is the weather outside?'', AIMessage ''Sunny'' [], HumanMessage ''thank you!'', AIMessage ''Sunny'' []]
            [''model_request''])),
      Mapping.update ''1'' [HumanMessage ''what is the weather outside?'', AIMessage ''Sunny'' [], HumanMessage ''thank you!'', AIMessage ''Sunny'' []]
        (Mapping.update ''1'' [HumanMessage ''what is the weather outside?'', AIMessage ''Sunny'' []] Mapping.empty))"
    by (simp add: agent_simps walk_simps numeral_eq_Suc add_messages_def)
  with weather_second_turn_remembers [OF run] show ?thesis by simp
qed


end
